(* ===== verification/Prelude.thy ===== *)
theory Prelude
  imports Main "HOL-Library.Sublist"
begin

text \<open>
  Shared base of the development: the theorem collections, the result type by which a Python
  exception becomes a value, and generic facts on lists and options that several components use.
  A Python call that may raise is modelled by a function into \<open>'e + 'a\<close>: \<open>Inl\<close> carries the
  exception, \<open>Inr\<close> the returned value.
\<close>

named_theorems py_simps \<open>evaluation rules of the Python library model\<close>
named_theorems op_defs \<open>definitions of operations, unfolded by functional lemmas\<close>

section \<open>Results\<close>

definition bindE :: "'e + 'a \<Rightarrow> ('a \<Rightarrow> 'e + 'b) \<Rightarrow> 'e + 'b" where
  "bindE m f = (case m of Inl e \<Rightarrow> Inl e | Inr a \<Rightarrow> f a)"

definition guardE :: "bool \<Rightarrow> 'e \<Rightarrow> 'e + unit" where
  "guardE b e = (if b then Inr () else Inl e)"

definition is_ok :: "'e + 'a \<Rightarrow> bool" where
  "is_ok r = (case r of Inl _ \<Rightarrow> False | Inr _ \<Rightarrow> True)"

lemma bindE_simps [simp]:
  "bindE (Inl e) f = Inl e"
  "bindE (Inr a) f = f a"
  by (simp_all add: bindE_def)

lemma bindE_Inr_iff: "bindE m f = Inr b \<longleftrightarrow> (\<exists>a. m = Inr a \<and> f a = Inr b)"
  by (cases m) auto

lemma bindE_Inl_iff: "bindE m f = Inl e \<longleftrightarrow> m = Inl e \<or> (\<exists>a. m = Inr a \<and> f a = Inl e)"
  by (cases m) auto

lemma guardE_iffs [simp]:
  "guardE b e = Inr u \<longleftrightarrow> b"
  "guardE b e = Inl e' \<longleftrightarrow> \<not> b \<and> e' = e"
  by (auto simp: guardE_def)

lemma guardE_simps [simp]:
  "guardE True e = Inr ()"
  "guardE False e = Inl e"
  by (simp_all add: guardE_def)

lemma is_ok_simps [simp]:
  "is_ok (Inr a)"
  "\<not> is_ok (Inl e)"
  by (simp_all add: is_ok_def)

lemma is_ok_iff: "is_ok r \<longleftrightarrow> (\<exists>a. r = Inr a)"
  by (cases r) auto

lemma is_ok_bindE: "is_ok (bindE m f) \<longleftrightarrow> (\<exists>a. m = Inr a \<and> is_ok (f a))"
  by (cases m) auto

text \<open>A \<open>for\<close> loop whose body only validates: it stops at the first exception.\<close>

fun forE :: "('a \<Rightarrow> 'e + unit) \<Rightarrow> 'a list \<Rightarrow> 'e + unit" where
  "forE f [] = Inr ()"
| "forE f (x # xs) = bindE (f x) (\<lambda>_. forE f xs)"

lemma forE_ok_iff: "forE f xs = Inr () \<longleftrightarrow> (\<forall>x \<in> set xs. f x = Inr ())"
  by (induction xs) (auto simp: bindE_Inr_iff)

section \<open>Lists\<close>

text \<open>The first element that satisfies a predicate, as \<open>next((x for x in xs if p(x)), None)\<close>.\<close>

lemma find_Some_in_set: "find P xs = Some x \<Longrightarrow> x \<in> set xs \<and> P x"
  by (induction xs) (auto split: if_splits)

lemma find_None_all: "find P xs = None \<longleftrightarrow> (\<forall>x \<in> set xs. \<not> P x)"
  by (induction xs) auto

lemma find_is_least:
  assumes "find P [0..<n] = Some k"
  shows "k < n \<and> P k \<and> (\<forall>j < k. \<not> P j)"
  using assms by (auto simp: find_Some_iff)

text \<open>Pigeonhole: a finite set of used indices smaller than the range leaves a free one.\<close>

lemma free_index_exists:
  assumes "length xs < n"
  shows "\<exists>k < n. k \<notin> set xs"
proof (rule ccontr)
  assume "\<not> ?thesis"
  then have "{0..<n} \<subseteq> set xs" by auto
  then have "card {0..<n} \<le> card (set xs)" by (rule card_mono [rotated]) simp
  also have "\<dots> \<le> length xs" by (rule card_length)
  finally show False using assms by simp
qed

lemma set_map_shift: "set (map (\<lambda>i. f (m + i)) [0..<n]) = f ` {m..<m + n :: nat}"
proof -
  have shift: "{m..<m + n} = (+) m ` {0..<n}"
    by (simp add: add.commute)
  show ?thesis unfolding shift image_image set_map set_upt ..
qed

lemma dropWhile_eq_self_iff: "dropWhile P xs = xs \<longleftrightarrow> xs = [] \<or> \<not> P (hd xs)"
  by (cases xs) (auto dest: arg_cong [where f = length] simp: dropWhile_eq_Cons_conv)

lemma set_takeWhile_subset: "set (takeWhile P xs) \<subseteq> set xs"
  by (auto dest: set_takeWhileD)

lemma set_dropWhile_subset: "set (dropWhile P xs) \<subseteq> set xs"
  by (metis set_dropWhileD subsetI)

lemma distinct_single: "distinct xs \<Longrightarrow> set xs = {a} \<Longrightarrow> xs = [a]"
  by (metis distinct.simps(2) empty_iff insert_iff list.exhaust list.set(1,2) singleton_insert_inj_eq)

lemma map_sum_InrE: "map_sum f g s = Inr y \<Longrightarrow> (\<And>x. s = Inr x \<Longrightarrow> y = g x \<Longrightarrow> P) \<Longrightarrow> P"
  by (cases s) auto

end
