(* ===== verification/Py_Strings.thy ===== *)
theory Py_Strings
  imports Prelude
begin

text \<open>
  The part of Python's \<open>str\<close> that the sources use. A \<open>string\<close> is a list of code points below 256;
  on that range the character classes are the ones of CPython: \<open>str.isspace\<close> and \<open>\s\<close> include
  the separators 0x1C-0x1F, 0x85 and 0xA0; \<open>str.isdigit\<close> includes the superscripts 0xB2, 0xB3 and
  0xB9, which \<open>int()\<close> and \<open>\d\<close> do not accept.
\<close>

section \<open>Character classes\<close>

text \<open>The long dash in its UTF-8 encoding.\<close>

definition em_dash :: string where
  "em_dash = [CHR 0xE2, CHR 0x80, CHR 0x94]"

definition sq :: "string \<Rightarrow> string" where
  "sq s = [CHR 0x27] @ s @ [CHR 0x27]"

definition newline :: char where
  "newline = CHR 0x0A"

definition lower_letters :: string where
  "lower_letters = ''abcdefghijklmnopqrstuvwxyz''"

definition upper_letters :: string where
  "upper_letters = ''ABCDEFGHIJKLMNOPQRSTUVWXYZ''"

definition digit_chars :: string where
  "digit_chars = ''0123456789''"

definition is_decimal :: "char \<Rightarrow> bool" where
  "is_decimal c = (c \<in> set digit_chars)"

definition is_digit_char :: "char \<Rightarrow> bool" where
  "is_digit_char c = (is_decimal c \<or> c \<in> {CHR 0xB2, CHR 0xB3, CHR 0xB9})"

definition is_space :: "char \<Rightarrow> bool" where
  "is_space c = (c \<in> set [CHR 0x09, CHR 0x0A, CHR 0x0B, CHR 0x0C, CHR 0x0D,
     CHR 0x1C, CHR 0x1D, CHR 0x1E, CHR 0x1F, CHR 0x20, CHR 0x85, CHR 0xA0])"

definition is_line_break :: "char \<Rightarrow> bool" where
  "is_line_break c = (c \<in> set [CHR 0x0A, CHR 0x0B, CHR 0x0C, CHR 0x0D,
     CHR 0x1C, CHR 0x1D, CHR 0x1E, CHR 0x85])"

lemmas char_class_defs [py_simps] =
  newline_def lower_letters_def upper_letters_def digit_chars_def is_decimal_def
  is_digit_char_def is_space_def is_line_break_def

section \<open>Whitespace stripping, splitting and joining\<close>

definition py_lstrip :: "string \<Rightarrow> string" where
  "py_lstrip s = dropWhile is_space s"

definition py_rstrip :: "string \<Rightarrow> string" where
  "py_rstrip s = rev (dropWhile is_space (rev s))"

definition py_strip :: "string \<Rightarrow> string" where
  "py_strip s = py_rstrip (py_lstrip s)"

text \<open>\<open>s.strip(chars)\<close> and \<open>s.rstrip(chars)\<close> with an explicit set of characters.\<close>

definition py_rstrip_chars :: "char list \<Rightarrow> string \<Rightarrow> string" where
  "py_rstrip_chars cs s = rev (dropWhile (\<lambda>c. c \<in> set cs) (rev s))"

definition py_lstrip_chars :: "char list \<Rightarrow> string \<Rightarrow> string" where
  "py_lstrip_chars cs s = dropWhile (\<lambda>c. c \<in> set cs) s"

definition py_strip_chars :: "char list \<Rightarrow> string \<Rightarrow> string" where
  "py_strip_chars cs s = py_rstrip_chars cs (py_lstrip_chars cs s)"

text \<open>\<open>s.split(c)\<close> for a one-character separator: always at least one part.\<close>

fun py_split :: "char \<Rightarrow> string \<Rightarrow> string list" where
  "py_split c [] = [[]]"
| "py_split c (x # xs) =
     (if x = c then [] # py_split c xs
      else case py_split c xs of [] \<Rightarrow> [[x]] | p # ps \<Rightarrow> (x # p) # ps)"

text \<open>\<open>s.splitlines()\<close>: a carriage return followed by a line feed is one break, and a final
  break opens no further line.\<close>

fun py_splitlines_aux :: "string \<Rightarrow> string \<Rightarrow> string list" where
  "py_splitlines_aux acc [] = (if acc = [] then [] else [rev acc])"
| "py_splitlines_aux acc [c] = (if is_line_break c then [rev acc] else [rev (c # acc)])"
| "py_splitlines_aux acc (c # d # cs) =
     (if c = CHR 0x0D \<and> d = CHR 0x0A then rev acc # py_splitlines_aux [] cs
      else if is_line_break c then rev acc # py_splitlines_aux [] (d # cs)
      else py_splitlines_aux (c # acc) (d # cs))"

definition py_splitlines :: "string \<Rightarrow> string list" where
  "py_splitlines s = py_splitlines_aux [] s"

fun py_join :: "string \<Rightarrow> string list \<Rightarrow> string" where
  "py_join sep [] = []"
| "py_join sep [x] = x"
| "py_join sep (x # y # ys) = x @ sep @ py_join sep (y # ys)"

section \<open>Searching and replacing\<close>

text \<open>\<open>s.find(sub)\<close>, with \<open>None\<close> for -1.\<close>

fun py_find :: "string \<Rightarrow> string \<Rightarrow> nat option" where
  "py_find sub [] = (if sub = [] then Some 0 else None)"
| "py_find sub (c # cs) =
     (if prefix sub (c # cs) then Some 0 else map_option Suc (py_find sub cs))"

text \<open>\<open>s.find(sub, start)\<close>.\<close>

definition py_find_from :: "string \<Rightarrow> nat \<Rightarrow> string \<Rightarrow> nat option" where
  "py_find_from sub start s =
     (if start \<le> length s then map_option (\<lambda>i. start + i) (py_find sub (drop start s)) else None)"

definition py_contains :: "string \<Rightarrow> string \<Rightarrow> bool" where
  "py_contains sub s = (py_find sub s \<noteq> None)"

text \<open>\<open>s.count(sub)\<close>: non-overlapping occurrences, for a non-empty \<open>sub\<close>.\<close>

function py_count :: "string \<Rightarrow> string \<Rightarrow> nat" where
  "py_count sub [] = 0"
| "py_count sub (c # cs) =
     (if sub \<noteq> [] \<and> prefix sub (c # cs)
      then Suc (py_count sub (drop (length sub - 1) cs)) else py_count sub cs)"
  by pat_completeness auto
termination
  by (relation "measure (\<lambda>(sub, s). length s)") auto

text \<open>\<open>s.replace(old, new)\<close>, for a non-empty \<open>old\<close>.\<close>

function py_replace :: "string \<Rightarrow> string \<Rightarrow> string \<Rightarrow> string" where
  "py_replace old new [] = []"
| "py_replace old new (c # cs) =
     (if old \<noteq> [] \<and> prefix old (c # cs)
      then new @ py_replace old new (drop (length old - 1) cs)
      else c # py_replace old new cs)"
  by pat_completeness auto
termination
  by (relation "measure (\<lambda>(old, new, s). length s)") auto

section \<open>Numbers\<close>

definition digit_of :: "nat \<Rightarrow> char" where
  "digit_of n = digit_chars ! n"

fun nat_str :: "nat \<Rightarrow> string" where
  "nat_str n = (if n < 10 then [digit_of n] else nat_str (n div 10) @ [digit_of (n mod 10)])"

declare nat_str.simps [simp del]

definition int_str :: "int \<Rightarrow> string" where
  "int_str i = (if i < 0 then CHR ''-'' # nat_str (nat (- i)) else nat_str (nat i))"

definition digit_value :: "char \<Rightarrow> nat" where
  "digit_value c = (of_char c :: nat) - 48"

definition digits_value :: "string \<Rightarrow> nat" where
  "digits_value s = foldl (\<lambda>a c. 10 * a + digit_value c) 0 s"

text \<open>\<open>int(s)\<close>: surrounding whitespace, an optional sign, decimal digits with single
  underscores between them; anything else raises \<open>ValueError\<close> (\<open>None\<close>).\<close>

fun strip_underscores :: "string \<Rightarrow> string option" where
  "strip_underscores [] = None"
| "strip_underscores [c] = (if is_decimal c then Some [c] else None)"
| "strip_underscores (c # d # r) =
     (if \<not> is_decimal c then None
      else if d = CHR ''_'' then map_option (\<lambda>ds. c # ds) (strip_underscores r)
      else map_option (\<lambda>ds. c # ds) (strip_underscores (d # r)))"

definition py_int :: "string \<Rightarrow> int option" where
  "py_int s = (case py_strip s of
       [] \<Rightarrow> None
     | c # r \<Rightarrow>
         if c = CHR ''-'' then map_option (\<lambda>ds. - int (digits_value ds)) (strip_underscores r)
         else if c = CHR ''+'' then map_option (\<lambda>ds. int (digits_value ds)) (strip_underscores r)
         else map_option (\<lambda>ds. int (digits_value ds)) (strip_underscores (c # r)))"

text \<open>\<open>s.isdigit()\<close>.\<close>

definition py_isdigit :: "string \<Rightarrow> bool" where
  "py_isdigit s = (s \<noteq> [] \<and> list_all is_digit_char s)"

text \<open>\<open>s.lower()\<close> on the modelled range: ASCII letters and the Latin-1 capitals.\<close>

definition lower_char :: "char \<Rightarrow> char" where
  "lower_char c = (let n = of_char c :: nat in
     if (65 \<le> n \<and> n \<le> 90) \<or> (192 \<le> n \<and> n \<le> 222 \<and> n \<noteq> 215) then char_of (n + 32) else c)"

definition py_lower :: "string \<Rightarrow> string" where
  "py_lower s = map lower_char s"

text \<open>\<open>os.path.join(a, b)\<close> on POSIX.\<close>

definition path_join :: "string \<Rightarrow> string \<Rightarrow> string" where
  "path_join a b =
     (if prefix ''/'' b then b
      else if a = [] \<or> last a = CHR ''/'' then a @ b else a @ ''/'' @ b)"

text \<open>\<open>s.split()\<close>: the maximal runs of characters that are no whitespace.\<close>

fun py_words_aux :: "string \<Rightarrow> string \<Rightarrow> string list" where
  "py_words_aux cur [] = (if cur = [] then [] else [rev cur])"
| "py_words_aux cur (c # s) =
     (if is_space c then (if cur = [] then py_words_aux [] s else rev cur # py_words_aux [] s)
      else py_words_aux (c # cur) s)"

definition py_words :: "string \<Rightarrow> string list" where
  "py_words s = py_words_aux [] s"

text \<open>\<open>s.partition(c)\<close>, without the separator.\<close>

definition py_partition :: "char \<Rightarrow> string \<Rightarrow> string \<times> string" where
  "py_partition c s = (takeWhile (\<lambda>x. x \<noteq> c) s, drop 1 (dropWhile (\<lambda>x. x \<noteq> c) s))"

text \<open>\<open>repr(s)\<close>, as written by \<open>!r\<close> and as the text of a \<open>KeyError\<close>.\<close>

definition hex_digit :: "nat \<Rightarrow> char" where
  "hex_digit n = ''0123456789abcdef'' ! n"

definition repr_char :: "char \<Rightarrow> char \<Rightarrow> string" where
  "repr_char q c = (let n = of_char c :: nat in
     if c = q \<or> c = CHR 0x5C then [CHR 0x5C, c]
     else if c = CHR 0x0A then [CHR 0x5C, CHR ''n'']
     else if c = CHR 0x0D then [CHR 0x5C, CHR ''r'']
     else if c = CHR 0x09 then [CHR 0x5C, CHR ''t'']
     else if n < 32 \<or> 127 \<le> n \<and> n \<le> 160 \<or> n = 173
       then [CHR 0x5C, CHR ''x'', hex_digit (n div 16), hex_digit (n mod 16)]
     else [c])"

definition py_repr :: "string \<Rightarrow> string" where
  "py_repr s =
     (let q = (if CHR 0x27 \<in> set s \<and> CHR 0x22 \<notin> set s then CHR 0x22 else CHR 0x27)
      in q # concat (map (repr_char q) s) @ [q])"

definition py_repr_list :: "string list \<Rightarrow> string" where
  "py_repr_list xs = ''['' @ py_join '', '' (map py_repr xs) @ '']''"


text \<open>What a regular expression ending in \<open>$\<close> (without \<open>re.MULTILINE\<close>) must match: \<open>$\<close> also
  matches just before a newline that ends the string.\<close>

definition re_dollar_body :: "string \<Rightarrow> string" where
  "re_dollar_body s = (if s \<noteq> [] \<and> last s = newline then butlast s else s)"

section \<open>Facts the components share\<close>

lemma re_dollar_body_cases: "s = re_dollar_body s \<or> s = re_dollar_body s @ [newline]"
  by (auto simp: re_dollar_body_def) (metis append_butlast_last_id)

lemma is_space_newline [simp]: "is_space newline"
  by (simp add: char_class_defs)

lemma newline_not_decimal [simp]: "\<not> is_decimal newline"
  by (simp add: char_class_defs)

lemma decimal_not_space: "is_decimal c \<Longrightarrow> \<not> is_space c"
  by (auto simp: char_class_defs)

lemma py_find_prefix: "prefix sub s \<Longrightarrow> py_find sub s = Some 0"
  by (cases s) auto

lemma py_find_Some:
  "py_find sub s = Some i \<Longrightarrow> i + length sub \<le> length s \<and> take (length sub) (drop i s) = sub"
proof (induction s arbitrary: i)
  case Nil
  then show ?case by (auto split: if_splits)
next
  case (Cons c cs)
  show ?case
  proof (cases "prefix sub (c # cs)")
    case True
    with Cons.prems have "i = 0" by simp
    with True show ?thesis
      using prefix_length_le [OF True] by (auto simp: prefix_def)
  next
    case False
    with Cons.prems show ?thesis by (auto dest: Cons.IH)
  qed
qed

lemma py_find_None_iff: "py_find sub s = None \<longleftrightarrow> \<not> sublist sub s"
proof (induction s)
  case Nil
  then show ?case by simp
next
  case (Cons c cs)
  then show ?case by (simp add: sublist_Cons_right)
qed

lemma py_contains_iff: "py_contains sub s \<longleftrightarrow> sublist sub s"
  by (simp add: py_contains_def py_find_None_iff)

lemma py_count_zero: "sub \<noteq> [] \<Longrightarrow> py_count sub s = 0 \<longleftrightarrow> \<not> sublist sub s"
  by (induction sub s rule: py_count.induct) (auto simp: sublist_Cons_right)

lemma py_replace_no_occurrence: "\<not> sublist old s \<Longrightarrow> py_replace old new s = s"
  by (induction old new s rule: py_replace.induct) (auto simp: sublist_Cons_right)

lemma py_split_not_Nil [simp]: "py_split c s \<noteq> []"
  by (induction s) (auto split: list.splits)

lemma py_split_no_sep: "\<forall>p \<in> set (py_split c s). c \<notin> set p"
  by (induction s) (auto split: list.splits)

lemma py_join_split: "py_join [c] (py_split c s) = s"
proof (induction s)
  case Nil
  then show ?case by simp
next
  case (Cons x xs)
  then obtain p ps where ps: "py_split c xs = p # ps"
    by (cases "py_split c xs") auto
  with Cons show ?case by (cases ps) auto
qed

lemma py_split_free: "c \<notin> set p \<Longrightarrow> py_split c p = [p]"
  by (induction p) auto

lemma py_split_append: "c \<notin> set p \<Longrightarrow> py_split c (p @ c # r) = p # py_split c r"
  by (induction p) auto

lemma py_split_append_sep: "py_split c (p @ c # r) = py_split c p @ py_split c r"
  by (induction p) (auto split: list.splits)

lemma py_split_singleton_iff: "py_split c s = [s] \<longleftrightarrow> c \<notin> set s"
  using py_split_no_sep [of c s] py_split_free [of c s] by (metis list.set_intros(1))

lemma py_split_join:
  "xs \<noteq> [] \<Longrightarrow> (\<forall>x \<in> set xs. c \<notin> set x) \<Longrightarrow> py_split c (py_join [c] xs) = xs"
proof (induction xs rule: list_nonempty_induct)
  case (single x)
  then show ?case by (simp add: py_split_free)
next
  case (cons x xs)
  then show ?case by (cases xs) (auto simp: py_split_append)
qed

lemma py_rstrip_append_nonspace: "\<not> is_space c \<Longrightarrow> py_rstrip (s @ [c]) = s @ [c]"
  by (simp add: py_rstrip_def)

lemma py_rstrip_append_space: "is_space c \<Longrightarrow> py_rstrip (s @ [c]) = py_rstrip s"
  by (simp add: py_rstrip_def)

lemma py_strip_nonspace_ends:
  assumes "s \<noteq> []" and "\<not> is_space (hd s)" and "\<not> is_space (last s)"
  shows "py_strip s = s"
proof -
  have "py_lstrip s = s"
    using assms(1,2) by (cases s) (auto simp: py_lstrip_def)
  moreover have "py_rstrip s = s"
    using assms(1,3) by (metis append_butlast_last_id py_rstrip_append_nonspace)
  ultimately show ?thesis by (simp add: py_strip_def)
qed

subsection \<open>Decimal text round trips\<close>

lemma digit_of_decimal: "n < 10 \<Longrightarrow> is_decimal (digit_of n)"
  unfolding is_decimal_def digit_of_def by (rule nth_mem) (simp add: digit_chars_def)

lemma digit_value_digit_of: "n < 10 \<Longrightarrow> digit_value (digit_of n) = n"
proof -
  assume "n < 10"
  then have "n \<in> {0, 1, 2, 3, 4, 5, 6, 7, 8, 9}" by auto
  then show ?thesis
    by (auto simp: digit_value_def digit_of_def digit_chars_def)
qed

lemma nat_str_nonempty [simp]: "nat_str n \<noteq> []"
  by (subst nat_str.simps) simp

lemma nat_str_decimal: "list_all is_decimal (nat_str n)"
proof (induction n rule: nat_str.induct)
  case (1 n)
  then show ?case by (subst nat_str.simps) (auto simp: digit_of_decimal)
qed

lemma nat_str_avoids: "\<not> is_decimal c \<Longrightarrow> c \<notin> set (nat_str n)"
  using nat_str_decimal [of n] by (auto simp: list_all_iff)

lemma digits_value_snoc: "digits_value (s @ [c]) = 10 * digits_value s + digit_value c"
  by (simp add: digits_value_def)

lemma digits_value_nat_str [simp]: "digits_value (nat_str n) = n"
proof (induction n rule: nat_str.induct)
  case (1 n)
  show ?case
  proof (cases "n < 10")
    case True
    then show ?thesis
      by (simp add: nat_str.simps [of n] digits_value_def digit_value_digit_of)
  next
    case False
    with 1 show ?thesis
      by (simp add: nat_str.simps [of n] digits_value_snoc digit_value_digit_of)
  qed
qed

lemma nat_str_inject [simp]: "nat_str m = nat_str n \<longleftrightarrow> m = n"
  by (metis digits_value_nat_str)

lemma strip_underscores_decimal:
  "s \<noteq> [] \<Longrightarrow> list_all is_decimal s \<Longrightarrow> strip_underscores s = Some s"
  by (induction s rule: strip_underscores.induct) (auto simp: is_decimal_def digit_chars_def)

lemma decimal_not_sign: "is_decimal c \<Longrightarrow> c \<noteq> CHR ''-'' \<and> c \<noteq> CHR ''+''"
  by (auto simp: is_decimal_def digit_chars_def)

lemma py_int_nat_str [simp]: "py_int (nat_str n) = Some (int n)"
proof -
  have all: "list_all is_decimal (nat_str n)" by (rule nat_str_decimal)
  obtain c r where cr: "nat_str n = c # r" by (cases "nat_str n") auto
  have "py_strip (nat_str n) = nat_str n"
    using all cr by (intro py_strip_nonspace_ends)
      (auto simp: list_all_iff decimal_not_space dest: decimal_not_space)
  moreover have "strip_underscores (c # r) = Some (c # r)"
    using all cr by (simp add: strip_underscores_decimal)
  moreover have "is_decimal c" using all cr by simp
  ultimately have "py_int (nat_str n) = Some (int (digits_value (c # r)))"
    using decimal_not_sign [of c] by (simp add: py_int_def cr)
  then show ?thesis by (simp flip: cr)
qed

lemma py_isdigit_nat_str: "py_isdigit (nat_str n)"
  using nat_str_decimal [of n]
  by (auto simp: py_isdigit_def list_all_iff is_digit_char_def)

end
