(* ===== verification/Py_Dict.thy ===== *)
theory Py_Dict
  imports Py_Strings "HOL-Library.AList"
begin

text \<open>
  Python dictionaries as association lists in insertion order (a new key goes to the end, an
  existing key keeps its place), the JSON values of \<open>src/src/core/json_types.py\<close>, and the
  interface \<open>keyed_store\<close> that the ledger, the registry and the mode marker rely on.
\<close>

section \<open>The interface of a keyed store\<close>

locale keyed_store =
  fixes lookup :: "'s \<Rightarrow> 'k \<Rightarrow> 'v option"
    and put :: "'k \<Rightarrow> 'v \<Rightarrow> 's \<Rightarrow> 's"
    and pop :: "'k \<Rightarrow> 's \<Rightarrow> 's"
  assumes lookup_put: "lookup (put k v s) = (lookup s)(k \<mapsto> v)"
    and lookup_pop: "lookup (pop k s) = (lookup s)(k := None)"
begin

lemma lookup_put_same [simp]: "lookup (put k v s) k = Some v"
  by (simp add: lookup_put)

lemma lookup_put_other: "k' \<noteq> k \<Longrightarrow> lookup (put k v s) k' = lookup s k'"
  by (simp add: lookup_put)

lemma lookup_pop_same [simp]: "lookup (pop k s) k = None"
  by (simp add: lookup_pop)

lemma lookup_pop_other: "k' \<noteq> k \<Longrightarrow> lookup (pop k s) k' = lookup s k'"
  by (simp add: lookup_pop)

lemma pop_undoes_put: "lookup s k = None \<Longrightarrow> lookup (pop k (put k v s)) = lookup s"
  by (auto simp: lookup_put lookup_pop)

lemma dom_put: "dom (lookup (put k v s)) = insert k (dom (lookup s))"
  by (auto simp: lookup_put)

lemma dom_pop: "dom (lookup (pop k s)) = dom (lookup s) - {k}"
  by (auto simp: lookup_pop)

text \<open>A store whose values are pairwise different stays so when a fresh value is put.\<close>

lemma inj_put_fresh:
  assumes "inj_on (lookup s) (dom (lookup s))" and "v \<notin> ran (lookup s)"
  shows "inj_on (lookup (put k v s)) (dom (lookup (put k v s)))"
  using assms unfolding lookup_put inj_on_def ran_def by (auto split: if_splits)

lemma inj_pop:
  assumes "inj_on (lookup s) (dom (lookup s))"
  shows "inj_on (lookup (pop k s)) (dom (lookup (pop k s)))"
  using assms unfolding lookup_pop inj_on_def by (auto split: if_splits)

end

section \<open>Dictionaries\<close>

type_synonym ('k, 'v) dict = "('k \<times> 'v) list"

definition dict_set :: "'k \<Rightarrow> 'v \<Rightarrow> ('k, 'v) dict \<Rightarrow> ('k, 'v) dict" where
  "dict_set k v d = AList.update k v d"

definition dict_pop :: "'k \<Rightarrow> ('k, 'v) dict \<Rightarrow> ('k, 'v) dict" where
  "dict_pop k d = filter (\<lambda>p. fst p \<noteq> k) d"

definition dict_keys :: "('k, 'v) dict \<Rightarrow> 'k list" where
  "dict_keys d = map fst d"

definition dict_values :: "('k, 'v) dict \<Rightarrow> 'v list" where
  "dict_values d = map snd d"

text \<open>A Python dictionary has one entry per key.\<close>

definition dict_wf :: "('k, 'v) dict \<Rightarrow> bool" where
  "dict_wf d = distinct (dict_keys d)"

lemma map_of_dict_set: "map_of (dict_set k v d) = (map_of d)(k \<mapsto> v)"
  by (simp add: dict_set_def update_conv')

lemma map_of_dict_pop: "map_of (dict_pop k d) = (map_of d)(k := None)"
  unfolding dict_pop_def
proof (induction d)
  case Nil
  then show ?case by (simp add: fun_eq_iff)
next
  case (Cons p d)
  then show ?case by (cases p) (auto simp: fun_eq_iff)
qed

interpretation dict: keyed_store map_of dict_set dict_pop
  by unfold_locales (simp_all add: map_of_dict_set map_of_dict_pop)

lemma dict_wf_set [simp]: "dict_wf d \<Longrightarrow> dict_wf (dict_set k v d)"
  by (simp add: dict_wf_def dict_keys_def dict_set_def distinct_update)

lemma dict_wf_pop [simp]: "dict_wf d \<Longrightarrow> dict_wf (dict_pop k d)"
  by (auto simp: dict_wf_def dict_keys_def dict_pop_def distinct_map_filter)

lemma dict_wf_Nil [simp]: "dict_wf []"
  by (simp add: dict_wf_def dict_keys_def)

lemma dict_values_ran: "dict_wf d \<Longrightarrow> set (dict_values d) = ran (map_of d)"
  by (simp add: dict_wf_def dict_keys_def dict_values_def ran_distinct)

lemma map_of_None_keys: "map_of d k = None \<longleftrightarrow> k \<notin> set (dict_keys d)"
  by (simp add: dict_keys_def map_of_eq_None_iff)

lemma length_dict_values [simp]: "length (dict_values d) = length d"
  by (simp add: dict_values_def)

lemma set_dict_set: "set (dict_set k v d) \<subseteq> insert (k, v) (set d)"
  unfolding dict_set_def by (induction d) auto

lemma keys_dict_set [simp]: "set (dict_keys (dict_set k v d)) = insert k (set (dict_keys d))"
  by (simp add: dict_keys_def dict_set_def dom_update)


lemma dict_keys_Nil [simp]: "dict_keys [] = []"
  by (simp add: dict_keys_def)


section \<open>JSON values\<close>

text \<open>A parsed JSON document. A float is kept as its text: no operation of the modelled code
  computes with one.\<close>

datatype json =
    JNull
  | JBool bool
  | JInt int
  | JFloat string
  | JStr string
  | JList "json list"
  | JObj "(string \<times> json) list"

text \<open>A file read through \<open>json.load\<close>: absent, not parseable (\<open>JSONDecodeError\<close>), or a document.\<close>

datatype 'a json_file = Absent | Malformed | Doc 'a

end
