(* ===== verification/Lowest_Free.thy ===== *)
theory Lowest_Free
  imports Prelude
begin

text \<open>
  The contract shared by the three allocators of the program that take the lowest free candidate:
  the IPAM slot scan, the subid block picker and the bridge-gid recommendation. A provider gives
  the candidate order, the freeness test and the pick; the clients use the consequences.
\<close>

locale lowest_free =
  fixes free :: "'s \<Rightarrow> nat \<Rightarrow> bool"
    and bound :: "'s \<Rightarrow> nat \<Rightarrow> bool"
    and pick :: "'s \<Rightarrow> nat option"
  assumes pick_Some: "pick s = Some k \<Longrightarrow> bound s k \<and> free s k \<and> (\<forall>j < k. bound s j \<longrightarrow> \<not> free s j)"
    and pick_None: "pick s = None \<Longrightarrow> bound s k \<Longrightarrow> \<not> free s k"
begin

lemma pick_free: "pick s = Some k \<Longrightarrow> free s k"
  using pick_Some by blast

lemma pick_bound: "pick s = Some k \<Longrightarrow> bound s k"
  using pick_Some by blast

lemma pick_least: "pick s = Some k \<Longrightarrow> bound s j \<Longrightarrow> free s j \<Longrightarrow> k \<le> j"
  using pick_Some not_less by blast

lemma pick_iff:
  "pick s = Some k \<longleftrightarrow> bound s k \<and> free s k \<and> (\<forall>j < k. bound s j \<longrightarrow> \<not> free s j)"
proof
  assume r: "bound s k \<and> free s k \<and> (\<forall>j < k. bound s j \<longrightarrow> \<not> free s j)"
  then obtain k' where k': "pick s = Some k'" using pick_None by (cases "pick s") auto
  with r have "k = k'" using pick_Some [OF k'] by (metis linorder_neqE_nat)
  with k' show "pick s = Some k" by simp
qed (rule pick_Some)

lemma exhausted_iff: "pick s = None \<longleftrightarrow> (\<forall>k. bound s k \<longrightarrow> \<not> free s k)"
  using pick_None pick_Some by (metis not_None_eq)

text \<open>Occupying other candidates above the pick does not move it.\<close>

lemma pick_stable:
  assumes "pick s = Some k" and "free s' k" and "bound s' = bound s"
    and "\<And>j. j < k \<Longrightarrow> free s' j \<Longrightarrow> free s j"
  shows "pick s' = Some k"
  using assms pick_Some [OF assms(1)] by (auto simp: pick_iff)

end

end
