(* ===== verification/Ipam.thy ===== *)
theory Ipam
  imports Py_Dict Lowest_Free
begin

text \<open>
  The IPAM allocator of \<open>src/src/core/ipam.py\<close>: the ledger of instance slots, the derivation of
  subnets and static addresses from a slot, and the ledger under concurrent orchestrator processes.
  A ledger that parses is an object from instance ids to integers, which is what \<open>_save\<close> writes.
\<close>

section \<open>The ledger\<close>

definition MAX_SLOTS :: int where
  "MAX_SLOTS = 7987"

datatype ipam_error = IPAMExhaustedError | IPAMLockException | IpamValueError int

type_synonym ledger = "(string, int) dict"

record ipam_state =
  ipam_file :: "ledger json_file"
  ipam_lock :: "nat option"

definition ipam_load :: "ledger json_file \<Rightarrow> ledger" where
  "ipam_load f = (case f of Absent \<Rightarrow> [] | Malformed \<Rightarrow> [] | Doc d \<Rightarrow> d)"

definition ipam_save :: "ledger \<Rightarrow> ipam_state \<Rightarrow> ipam_state" where
  "ipam_save d s = s\<lparr>ipam_file := Doc d\<rparr>"

text \<open>\<open>_acquire_lock\<close>: a non-blocking exclusive lock, refused while any process holds it.\<close>

definition ipam_acquire_lock :: "nat \<Rightarrow> ipam_state \<Rightarrow> ipam_error + ipam_state" where
  "ipam_acquire_lock pid s =
     (case ipam_lock s of None \<Rightarrow> Inr (s\<lparr>ipam_lock := Some pid\<rparr>) | Some _ \<Rightarrow> Inl IPAMLockException)"

definition ipam_unlock :: "ipam_state \<Rightarrow> ipam_state" where
  "ipam_unlock s = s\<lparr>ipam_lock := None\<rparr>"

text \<open>The scan \<open>for candidate in range(MAX_SLOTS)\<close>.\<close>

definition lowest_slot :: "ledger \<Rightarrow> nat option" where
  "lowest_slot d = find (\<lambda>k. int k \<notin> set (dict_values d)) [0..<nat MAX_SLOTS]"

text \<open>The part of \<open>allocate\<close> that runs under the lock: the result, and the new file contents when
  it saves.\<close>

definition allocate_locked :: "string \<Rightarrow> ledger \<Rightarrow> (ipam_error + int) \<times> ledger option" where
  "allocate_locked inst d =
     (case map_of d inst of
        Some i \<Rightarrow> (Inr i, None)
      | None \<Rightarrow>
          (case lowest_slot d of
             Some k \<Rightarrow> (Inr (int k), Some (dict_set inst (int k) d))
           | None \<Rightarrow> (Inl IPAMExhaustedError, None)))"

definition save_opt :: "ledger option \<Rightarrow> ipam_state \<Rightarrow> ipam_state" where
  "save_opt d s = (case d of None \<Rightarrow> s | Some d' \<Rightarrow> ipam_save d' s)"

definition allocate :: "nat \<Rightarrow> string \<Rightarrow> ipam_state \<Rightarrow> (ipam_error + int) \<times> ipam_state" where
  "allocate pid inst s =
     (case ipam_acquire_lock pid s of
        Inl e \<Rightarrow> (Inl e, s)
      | Inr s1 \<Rightarrow>
          (let (r, d) = allocate_locked inst (ipam_load (ipam_file s1))
           in (r, ipam_unlock (save_opt d s1))))"

definition release :: "nat \<Rightarrow> string \<Rightarrow> ipam_state \<Rightarrow> (ipam_error + unit) \<times> ipam_state" where
  "release pid inst s =
     (case ipam_acquire_lock pid s of
        Inl e \<Rightarrow> (Inl e, s)
      | Inr s1 \<Rightarrow> (Inr (), ipam_unlock (ipam_save (dict_pop inst (ipam_load (ipam_file s1))) s1)))"

definition peek_next_slot :: "string \<Rightarrow> ipam_state \<Rightarrow> ipam_error + int \<times> bool" where
  "peek_next_slot inst s =
     (let d = ipam_load (ipam_file s) in
      case map_of d inst of
        Some i \<Rightarrow> Inr (i, True)
      | None \<Rightarrow>
          (case lowest_slot d of
             Some k \<Rightarrow> Inr (int k, False)
           | None \<Rightarrow> Inl IPAMExhaustedError))"

section \<open>Subnets and static addresses\<close>

definition subnet_at :: "int \<Rightarrow> string" where
  "subnet_at n = ''10.'' @ int_str (100 + n div 256) @ ''.'' @ int_str (n mod 256) @ ''.0/24''"

definition derive_subnets :: "int \<Rightarrow> ipam_error + string list" where
  "derive_subnets base_index =
     (if MAX_SLOTS \<le> base_index then Inl (IpamValueError base_index)
      else (let g = base_index * 5 in Inr (map (\<lambda>i. subnet_at (g + int i)) [0..<5])))"

text \<open>\<open>s.rsplit(sep, 1)[0]\<close>: what precedes the last occurrence of \<open>sep\<close>.\<close>

definition rsplit_head :: "string \<Rightarrow> string \<Rightarrow> string" where
  "rsplit_head sep s =
     (case py_find (rev sep) (rev s) of
        None \<Rightarrow> s
      | Some i \<Rightarrow> take (length s - i - length sep) s)"

definition subnet_base :: "string \<Rightarrow> string" where
  "subnet_base s = rsplit_head ''.0/24'' s"

definition derive_static_ips :: "int \<Rightarrow> ipam_error + (string, string) dict" where
  "derive_static_ips base_index =
     bindE (derive_subnets base_index) (\<lambda>subnets.
       let isolated_base = subnet_base (subnets ! 0);
           core_proxy_base = subnet_base (subnets ! 1);
           dns_base = subnet_base (subnets ! 2);
           egress_base = subnet_base (subnets ! 3);
           ipc_base = subnet_base (subnets ! 4)
       in Inr
         [(''agent_isolated_ip'', isolated_base @ ''.3''),
          (''agent_proxy_ip'', core_proxy_base @ ''.3''),
          (''core_ipc_ip'', ipc_base @ ''.3''),
          (''proxy_core_ip'', core_proxy_base @ ''.254''),
          (''dnsdist_isolated_ip'', isolated_base @ ''.56''),
          (''dnsdist_dns_ip'', dns_base @ ''.56''),
          (''coredns_dns_ip'', dns_base @ ''.53''),
          (''coredns_egress_ip'', egress_base @ ''.53''),
          (''admin_ipc_ip'', ipc_base @ ''.2''),
          (''db_postgres_ip'', isolated_base @ ''.54''),
          (''mcp_firecrawl_proxy_ip'', core_proxy_base @ ''.55''),
          (''firecrawl_dns_ip'', dns_base @ ''.55''),
          (''firecrawl_isolated_ip'', isolated_base @ ''.55'')])"

section \<open>The ledger under concurrent processes\<close>

text \<open>
  Each process runs \<open>allocate\<close> or \<open>release\<close> in the steps of the code: take the lock, load the
  ledger, then save (when there is something to save) and unlock. A process may die while it holds
  the lock: the kernel drops the lock, and if it died in \<open>_save\<close>, after \<open>open(path, "w")\<close>
  truncated the file, the ledger no longer parses.
\<close>

datatype ipam_op = OpAllocate string | OpRelease string

datatype ipam_pc = Ready | HasLock ipam_op | HasData ipam_op ledger

record ipam_sys =
  sys_ipam :: ipam_state
  sys_pc :: "nat \<Rightarrow> ipam_pc"

definition ipam_commit :: "ipam_op \<Rightarrow> ledger \<Rightarrow> ledger option" where
  "ipam_commit op d = (case op of
       OpAllocate i \<Rightarrow> snd (allocate_locked i d)
     | OpRelease i \<Rightarrow> Some (dict_pop i d))"

inductive ipam_step :: "ipam_sys \<Rightarrow> ipam_sys \<Rightarrow> bool" where
  acquire: "sys_pc s p = Ready \<Longrightarrow> ipam_acquire_lock p (sys_ipam s) = Inr i \<Longrightarrow>
     ipam_step s (s\<lparr>sys_ipam := i, sys_pc := (sys_pc s)(p := HasLock op)\<rparr>)"
| load: "sys_pc s p = HasLock op \<Longrightarrow>
     ipam_step s (s\<lparr>sys_pc := (sys_pc s)(p := HasData op (ipam_load (ipam_file (sys_ipam s))))\<rparr>)"
| commit: "sys_pc s p = HasData op d \<Longrightarrow>
     ipam_step s (s\<lparr>sys_ipam := ipam_unlock (save_opt (ipam_commit op d) (sys_ipam s)),
                   sys_pc := (sys_pc s)(p := Ready)\<rparr>)"
| crash: "sys_pc s p \<noteq> Ready \<Longrightarrow>
     ipam_step s (s\<lparr>sys_ipam := ipam_unlock (sys_ipam s), sys_pc := (sys_pc s)(p := Ready)\<rparr>)"
| crash_saving: "sys_pc s p = HasData op d \<Longrightarrow>
     ipam_step s (s\<lparr>sys_ipam := ipam_unlock ((sys_ipam s)\<lparr>ipam_file := Malformed\<rparr>),
                   sys_pc := (sys_pc s)(p := Ready)\<rparr>)"

inductive ipam_reachable :: "ipam_sys \<Rightarrow> bool" where
  start: "ipam_file (sys_ipam s) = Absent \<Longrightarrow> ipam_lock (sys_ipam s) = None \<Longrightarrow>
     (\<And>p. sys_pc s p = Ready) \<Longrightarrow> ipam_reachable s"
| step: "ipam_reachable s \<Longrightarrow> ipam_step s t \<Longrightarrow> ipam_reachable t"

inductive_cases ipam_stepE: "ipam_step s t"

section \<open>Lemmas: slots\<close>

text \<open>A ledger the code can have written: one entry per instance, slots in range, no slot twice.\<close>

definition ledger_ok :: "ledger \<Rightarrow> bool" where
  "ledger_ok d = (dict_wf d \<and> distinct (dict_values d) \<and> (\<forall>v \<in> set (dict_values d). 0 \<le> v \<and> v < MAX_SLOTS))"

lemma lowest_slot_Some:
  "lowest_slot d = Some k \<Longrightarrow>
     k < nat MAX_SLOTS \<and> int k \<notin> set (dict_values d) \<and> (\<forall>j < k. int j \<in> set (dict_values d))"
  unfolding lowest_slot_def by (auto dest!: find_is_least)

lemma lowest_slot_None:
  "lowest_slot d = None \<Longrightarrow> k < nat MAX_SLOTS \<Longrightarrow> int k \<in> set (dict_values d)"
  unfolding lowest_slot_def by (auto simp: find_None_all)

interpretation slot: lowest_free
  "\<lambda>d k. int k \<notin> set (dict_values d)" "\<lambda>d k. k < nat MAX_SLOTS" lowest_slot
  by unfold_locales (auto dest: lowest_slot_Some lowest_slot_None)

lemma dict_values_set_new:
  "map_of d k = None \<Longrightarrow> dict_values (dict_set k v d) = dict_values d @ [v]"
  unfolding dict_set_def dict_values_def
  by (induction d) (auto split: if_splits)

lemma set_dict_values_pop: "set (dict_values (dict_pop k d)) \<subseteq> set (dict_values d)"
  by (auto simp: dict_values_def dict_pop_def)

lemma distinct_values_pop: "distinct (dict_values d) \<Longrightarrow> distinct (dict_values (dict_pop k d))"
  by (simp add: dict_values_def dict_pop_def distinct_map_filter)

lemma ledger_ok_Nil [simp]: "ledger_ok []"
  by (simp add: ledger_ok_def dict_values_def)

lemma ledger_ok_pop [simp]: "ledger_ok d \<Longrightarrow> ledger_ok (dict_pop k d)"
  using set_dict_values_pop [of k d] by (auto simp: ledger_ok_def distinct_values_pop)

lemma ledger_ok_allocate:
  assumes "ledger_ok d" and "allocate_locked i d = (r, Some d')"
  shows "ledger_ok d'"
proof -
  from assms(2) obtain k where k: "map_of d i = None" "lowest_slot d = Some k"
      "d' = dict_set i (int k) d"
    by (auto simp: allocate_locked_def split: option.splits)
  with assms(1) lowest_slot_Some [OF k(2)] show ?thesis
    by (auto simp: ledger_ok_def dict_values_set_new MAX_SLOTS_def)
qed

lemma ledger_ok_commit:
  assumes "ledger_ok d" and "ipam_commit op d = Some d'"
  shows "ledger_ok d'"
proof (cases op)
  case (OpAllocate i)
  with assms(2) have "allocate_locked i d = (fst (allocate_locked i d), Some d')"
    by (simp add: ipam_commit_def prod_eq_iff)
  with assms(1) show ?thesis by (rule ledger_ok_allocate)
next
  case (OpRelease i)
  with assms show ?thesis by (auto simp: ipam_commit_def)
qed

lemma ledger_ok_distinct_slots:
  assumes "ledger_ok d" and "map_of d i = Some a" and "map_of d j = Some b" and "i \<noteq> j"
  shows "a \<noteq> b"
proof
  assume "a = b"
  with assms(2,3) have "(i, a) \<in> set d" "(j, a) \<in> set d"
    by (auto dest: map_of_SomeD)
  moreover have "inj_on snd (set d)"
    using assms(1) by (simp add: ledger_ok_def dict_values_def distinct_map)
  ultimately have "(i, a) = (j, a)"
    using inj_onD [of snd "set d" "(i, a)" "(j, a)"] by simp
  with assms(4) show False by simp
qed

lemma ledger_ok_range: "ledger_ok d \<Longrightarrow> map_of d i = Some a \<Longrightarrow> 0 \<le> a \<and> a < MAX_SLOTS"
  by (force simp: ledger_ok_def dict_values_def dest: map_of_SomeD)

text \<open>The invariant of the concurrent system: a process is past its acquisition exactly when it
  owns the lock, its copy of the ledger is the file's, and the file is a good ledger.\<close>

definition ipam_inv :: "ipam_sys \<Rightarrow> bool" where
  "ipam_inv s =
     ((\<forall>p. sys_pc s p \<noteq> Ready \<longleftrightarrow> ipam_lock (sys_ipam s) = Some p) \<and>
      (\<forall>p op d. sys_pc s p = HasData op d \<longrightarrow> d = ipam_load (ipam_file (sys_ipam s))) \<and>
      ledger_ok (ipam_load (ipam_file (sys_ipam s))))"

lemma ipam_inv_acquire:
  assumes "ipam_inv s" and "ipam_acquire_lock p (sys_ipam s) = Inr i"
  shows "ipam_inv (s\<lparr>sys_ipam := i, sys_pc := (sys_pc s)(p := HasLock op)\<rparr>)"
  using assms by (auto simp: ipam_inv_def ipam_acquire_lock_def split: option.splits)

lemma ipam_inv_load:
  assumes "ipam_inv s" and "sys_pc s p = HasLock op"
  shows "ipam_inv (s\<lparr>sys_pc := (sys_pc s)(p := HasData op (ipam_load (ipam_file (sys_ipam s))))\<rparr>)"
proof -
  from assms have "ipam_lock (sys_ipam s) = Some p"
    unfolding ipam_inv_def by (metis ipam_pc.distinct(1))
  with assms show ?thesis by (auto simp: ipam_inv_def)
qed

lemma ipam_inv_leave:
  assumes "ipam_inv s" and "sys_pc s p \<noteq> Ready" and "ipam_lock i = None"
    and "ledger_ok (ipam_load (ipam_file i))"
  shows "ipam_inv (s\<lparr>sys_ipam := i, sys_pc := (sys_pc s)(p := Ready)\<rparr>)"
proof -
  have own: "ipam_lock (sys_ipam s) = Some p"
    using assms(1,2) by (simp add: ipam_inv_def)
  have others: "sys_pc s q = Ready" if "q \<noteq> p" for q
    using assms(1) own that by (auto simp: ipam_inv_def)
  show ?thesis
    using assms(3,4) others by (auto simp: ipam_inv_def split: if_splits)
qed

lemma ipam_save_opt_simps [simp]:
  "ipam_lock (ipam_unlock s) = None"
  "ipam_file (ipam_unlock s) = ipam_file s"
  "ipam_load (ipam_file (save_opt d s)) = (case d of None \<Rightarrow> ipam_load (ipam_file s) | Some d' \<Rightarrow> d')"
  by (auto simp: ipam_unlock_def save_opt_def ipam_save_def ipam_load_def split: option.splits)

lemma release_effect:
  assumes "release pid inst s = (r, s')"
  shows "(case r of Inl _ \<Rightarrow> s' = s | Inr _ \<Rightarrow> map_of (ipam_load (ipam_file s')) inst = None)"
    and "other \<noteq> inst \<Longrightarrow> map_of (ipam_load (ipam_file s')) other = map_of (ipam_load (ipam_file s)) other"
  using assms
  by (auto simp: release_def ipam_acquire_lock_def ipam_unlock_def ipam_save_def ipam_load_def map_of_dict_pop
      split: option.splits)

lemma ipam_step_inv: "ipam_step s t \<Longrightarrow> ipam_inv s \<Longrightarrow> ipam_inv t"
proof (induction rule: ipam_step.induct)
  case (acquire s p i op)
  then show ?case by (simp add: ipam_inv_acquire)
next
  case (load s p op)
  then show ?case by (simp add: ipam_inv_load)
next
  case (commit s p op d)
  then have "ledger_ok d" by (auto simp: ipam_inv_def)
  with commit show ?case
    by (intro ipam_inv_leave)
      (auto simp: ipam_inv_def intro: ledger_ok_commit split: option.splits)
next
  case (crash s p)
  then show ?case by (intro ipam_inv_leave) (auto simp: ipam_inv_def)
next
  case (crash_saving s p op d)
  then show ?case by (intro ipam_inv_leave) (auto simp: ipam_load_def)
qed

lemma ipam_reachable_inv: "ipam_reachable s \<Longrightarrow> ipam_inv s"
proof (induction rule: ipam_reachable.induct)
  case (start s)
  then show ?case by (simp add: ipam_inv_def ipam_load_def)
next
  case (step s t)
  then show ?case by (blast intro: ipam_step_inv)
qed

section \<open>Lemmas: subnets\<close>

lemma nat_str_no_dot: "CHR ''.'' \<notin> set (nat_str n)"
  by (rule nat_str_avoids) (simp add: char_class_defs)

lemma subnet_at_nat:
  "subnet_at (int n) = ''10.'' @ nat_str (100 + n div 256) @ ''.'' @ nat_str (n mod 256) @ ''.0/24''"
proof -
  have "nat (100 + int n div 256) = 100 + n div 256" and "nat (int n mod 256) = n mod 256"
    by (simp_all add: nat_add_distrib nat_div_distrib nat_mod_distrib)
  moreover have "0 \<le> int n div 256" by (simp add: pos_imp_zdiv_nonneg_iff)
  then have "\<not> 100 + int n div 256 < 0" and "\<not> int n mod 256 < 0"
    by simp_all
  ultimately show ?thesis by (simp only: subnet_at_def int_str_def if_False)
qed

lemma split_subnet:
  "py_split CHR ''.'' (''10.'' @ nat_str a @ ''.'' @ nat_str b @ ''.'' @ r) =
     ''10'' # nat_str a # nat_str b # py_split CHR ''.'' r"
  using py_split_append [OF nat_str_no_dot, of a] py_split_append [OF nat_str_no_dot, of b] by simp

lemma subnet_at_inject: "subnet_at (int m) = subnet_at (int n) \<Longrightarrow> m = n"
proof -
  assume eq: "subnet_at (int m) = subnet_at (int n)"
  have "py_split CHR ''.'' (subnet_at (int k)) =
      ''10'' # nat_str (100 + k div 256) # nat_str (k mod 256) # [''0/24'']" for k
    using split_subnet [of "100 + k div 256" "k mod 256" "''0/24''"] by (simp add: subnet_at_nat)
  note sp = this
  have "nat_str (100 + m div 256) = nat_str (100 + n div 256)"
      and "nat_str (m mod 256) = nat_str (n mod 256)"
    using arg_cong [OF eq, of "py_split CHR ''.''"] unfolding sp by simp_all
  then have "m div 256 = n div 256" and "m mod 256 = n mod 256"
    by simp_all
  then show "m = n" by (metis div_mult_mod_eq)
qed

lemma derive_subnets_nat:
  assumes "0 \<le> b" and "b < MAX_SLOTS"
  shows "derive_subnets b = Inr (map (\<lambda>i. subnet_at (int (nat b * 5 + i))) [0..<5])"
  using assms by (simp add: derive_subnets_def Let_def)

lemma rsplit_head_suffix: "sep \<noteq> [] \<Longrightarrow> rsplit_head sep (p @ sep) = p"
  by (simp add: rsplit_head_def py_find_prefix)

lemma subnet_base_subnet: "subnet_base (p @ ''.0/24'') = p"
  unfolding subnet_base_def by (rule rsplit_head_suffix) simp

lemma derive_subnets_set:
  assumes "0 \<le> b" and "b < MAX_SLOTS" and "derive_subnets b = Inr xs"
  shows "set xs = (\<lambda>n. subnet_at (int n)) ` {nat b * 5..<nat b * 5 + 5}" and "length xs = 5"
proof -
  have xs: "xs = map (\<lambda>i. subnet_at (int (nat b * 5 + i))) [0..<5]"
    using derive_subnets_nat [OF assms(1,2)] assms(3) by simp
  show "set xs = (\<lambda>n. subnet_at (int n)) ` {nat b * 5..<nat b * 5 + 5}"
    unfolding xs by (rule set_map_shift)
  show "length xs = 5" by (simp add: xs)
qed

lemma subnets_disjoint:
  assumes "0 \<le> a" "a < MAX_SLOTS" "0 \<le> b" "b < MAX_SLOTS" "a \<noteq> b"
    and "derive_subnets a = Inr xs" "derive_subnets b = Inr ys"
  shows "set xs \<inter> set ys = {}"
proof -
  have "{nat a * 5..<nat a * 5 + 5} \<inter> {nat b * 5..<nat b * 5 + 5} = {}"
    using assms(1,3,5) by (cases "nat a < nat b") auto
  moreover have "inj (\<lambda>n. subnet_at (int n))"
    by (rule injI) (rule subnet_at_inject)
  ultimately show ?thesis
    using assms by (simp add: derive_subnets_set image_Int [symmetric])
qed

lemma distinct_subnets:
  assumes "0 \<le> b" and "b < MAX_SLOTS" and "derive_subnets b = Inr xs"
  shows "distinct xs"
proof -
  have xs: "xs = map (\<lambda>i. subnet_at (int (nat b * 5 + i))) [0..<5]"
    using derive_subnets_nat [OF assms(1,2)] assms(3) by simp
  have "inj_on (\<lambda>i. subnet_at (int (nat b * 5 + i))) (set [0..<5])"
  proof (rule inj_onI)
    fix x y
    assume "subnet_at (int (nat b * 5 + x)) = subnet_at (int (nat b * 5 + y))"
    then have "nat b * 5 + x = nat b * 5 + y" by (rule subnet_at_inject)
    then show "x = y" by simp
  qed
  then show ?thesis unfolding xs distinct_map by simp
qed

lemma allocate_steps:
  assumes "ipam_reachable s" and "\<forall>p. sys_pc s p = Ready"
  shows "\<exists>t. ipam_reachable t \<and> (\<forall>p. sys_pc t p = Ready) \<and> sys_ipam t = snd (allocate pid i (sys_ipam s))"
proof -
  have lock: "ipam_lock (sys_ipam s) = None"
    using ipam_reachable_inv [OF assms(1)] assms(2)
    by (cases "ipam_lock (sys_ipam s)") (auto simp: ipam_inv_def)
  let ?d = "ipam_load (ipam_file (sys_ipam s))"
  let ?s1 = "s\<lparr>sys_ipam := (sys_ipam s)\<lparr>ipam_lock := Some pid\<rparr>,
               sys_pc := (sys_pc s)(pid := HasLock (OpAllocate i))\<rparr>"
  let ?s2 = "?s1\<lparr>sys_pc := (sys_pc ?s1)(pid := HasData (OpAllocate i) ?d)\<rparr>"
  let ?s3 = "?s2\<lparr>sys_ipam := ipam_unlock (save_opt (ipam_commit (OpAllocate i) ?d) (sys_ipam ?s2)),
                sys_pc := (sys_pc ?s2)(pid := Ready)\<rparr>"
  have "ipam_step s ?s1"
    using assms(2) lock by (intro ipam_step.acquire) (auto simp: ipam_acquire_lock_def)
  moreover have "ipam_step ?s1 ?s2"
    using ipam_step.load [of ?s1 pid "OpAllocate i"] by simp
  moreover have "ipam_step ?s2 ?s3" by (rule ipam_step.commit) simp
  ultimately have "ipam_reachable ?s3"
    using assms(1) by (blast intro: ipam_reachable.step)
  moreover have "sys_ipam ?s3 = snd (allocate pid i (sys_ipam s))"
    using lock by (simp add: allocate_def ipam_acquire_lock_def ipam_commit_def split: prod.splits)
  ultimately show ?thesis using assms(2) by (intro exI [of _ ?s3]) simp
qed

lemma lowest_slot_empty: "lowest_slot [] = Some 0"
  by (simp add: slot.pick_iff MAX_SLOTS_def dict_values_def)

lemma ipam_load_simps [simp]:
  "ipam_load Absent = []" "ipam_load Malformed = []" "ipam_load (Doc d) = d"
  by (simp_all add: ipam_load_def)

lemmas allocate_unfold =
  allocate_def ipam_acquire_lock_def allocate_locked_def save_opt_def ipam_save_def ipam_unlock_def

lemma allocate_existing:
  assumes "ipam_lock s = None" and "map_of (ipam_load (ipam_file s)) inst = Some i"
  shows "allocate pid inst s = (Inr i, s)"
  using assms by (simp add: allocate_unfold)

lemma allocate_new:
  assumes "ipam_lock s = None" and "map_of (ipam_load (ipam_file s)) inst = None"
    and "lowest_slot (ipam_load (ipam_file s)) = Some k"
  shows "allocate pid inst s =
     (Inr (int k), s\<lparr>ipam_file := Doc (dict_set inst (int k) (ipam_load (ipam_file s)))\<rparr>)"
  using assms by (simp add: allocate_unfold)

lemma allocate_full:
  assumes "ipam_lock s = None" and "map_of (ipam_load (ipam_file s)) inst = None"
    and "lowest_slot (ipam_load (ipam_file s)) = None"
  shows "allocate pid inst s = (Inl IPAMExhaustedError, s)"
  using assms by (simp add: allocate_unfold)

text \<open>The address plan behind \<open>derive_static_ips\<close>: each address is a host number on one of
  the five networks.\<close>

definition net_prefix :: "nat \<Rightarrow> string" where
  "net_prefix n = ''10.'' @ nat_str (100 + n div 256) @ ''.'' @ nat_str (n mod 256)"

definition host_ip :: "nat \<Rightarrow> nat \<Rightarrow> string" where
  "host_ip n h = net_prefix n @ ''.'' @ nat_str h"

definition static_ip_plan :: "(string \<times> nat \<times> nat) list" where
  "static_ip_plan =
     [(''agent_isolated_ip'', 0, 3), (''agent_proxy_ip'', 1, 3), (''core_ipc_ip'', 4, 3),
      (''proxy_core_ip'', 1, 254), (''dnsdist_isolated_ip'', 0, 56), (''dnsdist_dns_ip'', 2, 56),
      (''coredns_dns_ip'', 2, 53), (''coredns_egress_ip'', 3, 53), (''admin_ipc_ip'', 4, 2),
      (''db_postgres_ip'', 0, 54), (''mcp_firecrawl_proxy_ip'', 1, 55), (''firecrawl_dns_ip'', 2, 55),
      (''firecrawl_isolated_ip'', 0, 55)]"

lemma subnet_at_prefix: "subnet_at (int n) = net_prefix n @ ''.0/24''"
  by (simp add: subnet_at_nat net_prefix_def)

lemma split_host_ip:
  "py_split CHR ''.'' (host_ip n h) = [''10'', nat_str (100 + n div 256), nat_str (n mod 256), nat_str h]"
proof -
  have "host_ip n h =
      ''10.'' @ nat_str (100 + n div 256) @ ''.'' @ nat_str (n mod 256) @ ''.'' @ nat_str h"
    by (simp add: host_ip_def net_prefix_def)
  then show ?thesis
    by (simp only: split_subnet py_split_free [OF nat_str_no_dot])
qed

lemma host_ip_inject: "host_ip n h = host_ip m k \<Longrightarrow> n = m \<and> h = k"
proof -
  assume "host_ip n h = host_ip m k"
  from arg_cong [OF this, of "py_split CHR ''.''"]
  have "n div 256 = m div 256" and "n mod 256 = m mod 256" and "h = k"
    unfolding split_host_ip by simp_all
  then show ?thesis by (metis div_mult_mod_eq)
qed

lemma nat_str_hosts:
  "nat_str 2 = ''2''" "nat_str 3 = ''3''" "nat_str 53 = ''53''" "nat_str 54 = ''54''"
  "nat_str 55 = ''55''" "nat_str 56 = ''56''" "nat_str 254 = ''254''"
  by (simp_all add: nat_str.simps digit_of_def digit_chars_def)

lemma derive_static_ips_plan:
  assumes "0 \<le> b" and "b < MAX_SLOTS"
  shows "derive_static_ips b =
     Inr (map (\<lambda>(key, net, h). (key, host_ip (nat b * 5 + net) h)) static_ip_plan)"
proof -
  have five: "[0..<5] = [0, 1, 2, 3, 4 :: nat]" by (simp add: upt_rec)
  show ?thesis
    unfolding derive_static_ips_def derive_subnets_nat [OF assms] five
    by (simp only: list.map subnet_at_prefix subnet_base_subnet bindE_simps Let_def nth_Cons_0
        nth_Cons_numeral nth_Cons_Suc One_nat_def)
      (simp add: static_ip_plan_def host_ip_def nat_str_hosts subnet_base_subnet)
qed

lemma static_ip_plan_facts:
  "distinct (map fst static_ip_plan)" "distinct (map snd static_ip_plan)"
  "\<forall>(key, net, h) \<in> set static_ip_plan. net < 5 \<and> 2 \<le> h \<and> h \<le> 254"
    "length static_ip_plan = 13"
  by (simp_all add: static_ip_plan_def)

section \<open>Properties\<close>



text \<open>with a free lock, \<open>allocate\<close> returns the slot the instance already has, or
  otherwise the least slot nobody has, and records it without touching another entry; it fails,
  leaving the ledger alone, exactly when the instance is new and all 7987 slots are taken; the lock
  is free again in every case, and \<open>peek_next_slot\<close> announces exactly the slot.\<close>

theorem allocate_correct:
  assumes "ipam_lock s = None"
  shows "case allocate pid inst s of (r, s') \<Rightarrow>
     ipam_lock s' = None \<and>
     (let d = ipam_load (ipam_file s); d' = ipam_load (ipam_file s') in
      case r of
        Inr i \<Rightarrow> map_of d' inst = Some i \<and> (\<forall>other. other \<noteq> inst \<longrightarrow> map_of d' other = map_of d other) \<and>
          (map_of d inst = Some i \<and> s' = s \<or>
           map_of d inst = None \<and> 0 \<le> i \<and> i < MAX_SLOTS \<and> i \<notin> set (dict_values d) \<and>
             (\<forall>j. 0 \<le> j \<and> j < i \<longrightarrow> j \<in> set (dict_values d))) \<and>
          peek_next_slot inst s = Inr (i, map_of d inst \<noteq> None)
      | Inl e \<Rightarrow> e = IPAMExhaustedError \<and> s' = s \<and> map_of d inst = None \<and>
          (\<forall>j. 0 \<le> j \<and> j < MAX_SLOTS \<longrightarrow> j \<in> set (dict_values d)) \<and>
          peek_next_slot inst s = Inl IPAMExhaustedError)"
proof -
  define d where "d = ipam_load (ipam_file s)"
  consider i where "map_of d inst = Some i"
    | k where "map_of d inst = None" "lowest_slot d = Some k"
    | "map_of d inst = None" "lowest_slot d = None"
    by (cases "map_of d inst"; cases "lowest_slot d") auto
  then show ?thesis
  proof cases
    case (1 i)
    then have "allocate pid inst s = (Inr i, s)"
      using assms by (simp add: d_def allocate_existing)
    with 1 assms show ?thesis by (simp add: d_def peek_next_slot_def)
  next
    case (2 k)
    have step: "allocate pid inst s = (Inr (int k), s\<lparr>ipam_file := Doc (dict_set inst (int k) d)\<rparr>)"
      using 2 assms unfolding d_def by (rule allocate_new [rotated])
    have least: "j \<in> set (dict_values d)" if "0 \<le> j" "j < int k" for j
      using lowest_slot_Some [OF 2(2)] that by (metis nat_less_iff int_nat_eq nat_0_le)
    have peek: "peek_next_slot inst s = Inr (int k, False)"
      using 2 by (simp add: peek_next_slot_def d_def)
    show ?thesis
      using 2(1) lowest_slot_Some [OF 2(2)] least assms
      unfolding step peek d_def [symmetric]
      by (simp add: dict.lookup_put_other MAX_SLOTS_def)
  next
    case 3
    have full: "j \<in> set (dict_values d)" if "0 \<le> j" "j < MAX_SLOTS" for j
      using lowest_slot_None [OF 3(2), of "nat j"] that by simp
    from 3 have "allocate pid inst s = (Inl IPAMExhaustedError, s)"
      using assms by (simp add: d_def allocate_full)
    with 3 full assms show ?thesis by (simp add: d_def peek_next_slot_def)
  qed
qed

theorem allocate_correct_witness:
  "ipam_lock \<lparr>ipam_file = Doc [(''a'', 0)], ipam_lock = None\<rparr> = None \<and>
   fst (allocate 7 ''b'' \<lparr>ipam_file = Doc [(''a'', 0)], ipam_lock = None\<rparr>) = Inr 1"
proof -
  let ?s = "\<lparr>ipam_file = Doc [(''a'', 0)], ipam_lock = None\<rparr> :: ipam_state"
  have slot1: "lowest_slot [(''a'', 0)] = Some 1"
    by (simp add: slot.pick_iff MAX_SLOTS_def dict_values_def)
  have "allocate 7 ''b'' ?s = (Inr 1, ?s\<lparr>ipam_file := Doc [(''a'', 0), (''b'', 1)]\<rparr>)"
    using allocate_new [of ?s "''b''" 1 7] slot1 by (simp add: dict_set_def)
  then show ?thesis using allocate_correct [where s = ?s and pid = 7 and inst = "''b''"] by simp
qed

text \<open>For every slot the ledger can hand out, the thirteen static addresses exist, are
  pairwise different, lie on the slot's own five networks with a host number between 2 and 254, and
  the network octets stay within 100-255 and 0-255.\<close>

theorem static_ips_on_own_networks:
  assumes "0 \<le> b" and "b < MAX_SLOTS"
  shows "\<exists>ips xs. derive_static_ips b = Inr ips \<and> derive_subnets b = Inr xs \<and> length ips = 13 \<and>
     distinct (map fst ips) \<and> distinct (map snd ips) \<and>
     (\<forall>(key, ip) \<in> set ips. \<exists>o2 o3 h. 100 \<le> o2 \<and> o2 \<le> 255 \<and> o3 \<le> 255 \<and> 2 \<le> h \<and> h \<le> 254 \<and>
        ip = ''10.'' @ nat_str o2 @ ''.'' @ nat_str o3 @ ''.'' @ nat_str h \<and>
        ''10.'' @ nat_str o2 @ ''.'' @ nat_str o3 @ ''.0/24'' \<in> set xs)"
proof -
  let ?f = "\<lambda>(key, net, h). (key, host_ip (nat b * 5 + net) h)"
  let ?ips = "map ?f static_ip_plan"
  obtain xs where xs: "derive_subnets b = Inr xs" using derive_subnets_nat [OF assms] by blast
  have onnet: "subnet_at (int (nat b * 5 + net)) \<in> set xs" if "net < 5" for net
    unfolding derive_subnets_set(1) [OF assms xs]
    by (rule image_eqI [of _ _ "nat b * 5 + net"]) (use that in simp_all)
  have keys: "map fst ?ips = map fst static_ip_plan" by auto
  have vals: "map snd ?ips = map (\<lambda>(net, h). host_ip (nat b * 5 + net) h) (map snd static_ip_plan)"
    by auto
  have "inj_on (\<lambda>(net, h). host_ip (nat b * 5 + net) h) (set (map snd static_ip_plan))"
    by (auto intro!: inj_onI dest!: host_ip_inject)
  then have dvals: "distinct (map snd ?ips)"
    unfolding vals using static_ip_plan_facts(2) by (metis distinct_map)
  have bound: "nat b * 5 + net < 256 * 156" if "net < 5" for net
    using assms that by (simp add: MAX_SLOTS_def)
  have each: "\<exists>o2 o3 h'. 100 \<le> o2 \<and> o2 \<le> 255 \<and> o3 \<le> 255 \<and> 2 \<le> h' \<and> h' \<le> 254 \<and>
        host_ip (nat b * 5 + net) h = ''10.'' @ nat_str o2 @ ''.'' @ nat_str o3 @ ''.'' @ nat_str h' \<and>
        ''10.'' @ nat_str o2 @ ''.'' @ nat_str o3 @ ''.0/24'' \<in> set xs"
    if "net < 5" "2 \<le> h" "h \<le> 254" for net h
  proof (intro exI conjI)
    let ?n = "nat b * 5 + net"
    show "100 + ?n div 256 \<le> 255"
      using bound [OF that(1)] less_mult_imp_div_less [of ?n 156 256] by (simp add: mult.commute)
    show "''10.'' @ nat_str (100 + ?n div 256) @ ''.'' @ nat_str (?n mod 256) @ ''.0/24'' \<in> set xs"
      using onnet [OF that(1)] unfolding subnet_at_nat .
    have "?n mod 256 < 256" by simp
    then show "?n mod 256 \<le> 255" by linarith
  qed (use that in \<open>simp_all add: host_ip_def net_prefix_def\<close>)
  then have "\<forall>(key, ip) \<in> set ?ips. \<exists>o2 o3 h. 100 \<le> o2 \<and> o2 \<le> 255 \<and> o3 \<le> 255 \<and> 2 \<le> h \<and> h \<le> 254 \<and>
        ip = ''10.'' @ nat_str o2 @ ''.'' @ nat_str o3 @ ''.'' @ nat_str h \<and>
        ''10.'' @ nat_str o2 @ ''.'' @ nat_str o3 @ ''.0/24'' \<in> set xs"
    using static_ip_plan_facts(3) by (auto simp: split_beta simp del: nat_str_inject)
  then show ?thesis
    using derive_static_ips_plan [OF assms] xs dvals keys static_ip_plan_facts(1)
    by (intro exI [of _ ?ips] exI [of _ xs] conjI) (simp_all only: length_map static_ip_plan_facts(4))
qed

theorem static_ips_on_own_networks_witness:
  "(0::int) \<le> 7986 \<and> 7986 < MAX_SLOTS \<and> is_ok (derive_static_ips 7986)"
  using static_ips_on_own_networks [of 7986] by (auto simp: MAX_SLOTS_def)

end
