(* ===== verification/Host_Config.thy ===== *)
theory Host_Config
  imports Py_Strings Lowest_Free
begin

text \<open>
  The per-host configuration of \<open>src/src/core/host_config.py\<close>: execution modes and host settings,
  the daemon-owner resolution, the argv prefixes of the boundary crossings, and the subuid/subgid
  resolvers. The operating system's account databases and the two subid files are fields of
  \<open>host_env\<close>; the operations take it as an argument.
\<close>

section \<open>The contract of an identity translation\<close>

text \<open>What the ownership recipes rely on: the container-to-host map and its inverse agree on the
  ids from 1 up, for every state the provider calls well formed.\<close>

locale id_translation =
  fixes ok :: "'s \<Rightarrow> bool"
    and to_host :: "'s \<Rightarrow> int \<Rightarrow> 'e + int"
    and to_container :: "'s \<Rightarrow> int \<Rightarrow> 'e + int"
  assumes to_host_to_container: "ok s \<Longrightarrow> to_container s h = Inr n \<Longrightarrow> 1 \<le> n \<and> to_host s n = Inr h"
    and to_container_to_host: "ok s \<Longrightarrow> 1 \<le> n \<Longrightarrow> to_host s n = Inr h \<Longrightarrow> to_container s h = Inr n"
begin

lemma translation_iff: "ok s \<Longrightarrow> to_container s h = Inr n \<longleftrightarrow> 1 \<le> n \<and> to_host s n = Inr h"
  using to_host_to_container to_container_to_host by blast

lemma to_host_inject:
  "ok s \<Longrightarrow> 1 \<le> m \<Longrightarrow> 1 \<le> n \<Longrightarrow> to_host s m = Inr h \<Longrightarrow> to_host s n = Inr h \<Longrightarrow> m = n"
  using to_container_to_host by (metis sum.inject(2))

lemma to_container_inject:
  "ok s \<Longrightarrow> to_container s h = Inr n \<Longrightarrow> to_container s k = Inr n \<Longrightarrow> h = k"
  using to_host_to_container by (metis sum.inject(2))

end

section \<open>Modes and settings\<close>

datatype docker_execution_mode = SEPARATE_USER | OPERATOR_ROOTLESS

definition mode_value :: "docker_execution_mode \<Rightarrow> string" where
  "mode_value m = (case m of SEPARATE_USER \<Rightarrow> ''separate-user'' | OPERATOR_ROOTLESS \<Rightarrow> ''operator-rootless'')"

definition DEFAULT_PROVISIONING_MODE :: docker_execution_mode where
  "DEFAULT_PROVISIONING_MODE = OPERATOR_ROOTLESS"

record host_settings =
  docker_unprivileged_user :: "string option"
  docker_execution_mode :: docker_execution_mode
  workspace_bridge_group :: string

text \<open>\<open>USERNAME_RE.match\<close>, for \<open>^[a-z_][a-z0-9_-]{0,31}$\<close>.\<close>

definition username_start :: "char \<Rightarrow> bool" where
  "username_start c = (c \<in> set lower_letters \<or> c = CHR ''_'')"

definition username_char :: "char \<Rightarrow> bool" where
  "username_char c = (c \<in> set lower_letters \<or> c \<in> set digit_chars \<or> c = CHR ''_'' \<or> c = CHR ''-'')"

definition username_match :: "string \<Rightarrow> bool" where
  "username_match s = (case re_dollar_body s of
       [] \<Rightarrow> False
     | c # r \<Rightarrow> username_start c \<and> list_all username_char r \<and> length r \<le> 31)"

datatype host_error =
    SettingsValueError
  | NoSubuidRangeError
  | SubuidOutOfRangeError
  | NoSubgidRangeError
  | SubgidOutOfRangeError
  | WorkspaceBridgeGroupMissingError
  | NoFreeGidInSubgidRangeError

definition validate_docker_unprivileged_user :: "host_settings \<Rightarrow> host_error + host_settings" where
  "validate_docker_unprivileged_user h =
     (case docker_unprivileged_user h of
        None \<Rightarrow>
          if docker_execution_mode h = SEPARATE_USER then Inl SettingsValueError else Inr h
      | Some user \<Rightarrow> if \<not> username_match user then Inl SettingsValueError else Inr h)"

definition minimal_host_config :: "string \<Rightarrow> docker_execution_mode \<Rightarrow> host_error + host_settings" where
  "minimal_host_config user mode =
     validate_docker_unprivileged_user
       \<lparr>docker_unprivileged_user = Some user, docker_execution_mode = mode,
        workspace_bridge_group = ''sb-ws''\<rparr>"

definition is_operator_rootless :: "host_settings \<Rightarrow> bool" where
  "is_operator_rootless h = (docker_execution_mode h = OPERATOR_ROOTLESS)"

section \<open>The operating system as the resolvers see it\<close>

record passwd =
  pw_uid :: int
  pw_gid :: int
  pw_dir :: string

record host_env =
  getuser :: string
  getpwnam :: "string \<Rightarrow> passwd option"
  getgrnam :: "string \<Rightarrow> int option"
  getgrall_gids :: "int list"
  subuid_file :: "string option"
  subgid_file :: "string option"

definition resolve_daemon_owner_settings :: "host_env \<Rightarrow> host_settings \<Rightarrow> host_error + string" where
  "resolve_daemon_owner_settings env h =
     (if docker_execution_mode h = OPERATOR_ROOTLESS then Inr (getuser env)
      else case docker_unprivileged_user h of
             None \<Rightarrow> Inl SettingsValueError
           | Some user \<Rightarrow> Inr user)"

definition workspace_bridge_group_for :: "string \<Rightarrow> docker_execution_mode \<Rightarrow> string" where
  "workspace_bridge_group_for operator mode =
     (if mode = OPERATOR_ROOTLESS then ''sb-ws-'' @ operator else ''sb-ws'')"

section \<open>Boundary-crossing prefixes\<close>

definition machinectl_cmd :: "string \<Rightarrow> string list" where
  "machinectl_cmd user = [''sudo'', ''machinectl'', ''shell'', user @ ''@.host'']"

definition pipe_cmd :: "string \<Rightarrow> string list" where
  "pipe_cmd user = [''systemd-run'', ''-q'', ''--pipe'', ''--uid='' @ user]"

definition sudo_pipe_cmd :: "string \<Rightarrow> string list" where
  "sudo_pipe_cmd user = ''sudo'' # pipe_cmd user"

definition sudo_as_operator :: "string \<Rightarrow> string list" where
  "sudo_as_operator operator = [''sudo'', ''-u'', operator]"

section \<open>Subid files\<close>

text \<open>One line of \<open>/etc/subuid\<close>: \<open>None\<close> for a line the parser skips.\<close>

definition parse_subid_line :: "string \<Rightarrow> (string \<times> int \<times> int) option" where
  "parse_subid_line raw_line =
     (let line = py_strip raw_line in
      if line = [] \<or> prefix ''#'' line then None
      else case py_split CHR '':'' line of
             [user, start_s, count_s] \<Rightarrow>
               (case (py_int start_s, py_int count_s) of
                  (Some start, Some count) \<Rightarrow> Some (user, start, count)
                | _ \<Rightarrow> None)
           | _ \<Rightarrow> None)"

definition parse_subid_file :: "string option \<Rightarrow> string \<Rightarrow> (int \<times> int) list" where
  "parse_subid_file file host_user =
     (case file of
        None \<Rightarrow> []
      | Some content \<Rightarrow>
          map snd (filter (\<lambda>e. fst e = host_user)
            (List.map_filter parse_subid_line (py_splitlines content))))"

definition parse_subuid_for_user :: "host_env \<Rightarrow> string \<Rightarrow> (int \<times> int) list" where
  "parse_subuid_for_user env host_user = parse_subid_file (subuid_file env) host_user"

definition parse_subgid_for_user :: "host_env \<Rightarrow> string \<Rightarrow> (int \<times> int) list" where
  "parse_subgid_for_user env host_user = parse_subid_file (subgid_file env) host_user"

section \<open>Identity translation\<close>

text \<open>The forward loop: \<open>for first, count in ranges\<close> with \<open>remaining\<close>.\<close>

fun walk_forward :: "(int \<times> int) list \<Rightarrow> int \<Rightarrow> int option" where
  "walk_forward [] remaining = None"
| "walk_forward ((first, count) # rs) remaining =
     (if remaining \<le> count then Some (first + remaining - 1) else walk_forward rs (remaining - count))"

text \<open>The inverse loop, with \<open>accumulated\<close>.\<close>

fun walk_inverse :: "(int \<times> int) list \<Rightarrow> int \<Rightarrow> int \<Rightarrow> int option" where
  "walk_inverse [] accumulated host_id = None"
| "walk_inverse ((first, count) # rs) accumulated host_id =
     (if first \<le> host_id \<and> host_id < first + count then Some (accumulated + (host_id - first) + 1)
      else walk_inverse rs (accumulated + count) host_id)"

definition host_id_for_in_container :: "host_env \<Rightarrow> int \<Rightarrow> string \<Rightarrow> host_error + int" where
  "host_id_for_in_container env N host_user =
     (if N = 0 then
        (case getpwnam env host_user of None \<Rightarrow> Inl NoSubuidRangeError | Some pw \<Rightarrow> Inr (pw_uid pw))
      else if N < 0 then Inl SubuidOutOfRangeError
      else let ranges = parse_subuid_for_user env host_user in
        if ranges = [] then Inl NoSubuidRangeError
        else case walk_forward ranges N of
               None \<Rightarrow> Inl SubuidOutOfRangeError
             | Some h \<Rightarrow> Inr h)"

definition host_gid_for_in_container :: "host_env \<Rightarrow> int \<Rightarrow> string \<Rightarrow> host_error + int" where
  "host_gid_for_in_container env N host_user =
     (if N = 0 then
        (case getpwnam env host_user of None \<Rightarrow> Inl NoSubgidRangeError | Some pw \<Rightarrow> Inr (pw_gid pw))
      else if N < 0 then Inl SubgidOutOfRangeError
      else let ranges = parse_subgid_for_user env host_user in
        if ranges = [] then Inl NoSubgidRangeError
        else case walk_forward ranges N of
               None \<Rightarrow> Inl SubgidOutOfRangeError
             | Some h \<Rightarrow> Inr h)"

definition in_container_gid_for_host_gid :: "host_env \<Rightarrow> int \<Rightarrow> string \<Rightarrow> host_error + int" where
  "in_container_gid_for_host_gid env host_gid host_user =
     (let ranges = parse_subgid_for_user env host_user in
      if ranges = [] then Inl NoSubgidRangeError
      else case walk_inverse ranges 0 host_gid of
             None \<Rightarrow> Inl SubgidOutOfRangeError
           | Some n \<Rightarrow> Inr n)"

definition in_container_uid_for_host_uid :: "host_env \<Rightarrow> int \<Rightarrow> string \<Rightarrow> host_error + int" where
  "in_container_uid_for_host_uid env host_uid host_user =
     (let ranges = parse_subuid_for_user env host_user in
      if ranges = [] then Inl NoSubuidRangeError
      else case walk_inverse ranges 0 host_uid of
             None \<Rightarrow> Inl SubuidOutOfRangeError
           | Some n \<Rightarrow> Inr n)"

definition workspace_bridge_gid :: "host_env \<Rightarrow> host_settings \<Rightarrow> host_error + int" where
  "workspace_bridge_gid env h =
     (case getgrnam env (workspace_bridge_group h) of
        None \<Rightarrow> Inl WorkspaceBridgeGroupMissingError
      | Some gid \<Rightarrow>
          bindE (resolve_daemon_owner_settings env h) (\<lambda>owner.
          bindE (in_container_gid_for_host_gid env gid owner) (\<lambda>_. Inr gid)))"

text \<open>The two nested loops of the recommendation: offsets of one range, then the next range.\<close>

definition range_candidate ::
  "int list \<Rightarrow> int \<Rightarrow> int \<Rightarrow> int \<Rightarrow> int \<Rightarrow> nat option" where
  "range_candidate used in_container_min accumulated first count =
     find (\<lambda>offset. in_container_min \<le> accumulated + int offset + 1 \<and> first + int offset \<notin> set used)
       [0..<nat count]"

fun scan_ranges :: "int list \<Rightarrow> int \<Rightarrow> int \<Rightarrow> (int \<times> int) list \<Rightarrow> int option" where
  "scan_ranges used in_container_min accumulated [] = None"
| "scan_ranges used in_container_min accumulated ((first, count) # rs) =
     (case range_candidate used in_container_min accumulated first count of
        Some offset \<Rightarrow> Some (first + int offset)
      | None \<Rightarrow> scan_ranges used in_container_min (accumulated + count) rs)"

definition autodetect_workspace_bridge_gid_recommendation ::
  "host_env \<Rightarrow> string \<Rightarrow> int \<Rightarrow> host_error + int" where
  "autodetect_workspace_bridge_gid_recommendation env host_user in_container_min =
     (let ranges = parse_subgid_for_user env host_user in
      if ranges = [] then Inl NoSubgidRangeError
      else case scan_ranges (getgrall_gids env) in_container_min 0 ranges of
             None \<Rightarrow> Inl NoFreeGidInSubgidRangeError
           | Some g \<Rightarrow> Inr g)"

section \<open>Lemmas: identity translation\<close>

text \<open>Ranges as \<open>useradd\<close> and \<open>usermod\<close> write them: non-negative counts, no overlap.\<close>

definition ranges_disjoint :: "(int \<times> int) list \<Rightarrow> bool" where
  "ranges_disjoint rs =
     ((\<forall>(f, c) \<in> set rs. 0 \<le> c) \<and>
      sorted_wrt (\<lambda>(f, c) (f', c'). f + c \<le> f' \<or> f' + c' \<le> f) rs)"

lemma ranges_disjoint_Cons:
  "ranges_disjoint ((f, c) # rs) \<longleftrightarrow>
     0 \<le> c \<and> (\<forall>(f', c') \<in> set rs. f + c \<le> f' \<or> f' + c' \<le> f) \<and> ranges_disjoint rs"
  by (auto simp: ranges_disjoint_def)

lemma walk_inverse_forward:
  "ranges_disjoint rs \<Longrightarrow> walk_inverse rs a h = Some n \<Longrightarrow> a < n \<and> walk_forward rs (n - a) = Some h"
proof (induction rs arbitrary: a)
  case Nil
  then show ?case by simp
next
  case (Cons r rs)
  obtain f c where r: "r = (f, c)" by (cases r)
  show ?case
  proof (cases "f \<le> h \<and> h < f + c")
    case True
    with Cons.prems(2) r show ?thesis by auto
  next
    case False
    with Cons.prems r have "a + c < n \<and> walk_forward rs (n - (a + c)) = Some h" and "0 \<le> c"
      using Cons.IH [of "a + c"] by (auto simp: ranges_disjoint_Cons)
    then show ?thesis using r by (simp add: algebra_simps)
  qed
qed

lemma walk_forward_in_range:
  "walk_forward rs m = Some h \<Longrightarrow> 1 \<le> m \<Longrightarrow> \<exists>(f, c) \<in> set rs. f \<le> h \<and> h < f + c"
proof (induction rs m rule: walk_forward.induct)
  case (2 f c rs m)
  then show ?case by (cases "m \<le> c") auto
qed simp

lemma walk_forward_inverse:
  "ranges_disjoint rs \<Longrightarrow> 1 \<le> m \<Longrightarrow> walk_forward rs m = Some h \<Longrightarrow> walk_inverse rs a h = Some (a + m)"
proof (induction rs m arbitrary: a rule: walk_forward.induct)
  case (1 m)
  then show ?case by simp
next
  case (2 f c rs m)
  show ?case
  proof (cases "m \<le> c")
    case True
    with "2.prems" show ?thesis by auto
  next
    case False
    then have fwd: "walk_forward rs (m - c) = Some h" and pos: "1 \<le> m - c"
      using "2.prems" by auto
    from walk_forward_in_range [OF fwd pos] have "\<not> (f \<le> h \<and> h < f + c)"
      using "2.prems"(1) by (fastforce simp: ranges_disjoint_Cons)
    moreover have "walk_inverse rs (a + c) h = Some (a + c + (m - c))"
      using "2.IH" [OF False _ pos fwd, of "a + c"] "2.prems"(1) by (simp add: ranges_disjoint_Cons)
    ultimately show ?thesis by auto
  qed
qed

definition subuid_ok :: "host_env \<times> string \<Rightarrow> bool" where
  "subuid_ok s = ranges_disjoint (parse_subuid_for_user (fst s) (snd s))"

definition subgid_ok :: "host_env \<times> string \<Rightarrow> bool" where
  "subgid_ok s = ranges_disjoint (parse_subgid_for_user (fst s) (snd s))"

lemmas uid_translation_defs =
  subuid_ok_def host_id_for_in_container_def in_container_uid_for_host_uid_def Let_def
lemmas gid_translation_defs =
  subgid_ok_def host_gid_for_in_container_def in_container_gid_for_host_gid_def Let_def

interpretation uid: id_translation subuid_ok
  "\<lambda>s n. host_id_for_in_container (fst s) n (snd s)"
  "\<lambda>s h. in_container_uid_for_host_uid (fst s) h (snd s)"
proof unfold_locales
  fix s h n
  assume "subuid_ok s" "in_container_uid_for_host_uid (fst s) h (snd s) = Inr n"
  then show "1 \<le> n \<and> host_id_for_in_container (fst s) n (snd s) = Inr h"
    by (auto simp: uid_translation_defs dest!: walk_inverse_forward split: if_splits option.splits)
next
  fix s n h
  assume "subuid_ok s" "1 \<le> n" "host_id_for_in_container (fst s) n (snd s) = Inr h"
  then show "in_container_uid_for_host_uid (fst s) h (snd s) = Inr n"
    by (auto simp: uid_translation_defs walk_forward_inverse split: if_splits option.splits)
qed

interpretation gid: id_translation subgid_ok
  "\<lambda>s n. host_gid_for_in_container (fst s) n (snd s)"
  "\<lambda>s h. in_container_gid_for_host_gid (fst s) h (snd s)"
proof unfold_locales
  fix s h n
  assume "subgid_ok s" "in_container_gid_for_host_gid (fst s) h (snd s) = Inr n"
  then show "1 \<le> n \<and> host_gid_for_in_container (fst s) n (snd s) = Inr h"
    by (auto simp: gid_translation_defs dest!: walk_inverse_forward split: if_splits option.splits)
next
  fix s n h
  assume "subgid_ok s" "1 \<le> n" "host_gid_for_in_container (fst s) n (snd s) = Inr h"
  then show "in_container_gid_for_host_gid (fst s) h (snd s) = Inr n"
    by (auto simp: gid_translation_defs walk_forward_inverse split: if_splits option.splits)
qed

section \<open>Lemmas: the bridge-gid recommendation\<close>

lemma range_candidate_Some:
  "range_candidate u m a f c = Some k \<Longrightarrow>
     k < nat c \<and> m \<le> a + int k + 1 \<and> f + int k \<notin> set u"
  unfolding range_candidate_def by (auto simp: find_Some_iff)

interpretation gid_scan: lowest_free
  "\<lambda>(u, m, a, f, c) k. m \<le> a + int k + 1 \<and> f + int k \<notin> set u"
  "\<lambda>(u, m, a, f, c) k. k < nat c"
  "\<lambda>(u, m, a, f, c). range_candidate u m a f c"
  by unfold_locales (auto simp: range_candidate_def find_Some_iff find_None_all)

lemma scan_ranges_Some:
  "ranges_disjoint rs \<Longrightarrow> scan_ranges u m a rs = Some g \<Longrightarrow>
     g \<notin> set u \<and> (\<exists>n. walk_inverse rs a g = Some n \<and> m \<le> n)"
proof (induction rs arbitrary: a)
  case Nil
  then show ?case by simp
next
  case (Cons r rs)
  obtain f c where r: "r = (f, c)" by (cases r)
  show ?case
  proof (cases "range_candidate u m a f c")
    case (Some k)
    with Cons.prems(2) r have "g = f + int k" by simp
    with range_candidate_Some [OF Some] r show ?thesis by auto
  next
    case None
    then have rec: "scan_ranges u m (a + c) rs = Some g" using Cons.prems(2) r by simp
    have dis: "ranges_disjoint rs" and apart: "\<forall>(f', c') \<in> set rs. f + c \<le> f' \<or> f' + c' \<le> f"
      and nonneg: "0 \<le> c"
      using Cons.prems(1) r by (auto simp: ranges_disjoint_Cons)
    from Cons.IH [OF dis rec] obtain n where n: "g \<notin> set u" "walk_inverse rs (a + c) g = Some n" "m \<le> n"
      by blast
    from walk_inverse_forward [OF dis n(2)] have "\<exists>(f, c) \<in> set rs. f \<le> g \<and> g < f + c"
      using walk_forward_in_range [of rs "n - (a + c)" g] by auto
    with apart have "\<not> (f \<le> g \<and> g < f + c)" by fastforce
    with n r show ?thesis by auto
  qed
qed

lemma scan_ranges_None:
  "ranges_disjoint rs \<Longrightarrow> scan_ranges u m a rs = None \<Longrightarrow> walk_inverse rs a g = Some n \<Longrightarrow> m \<le> n \<Longrightarrow>
     g \<in> set u"
proof (induction rs arbitrary: a)
  case Nil
  then show ?case by simp
next
  case (Cons r rs)
  obtain f c where r: "r = (f, c)" by (cases r)
  with Cons.prems(2) have none: "range_candidate u m a f c = None"
      and rec: "scan_ranges u m (a + c) rs = None"
    by (auto split: option.splits)
  show ?case
  proof (cases "f \<le> g \<and> g < f + c")
    case True
    define k where "k = nat (g - f)"
    with True have k: "int k = g - f" by simp
    with True Cons.prems(3,4) r have "m \<le> a + int k + 1" and "k < nat c" by auto
    with none have "f + int k \<in> set u" by (auto simp: range_candidate_def find_None_all)
    with k show ?thesis by simp
  next
    case False
    with Cons.prems r show ?thesis
      by (intro Cons.IH [OF _ rec]) (auto simp: ranges_disjoint_Cons)
  qed
qed

section \<open>Properties\<close>

text \<open>for a user whose subuid ranges are non-negative and do not overlap, the
  host-uid-to-container-uid map and the container-to-host map are inverse to each other on container
  uids from 1 up, whatever the order of the ranges; so two container uids never share a host uid.\<close>

theorem uid_translation_roundtrip:
  assumes "ranges_disjoint (parse_subuid_for_user env user)"
  shows "in_container_uid_for_host_uid env h user = Inr n \<longleftrightarrow>
           1 \<le> n \<and> host_id_for_in_container env n user = Inr h"
  using uid.translation_iff [of "(env, user)" h n] assms by (simp add: subuid_ok_def)

text \<open>The same inverse law for the gid maps, on the subgid ranges.\<close>

theorem gid_translation_roundtrip:
  assumes "ranges_disjoint (parse_subgid_for_user env user)"
  shows "in_container_gid_for_host_gid env h user = Inr n \<longleftrightarrow>
           1 \<le> n \<and> host_gid_for_in_container env n user = Inr h"
  using gid.translation_iff [of "(env, user)" h n] assms by (simp add: subgid_ok_def)

text \<open>A host with one operator, for the witnesses.\<close>

definition sample_env :: host_env where
  "sample_env = \<lparr>getuser = ''al'', getpwnam = (\<lambda>_. None), getgrnam = (\<lambda>_. None),
     getgrall_gids = [300], subuid_file = Some ''al:500:10'', subgid_file = Some ''al:300:5''\<rparr>"

lemma sample_ranges:
  "parse_subuid_for_user sample_env ''al'' = [(500, 10)]"
  "parse_subgid_for_user sample_env ''al'' = [(300, 5)]"
  by (simp_all add: parse_subuid_for_user_def parse_subgid_for_user_def parse_subid_file_def
      sample_env_def py_splitlines_def parse_subid_line_def py_strip_def py_lstrip_def py_rstrip_def
      py_int_def digits_value_def digit_value_def map_filter_def py_simps)

lemma sample_gids: "getgrall_gids sample_env = [300]"
  by (simp add: sample_env_def)

theorem uid_translation_roundtrip_witness:
  "ranges_disjoint (parse_subuid_for_user sample_env ''al'') \<and>
   in_container_uid_for_host_uid sample_env 507 ''al'' = Inr 8 \<and>
   host_id_for_in_container sample_env 8 ''al'' = Inr 507"
proof -
  have ok: "ranges_disjoint (parse_subuid_for_user sample_env ''al'')"
    by (simp add: sample_ranges ranges_disjoint_def)
  have "host_id_for_in_container sample_env 8 ''al'' = Inr 507"
    by (simp add: host_id_for_in_container_def sample_ranges)
  then show ?thesis using ok uid_translation_roundtrip [OF ok, of 507 8] by simp
qed

theorem gid_translation_roundtrip_witness:
  "ranges_disjoint (parse_subgid_for_user sample_env ''al'') \<and>
   in_container_gid_for_host_gid sample_env 303 ''al'' = Inr 4 \<and>
   host_gid_for_in_container sample_env 4 ''al'' = Inr 303"
proof -
  have ok: "ranges_disjoint (parse_subgid_for_user sample_env ''al'')"
    by (simp add: sample_ranges ranges_disjoint_def)
  have "host_gid_for_in_container sample_env 4 ''al'' = Inr 303"
    by (simp add: host_gid_for_in_container_def sample_ranges)
  then show ?thesis using ok gid_translation_roundtrip [OF ok, of 303 4] by simp
qed

text \<open>The bridge-gid recommendation returns a gid no group uses and that the daemon user
  can map to a container gid of at least the requested minimum; it fails with
  \<open>NoFreeGidInSubgidRangeError\<close> only when every such gid is in use.\<close>

theorem bridge_gid_recommendation_usable:
  assumes "ranges_disjoint (parse_subgid_for_user env user)"
    and "parse_subgid_for_user env user \<noteq> []"
  shows "case autodetect_workspace_bridge_gid_recommendation env user lo of
       Inr g \<Rightarrow> g \<notin> set (getgrall_gids env) \<and>
         (\<exists>n. lo \<le> n \<and> in_container_gid_for_host_gid env g user = Inr n)
     | Inl e \<Rightarrow> e = NoFreeGidInSubgidRangeError \<and>
         (\<forall>g n. in_container_gid_for_host_gid env g user = Inr n \<longrightarrow> lo \<le> n \<longrightarrow> g \<in> set (getgrall_gids env))"
  using assms scan_ranges_Some [OF assms(1), of "getgrall_gids env" lo 0]
    scan_ranges_None [OF assms(1), of "getgrall_gids env" lo 0]
  by (auto simp: autodetect_workspace_bridge_gid_recommendation_def
      in_container_gid_for_host_gid_def Let_def split: option.splits)

theorem bridge_gid_recommendation_usable_witness:
  "ranges_disjoint (parse_subgid_for_user sample_env ''al'') \<and>
   parse_subgid_for_user sample_env ''al'' \<noteq> [] \<and>
   autodetect_workspace_bridge_gid_recommendation sample_env ''al'' 1 = Inr 301 \<and>
   301 \<notin> set (getgrall_gids sample_env)"
proof -
  have ok: "ranges_disjoint (parse_subgid_for_user sample_env ''al'')"
      and ne: "parse_subgid_for_user sample_env ''al'' \<noteq> []"
    by (simp_all add: sample_ranges ranges_disjoint_def)
  have "autodetect_workspace_bridge_gid_recommendation sample_env ''al'' 1 = Inr 301"
    by (simp add: autodetect_workspace_bridge_gid_recommendation_def sample_ranges
        range_candidate_def upt_rec sample_gids)
  then show ?thesis using ok ne bridge_gid_recommendation_usable [OF ok ne, of 1] by simp
qed

end
