(* ===== verification/Registry.thy ===== *)
theory Registry
  imports Py_Dict
begin

text \<open>
  The instance registry of \<open>src/src/core/registry.py\<close>. The file is untrusted JSON: any document
  may be there, and \<open>load_raw\<close> projects it to the records the module can use. Registry mutations
  take a blocking exclusive lock, so each is one atomic step on the file.
\<close>

section \<open>Operations\<close>

record registry_entry =
  instance_dir :: string
  created_at :: string

type_synonym raw_record = "(string, string) dict"
type_synonym raw_registry = "(string, raw_record) dict"

definition str_fields :: "(string \<times> json) list \<Rightarrow> raw_record" where
  "str_fields body = List.map_filter (\<lambda>(k, v). case v of JStr s \<Rightarrow> Some (k, s) | _ \<Rightarrow> None) body"

definition is_path_keyed :: "(string \<times> json) list \<Rightarrow> bool" where
  "is_path_keyed d = list_ex (\<lambda>k. prefix ''/'' k) (dict_keys d)"

definition load_raw :: "json json_file \<Rightarrow> raw_registry" where
  "load_raw f =
     (case f of
        Doc (JObj d) \<Rightarrow>
          if is_path_keyed d then []
          else List.map_filter (\<lambda>(name, v). case v of JObj body \<Rightarrow> Some (name, str_fields body) | _ \<Rightarrow> None) d
      | _ \<Rightarrow> [])"

definition dump_raw :: "raw_registry \<Rightarrow> json json_file" where
  "dump_raw d = Doc (JObj (map (\<lambda>(name, r). (name, JObj (map (\<lambda>(k, s). (k, JStr s)) r))) d))"

definition entry_of :: "raw_record \<Rightarrow> registry_entry option" where
  "entry_of raw =
     (case (map_of raw ''instance_dir'', map_of raw ''created_at'') of
        (Some d, Some c) \<Rightarrow> Some \<lparr>instance_dir = d, created_at = c\<rparr>
      | _ \<Rightarrow> None)"

definition registry_get :: "string \<Rightarrow> json json_file \<Rightarrow> registry_entry option" where
  "registry_get name f =
     (case map_of (load_raw f) name of None \<Rightarrow> None | Some raw \<Rightarrow> entry_of raw)"

definition registry_all :: "json json_file \<Rightarrow> (string, registry_entry) dict" where
  "registry_all f =
     List.map_filter (\<lambda>(name, raw). map_option (\<lambda>e. (name, e)) (entry_of raw)) (load_raw f)"

datatype registry_error = InstanceNameInUseError string

definition entry_record :: "registry_entry \<Rightarrow> raw_record" where
  "entry_record e = [(''instance_dir'', instance_dir e), (''created_at'', created_at e)]"

definition registry_register ::
  "string \<Rightarrow> string \<Rightarrow> bool \<Rightarrow> string \<Rightarrow> json json_file \<Rightarrow>
   (registry_error + registry_entry) \<times> json json_file" where
  "registry_register name dir allow_overwrite now f =
     (let data = load_raw f in
      if map_of data name \<noteq> None \<and> \<not> allow_overwrite then (Inl (InstanceNameInUseError name), f)
      else let entry = \<lparr>instance_dir = dir, created_at = now\<rparr>
           in (Inr entry, dump_raw (dict_set name (entry_record entry) data)))"

definition registry_remove :: "string \<Rightarrow> json json_file \<Rightarrow> json json_file" where
  "registry_remove name f = dump_raw (dict_pop name (load_raw f))"

section \<open>Lemmas\<close>

lemma map_filter_map: "List.map_filter f (map g xs) = List.map_filter (\<lambda>x. f (g x)) xs"
  by (induction xs) (auto simp: map_filter_simps split: option.splits)

lemma map_filter_Some: "List.map_filter (\<lambda>x. Some (f x)) xs = map f xs"
  by (induction xs) (auto simp: map_filter_simps)

lemma str_fields_strings: "str_fields (map (\<lambda>(k, s). (k, JStr s)) r) = r"
  by (simp add: str_fields_def map_filter_map split_beta map_filter_Some)

text \<open>No name the module writes is path-keyed; on such data writing and loading are inverse.\<close>

definition names_ok :: "raw_registry \<Rightarrow> bool" where
  "names_ok d = (\<forall>name \<in> set (dict_keys d). \<not> prefix ''/'' name)"

lemma load_dump: "names_ok d \<Longrightarrow> load_raw (dump_raw d) = d"
  by (auto simp: load_raw_def dump_raw_def is_path_keyed_def names_ok_def dict_keys_def
      list_ex_iff map_filter_map split_beta str_fields_strings map_filter_Some)

lemma load_dump_path_keyed: "\<not> names_ok d \<Longrightarrow> load_raw (dump_raw d) = []"
  by (force simp: load_raw_def dump_raw_def is_path_keyed_def names_ok_def dict_keys_def list_ex_iff)

lemma fst_set_map_filter:
  "fst ` set (List.map_filter (\<lambda>(k, v). map_option (\<lambda>w. (k, w)) (f v)) xs) \<subseteq> fst ` set xs"
  by (induction xs) (auto simp: map_filter_simps split: option.splits)

lemma load_raw_names: "names_ok (load_raw f)"
proof (cases "\<exists>d. f = Doc (JObj d) \<and> \<not> is_path_keyed d")
  case True
  then obtain d where d: "f = Doc (JObj d)" "\<not> is_path_keyed d" by blast
  have "load_raw f = List.map_filter (\<lambda>(name, v). map_option (\<lambda>w. (name, w))
      (case v of JObj body \<Rightarrow> Some (str_fields body) | _ \<Rightarrow> None)) d"
    using d by (auto simp: load_raw_def intro!: arg_cong [where f = "\<lambda>g. List.map_filter g d"]
        split: json.splits)
  then have "fst ` set (load_raw f) \<subseteq> fst ` set d"
    using fst_set_map_filter by metis
  with d(2) show ?thesis
    by (force simp: names_ok_def is_path_keyed_def dict_keys_def list_ex_iff)
next
  case False
  then have "load_raw f = []"
    by (auto simp: load_raw_def split: json_file.splits json.splits)
  then show ?thesis by (simp add: names_ok_def dict_keys_def)
qed

lemma names_ok_set: "names_ok d \<Longrightarrow> \<not> prefix ''/'' name \<Longrightarrow> names_ok (dict_set name r d)"
  by (simp add: names_ok_def keys_dict_set)

lemma names_ok_pop: "names_ok d \<Longrightarrow> names_ok (dict_pop name d)"
  by (auto simp: names_ok_def dict_keys_def dict_pop_def)

lemma load_register:
  assumes "\<not> prefix ''/'' name"
  shows "load_raw (dump_raw (dict_set name r (load_raw f))) = dict_set name r (load_raw f)"
  using assms by (intro load_dump names_ok_set load_raw_names)

lemma load_remove: "load_raw (dump_raw (dict_pop name (load_raw f))) = dict_pop name (load_raw f)"
  by (intro load_dump names_ok_pop load_raw_names)

lemma entry_of_record: "entry_of (entry_record e) = Some e"
  by (simp add: entry_of_def entry_record_def)

lemma registry_get_remove:
  "registry_get name (registry_remove name f) = None"
  "other \<noteq> name \<Longrightarrow> registry_get other (registry_remove name f) = registry_get other f"
  by (simp_all add: registry_get_def registry_remove_def load_remove dict.lookup_pop_other)

section \<open>Properties\<close>

text \<open>On any file whatever (absent, unparseable, hand-edited), registering a name that is
  no absolute path either refuses because the name is taken, leaving the file as it is, or makes the
  name resolve to the new entry while every other name resolves as before; removing a name undoes
  exactly that name.\<close>

theorem registry_register_correct:
  assumes "\<not> prefix ''/'' name"
  shows "(case registry_register name dir ow now f of
       (Inl e, f') \<Rightarrow> e = InstanceNameInUseError name \<and> f' = f \<and> \<not> ow \<and> map_of (load_raw f) name \<noteq> None
     | (Inr entry, f') \<Rightarrow> entry = \<lparr>instance_dir = dir, created_at = now\<rparr> \<and>
         (ow \<or> map_of (load_raw f) name = None) \<and>
         registry_get name f' = Some entry \<and>
         (\<forall>other. other \<noteq> name \<longrightarrow> registry_get other f' = registry_get other f) \<and>
         registry_get name (registry_remove name f') = None \<and>
         (\<forall>other. other \<noteq> name \<longrightarrow>
            registry_get other (registry_remove name f') = registry_get other f))"
  using assms
  by (simp add: registry_register_def registry_get_def registry_remove_def Let_def load_register
      load_remove dict.lookup_put_other dict.lookup_pop_other entry_of_record)

theorem registry_register_correct_witness:
  "\<not> prefix ''/'' ''web'' \<and>
   registry_get ''web'' (snd (registry_register ''web'' ''/i/web'' False ''t'' Absent)) =
     Some \<lparr>instance_dir = ''/i/web'', created_at = ''t''\<rparr>"
  using registry_register_correct [where name = "''web''" and dir = "''/i/web''" and ow = False
      and now = "''t''" and f = Absent]
  by (simp add: registry_register_def load_raw_def Let_def)

end
