(* ===== verification/Compose_Name.thy ===== *)
theory Compose_Name
  imports Py_Strings
begin

text \<open>
  The daemon-side compose project name of \<open>src/src/core/compose.py\<close>: the sanitised user name, a
  dash, the instance name.
\<close>

section \<open>Operations\<close>

datatype compose_error = UserSanitizesToEmpty string

definition sanitize_char :: "char \<Rightarrow> char" where
  "sanitize_char c = (if c \<in> set lower_letters \<or> c \<in> set digit_chars then c else CHR ''-'')"

definition sanitize_dev_username :: "string \<Rightarrow> string" where
  "sanitize_dev_username username = py_strip_chars ''-'' (map sanitize_char (py_lower username))"

definition compose_project_name :: "string \<Rightarrow> string \<Rightarrow> compose_error + string" where
  "compose_project_name instance_name dev_username =
     (let sanitized = sanitize_dev_username dev_username in
      if sanitized = [] then Inl (UserSanitizesToEmpty dev_username)
      else Inr (sanitized @ ''-'' @ instance_name))"

section \<open>Lemmas\<close>

lemma set_py_strip_chars: "set (py_strip_chars cs s) \<subseteq> set s"
  by (auto simp: py_strip_chars_def py_rstrip_chars_def py_lstrip_chars_def dest!: set_dropWhileD)

lemma sanitize_charset:
  "c \<in> set (sanitize_dev_username u) \<Longrightarrow> c \<in> set lower_letters \<or> c \<in> set digit_chars \<or> c = CHR ''-''"
  using set_py_strip_chars [of "''-''" "map sanitize_char (py_lower u)"]
  by (auto simp: sanitize_dev_username_def sanitize_char_def split: if_splits)

lemma append_sep_inject:
  "x \<notin> set a \<Longrightarrow> x \<notin> set b \<Longrightarrow> a @ x # r = b @ x # t \<Longrightarrow> a = b \<and> r = t"
proof (induction a arbitrary: b)
  case Nil
  then show ?case by (cases b) auto
next
  case (Cons y a)
  then show ?case by (cases b) auto
qed

section \<open>Properties\<close>

text \<open>Two users whose sanitised names contain no dash never collide: equal project names
  come from the same sanitised user and the same instance.\<close>

theorem compose_project_name_unambiguous:
  assumes "compose_project_name i u = Inr p" and "compose_project_name j v = Inr p"
    and "CHR ''-'' \<notin> set (sanitize_dev_username u)" and "CHR ''-'' \<notin> set (sanitize_dev_username v)"
  shows "sanitize_dev_username u = sanitize_dev_username v \<and> i = j"
  using assms append_sep_inject [of "CHR ''-''" "sanitize_dev_username u" "sanitize_dev_username v" i j]
  by (auto simp: compose_project_name_def Let_def split: if_splits)

theorem compose_project_name_unambiguous_witness:
  "compose_project_name ''web'' ''Al1'' = Inr ''al1-web'' \<and>
   CHR ''-'' \<notin> set (sanitize_dev_username ''Al1'') \<and> sanitize_dev_username ''Al1'' = ''al1''"
proof -
  have san: "sanitize_dev_username ''Al1'' = ''al1''" by code_simp
  then have "compose_project_name ''web'' ''Al1'' = Inr ''al1-web''"
    by (simp add: compose_project_name_def)
  with san show ?thesis
    using compose_project_name_unambiguous [of "''web''" "''Al1''" "''al1-web''" "''web''" "''Al1''"] by simp
qed

text \<open>The user prefix alone does not separate users: the instance \<open>c\<close> of the user \<open>a-b\<close>
  and the instance \<open>b-c\<close> of the user \<open>a\<close> share one project name, and so do the instances of \<open>a.b\<close> and
  \<open>a-b\<close>.\<close>

theorem compose_project_name_collision:
  "compose_project_name ''c'' ''a-b'' = compose_project_name ''b-c'' ''a'' \<and>
   compose_project_name ''c'' ''a.b'' = compose_project_name ''c'' ''a-b'' \<and>
   is_ok (compose_project_name ''c'' ''a-b'')"
  by code_simp

end
