(* ===== verification/Instance_Config.thy ===== *)
theory Instance_Config
  imports Complex_Main Py_Dict
begin

text \<open>
  The pinned images and the parsed \<open>sandbox.toml\<close> of \<open>src/src/core/hydration.py\<close>. A TOML table
  is a JSON object here; the field validation of the models is the validation library's and stays a
  parameter where an operation needs it.
\<close>

section \<open>Image pins\<close>

record image_pin =
  ref :: string
  tag :: string
  digest :: string

definition pinned :: "image_pin \<Rightarrow> string" where
  "pinned pin = ref pin @ ''@'' @ digest pin"

definition tagged :: "image_pin \<Rightarrow> string" where
  "tagged pin = ref pin @ '':'' @ tag pin"

definition IMAGE_REGISTRY :: "(string, image_pin) dict" where
  "IMAGE_REGISTRY =
     [(''wolfi_base'', \<lparr>ref = ''cgr.dev/chainguard/wolfi-base'', tag = ''latest'',
        digest = ''sha256:d6e31fc9dad5fd76d7160ba833502865e17c226ab261cb6893a0624b68198d7b''\<rparr>),
      (''debian_trixie'', \<lparr>ref = ''debian'', tag = ''trixie'',
        digest = ''sha256:35b8ff74ead4880f22090b617372daff0ccae742eb5674455d542bef71ef1999''\<rparr>),
      (''squid'', \<lparr>ref = ''ubuntu/squid'', tag = ''latest'',
        digest = ''sha256:6a097f68bae708cedbabd6188d68c7e2e7a38cedd05a176e1cc0ba29e3bbe029''\<rparr>),
      (''coredns'', \<lparr>ref = ''coredns/coredns'', tag = ''1.11.1'',
        digest = ''sha256:1eeb4c7316bacb1d4c8ead65571cd92dd21e27359f0d4917f1a5822a73b75db1''\<rparr>),
      (''dnsdist'', \<lparr>ref = ''powerdns/dnsdist-19'', tag = ''1.9.14'',
        digest = ''sha256:c2f859bb67865987878ff93c9c75758236fe659b4117b296da29da6b572affd0''\<rparr>),
      (''postgres'', \<lparr>ref = ''postgres'', tag = ''16-alpine'',
        digest = ''sha256:4e6e670bb069649261c9c18031f0aded7bb249a5b6664ddec29c013a89310d50''\<rparr>),
      (''busybox_musl'', \<lparr>ref = ''busybox'', tag = ''1.36.1-musl'',
        digest = ''sha256:3c6ae8008e2c2eedd141725c30b20d9c36b026eb796688f88205845ef17aa213''\<rparr>),
      (''golang_alpine'', \<lparr>ref = ''golang'', tag = ''1.23-alpine'',
        digest = ''sha256:383395b794dffa5b53012a212365d40c8e37109a626ca30d6151c8348d380b5f''\<rparr>)]"

section \<open>The instance configuration\<close>

datatype bootstrap_mode = COPY | EMPTY

record workspace_config =
  ws_bootstrap_mode :: bootstrap_mode
  ws_source :: "string option"
  ws_path :: string

definition check_copy_requires_source :: "workspace_config \<Rightarrow> bool" where
  "check_copy_requires_source w =
     (\<not> (ws_bootstrap_mode w = COPY \<and> (ws_source w = None \<or> ws_source w = Some [])))"

record db_postgres_config =
  pg_enabled :: bool
  pg_expose_host_ports :: "int list"
  pg_user :: string
  pg_db :: string
  pg_image :: string

record components_config =
  mcp_firecrawl :: bool
  mcp_puppeteer :: bool

record core_config =
  shm_size :: string
  pids_limit :: int
  mem_limit :: string
  cpus :: rat
  base_image :: string
  base_distro_family :: string
  git_user :: string
  git_email :: string

record runtimes_config =
  rt_python :: bool
  rt_typescript :: bool
  rt_rust :: bool
  rt_go :: bool

record node_config =
  node_version :: string
  nvm_version :: string

record proxy_whitelist_config =
  wl_domains :: "string list"
  wl_read_only_domains :: "string list"

record instance_config =
  inst_name :: string
  inst_host_uid :: string
  workspaces :: "(string, workspace_config) dict"
  core :: core_config
  runtimes :: runtimes_config
  runtimes_node :: node_config
  components :: components_config
  components_db_postgres :: db_postgres_config
  ingress_web_ports :: "int list"
  proxy_whitelist :: proxy_whitelist_config

definition default_core_config :: core_config where
  "default_core_config =
     \<lparr>shm_size = ''2gb'', pids_limit = 400, mem_limit = ''8gb'', cpus = 4,
      base_image = pinned (the (map_of IMAGE_REGISTRY ''wolfi_base'')),
      base_distro_family = ''wolfi'', git_user = [], git_email = []\<rparr>"

definition default_db_postgres_config :: db_postgres_config where
  "default_db_postgres_config =
     \<lparr>pg_enabled = True, pg_expose_host_ports = [5432], pg_user = ''sandbox'',
      pg_db = ''sandbox_db'', pg_image = pinned (the (map_of IMAGE_REGISTRY ''postgres''))\<rparr>"

section \<open>Reading sandbox.toml\<close>

text \<open>\<open>table.get(key, {})\<close> on a table, and the attribute error of a value that is no table.\<close>

datatype config_error = NotATable | LegacyAdminSection | ModelValidationError

definition get_table :: "string \<Rightarrow> (string \<times> json) list \<Rightarrow> json" where
  "get_table k t = (case map_of t k of None \<Rightarrow> JObj [] | Some v \<Rightarrow> v)"

definition as_table :: "json \<Rightarrow> config_error + (string \<times> json) list" where
  "as_table v = (case v of JObj t \<Rightarrow> Inr t | _ \<Rightarrow> Inl NotATable)"

definition is_jbool :: "json \<Rightarrow> bool" where
  "is_jbool v = (case v of JBool _ \<Rightarrow> True | _ \<Rightarrow> False)"

text \<open>The flattening of \<open>from_toml\<close>, in the order of the code.\<close>

definition flatten_toml :: "(string \<times> json) list \<Rightarrow> config_error + (string \<times> json) list" where
  "flatten_toml raw =
     bindE (as_table (get_table ''components'' raw)) (\<lambda>components_raw.
     bindE (as_table (get_table ''runtimes'' raw)) (\<lambda>rt.
     bindE (as_table (get_table ''proxy'' raw)) (\<lambda>proxy.
       Inr ([(''instance'', get_table ''instance'' raw),
             (''workspaces'', get_table ''workspaces'' raw),
             (''core'', get_table ''core'' raw),
             (''runtimes'', JObj (filter (\<lambda>p. fst p \<noteq> ''node'') rt)),
             (''runtimes_node'', get_table ''node'' rt),
             (''components'', JObj (filter (\<lambda>p. is_jbool (snd p)) components_raw)),
             (''components_db_postgres'', get_table ''db_postgres'' components_raw),
             (''components_ingress'', get_table ''ingress'' components_raw),
             (''proxy_whitelist'', get_table ''whitelist'' proxy)] @
            (case map_of raw ''admin'' of None \<Rightarrow> [] | Some v \<Rightarrow> [(''admin'', v)])))))"

definition reject_legacy_admin_section :: "(string \<times> json) list \<Rightarrow> config_error + (string \<times> json) list" where
  "reject_legacy_admin_section d =
     (if map_of d ''admin'' \<noteq> None then Inl LegacyAdminSection else Inr d)"

text \<open>\<open>from_toml\<close>, with the field validation of the model as a parameter.\<close>

definition from_toml ::
  "((string \<times> json) list \<Rightarrow> instance_config option) \<Rightarrow> (string \<times> json) list \<Rightarrow>
   config_error + instance_config" where
  "from_toml validate_fields raw =
     bindE (flatten_toml raw) (\<lambda>flat.
     bindE (reject_legacy_admin_section flat) (\<lambda>d.
       case validate_fields d of None \<Rightarrow> Inl ModelValidationError | Some c \<Rightarrow> Inr c))"

end
