(* ===== verification/Shell.thy ===== *)
theory Shell
  imports Py_Strings
begin

text \<open>
  Shell quoting. \<open>shlex.quote\<close> and \<open>shlex.join\<close> are the standard library functions the dispatcher
  and the helper containers build command lines with. \<open>sh_words\<close> is the specification they are
  measured against: the words of a POSIX shell command line, for the lines in which no character
  outside quotes is special (no expansion, no operator, no comment); every other line is \<open>None\<close>.
\<close>

section \<open>Quoting, as in the standard library\<close>

definition safe_chars :: string where
  "safe_chars = ''%+,-./0123456789:=@'' @ upper_letters @ ''_'' @ lower_letters"

definition shell_safe :: "char \<Rightarrow> bool" where
  "shell_safe c = (c \<in> set safe_chars)"

definition shlex_quote :: "string \<Rightarrow> string" where
  "shlex_quote s =
     (if s = [] then [CHR 0x27, CHR 0x27]
      else if list_all shell_safe s then s
      else CHR 0x27 # py_replace [CHR 0x27] [CHR 0x27, CHR 0x22, CHR 0x27, CHR 0x22, CHR 0x27] s
             @ [CHR 0x27])"

definition shlex_join :: "string list \<Rightarrow> string" where
  "shlex_join args = py_join '' '' (map shlex_quote args)"

section \<open>The words of a command line\<close>

text \<open>Where the reader is: between words, in a word (read so far, reversed), in single quotes, in
  double quotes.\<close>

datatype sh_mode = Between | InWord string | InSingle string | InDouble string

definition sh_blank :: "char \<Rightarrow> bool" where
  "sh_blank c = (c = CHR '' '' \<or> c = CHR 0x09)"

definition sh_special_in_double :: "char \<Rightarrow> bool" where
  "sh_special_in_double c = (c \<in> set [CHR ''$'', CHR 0x60, CHR 0x5C, CHR ''!''])"

fun sh_read :: "sh_mode \<Rightarrow> string \<Rightarrow> string list option" where
  "sh_read Between [] = Some []"
| "sh_read (InWord w) [] = Some [rev w]"
| "sh_read (InSingle w) [] = None"
| "sh_read (InDouble w) [] = None"
| "sh_read Between (c # cs) =
     (if sh_blank c then sh_read Between cs
      else if c = CHR 0x27 then sh_read (InSingle []) cs
      else if c = CHR 0x22 then sh_read (InDouble []) cs
      else if shell_safe c then sh_read (InWord [c]) cs
      else None)"
| "sh_read (InWord w) (c # cs) =
     (if sh_blank c then map_option (\<lambda>ws. rev w # ws) (sh_read Between cs)
      else if c = CHR 0x27 then sh_read (InSingle w) cs
      else if c = CHR 0x22 then sh_read (InDouble w) cs
      else if shell_safe c then sh_read (InWord (c # w)) cs
      else None)"
| "sh_read (InSingle w) (c # cs) =
     (if c = CHR 0x27 then sh_read (InWord w) cs else sh_read (InSingle (c # w)) cs)"
| "sh_read (InDouble w) (c # cs) =
     (if c = CHR 0x22 then sh_read (InWord w) cs
      else if sh_special_in_double c then None
      else sh_read (InDouble (c # w)) cs)"

definition sh_words :: "string \<Rightarrow> string list option" where
  "sh_words line = sh_read Between line"

section \<open>Lemmas\<close>

lemma shell_safe_plain:
  assumes "shell_safe c"
  shows "\<not> sh_blank c \<and> c \<noteq> CHR 0x27 \<and> c \<noteq> CHR 0x22 \<and> \<not> is_space c"
proof -
  have "list_all (\<lambda>c. \<not> sh_blank c \<and> c \<noteq> CHR 0x27 \<and> c \<noteq> CHR 0x22 \<and> \<not> is_space c) safe_chars"
    by code_simp
  with assms show ?thesis by (simp add: shell_safe_def list_all_iff)
qed

lemma quote_not_safe [simp]: "\<not> shell_safe (CHR 0x27)" "\<not> shell_safe (CHR 0x22)" "\<not> is_space (CHR 0x27)"
  "\<not> sh_blank (CHR 0x27)" "\<not> sh_blank (CHR 0x22)" "sh_blank (CHR '' '')"
  by (simp_all add: shell_safe_def safe_chars_def sh_blank_def py_simps)

lemma sh_read_safe: "list_all shell_safe s \<Longrightarrow> sh_read (InWord w) (s @ r) = sh_read (InWord (rev s @ w)) r"
  by (induction s arbitrary: w) (auto dest: shell_safe_plain)

lemma sh_read_safe_start:
  "s \<noteq> [] \<Longrightarrow> list_all shell_safe s \<Longrightarrow> sh_read Between (s @ r) = sh_read (InWord (rev s)) r"
  using shell_safe_plain by (cases s) (auto simp: sh_read_safe)

lemma sh_read_replaced:
  "sh_read (InSingle w)
     (py_replace [CHR 0x27] [CHR 0x27, CHR 0x22, CHR 0x27, CHR 0x22, CHR 0x27] s @ CHR 0x27 # r) =
   sh_read (InWord (rev s @ w)) r"
proof (induction s arbitrary: w)
  case Nil
  then show ?case by simp
next
  case (Cons c s)
  then show ?case
    by (cases "c = CHR 0x27") (simp_all add: sh_special_in_double_def)
qed

text \<open>A quoted string is read as one word, from any position between or inside words.\<close>

lemma sh_read_quote: "sh_read Between (shlex_quote s @ r) = sh_read (InWord (rev s)) r"
  by (auto simp: shlex_quote_def sh_read_safe_start sh_read_replaced)

lemma sh_read_quote_in_word: "sh_read (InWord w) (shlex_quote s @ r) = sh_read (InWord (rev s @ w)) r"
  by (auto simp: shlex_quote_def sh_read_safe sh_read_replaced)

lemma sh_read_word_end: "sh_read (InWord w) (CHR '' '' # r) = map_option (\<lambda>ws. rev w # ws) (sh_read Between r)"
  by simp

lemma sh_words_quote_Cons:
  "sh_words (shlex_quote s @ CHR '' '' # r) = map_option (\<lambda>ws. s # ws) (sh_words r)"
  by (simp add: sh_words_def sh_read_quote)

lemma sh_words_safe_Cons:
  "s \<noteq> [] \<Longrightarrow> list_all shell_safe s \<Longrightarrow>
     sh_words (s @ CHR '' '' # r) = map_option (\<lambda>ws. s # ws) (sh_words r)"
  by (simp add: sh_words_def sh_read_safe_start)

lemma sh_words_single: "sh_words (shlex_quote s) = Some [s]"
  using sh_read_quote [of s "[]"] by (simp add: sh_words_def)

lemma sh_words_join: "sh_words (shlex_join args) = Some args"
proof (induction args)
  case Nil
  then show ?case by (simp add: shlex_join_def sh_words_def)
next
  case (Cons a args)
  show ?case
  proof (cases args)
    case Nil
    then show ?thesis by (simp add: shlex_join_def sh_words_single)
  next
    case (Cons b bs)
    then have "shlex_join (a # args) = shlex_quote a @ '' '' @ shlex_join args"
      by (simp add: shlex_join_def)
    with Cons.IH show ?thesis by (simp add: sh_words_quote_Cons)
  qed
qed

lemma shlex_quote_nonempty [simp]: "shlex_quote s \<noteq> []"
  by (simp add: shlex_quote_def)

lemma shlex_quote_last: "\<not> is_space (last (shlex_quote s))"
  using shell_safe_plain by (auto simp: shlex_quote_def list_all_iff)

lemma shlex_quote_safe: "s \<noteq> [] \<Longrightarrow> list_all shell_safe s \<Longrightarrow> shlex_quote s = s"
  by (simp add: shlex_quote_def)

lemma py_join_append_last:
  "xs \<noteq> [] \<Longrightarrow> \<forall>x \<in> set xs. x \<noteq> [] \<Longrightarrow> last (py_join sep xs) = last (last xs) \<and> py_join sep xs \<noteq> []"
  by (induction sep xs rule: py_join.induct) auto

lemma shlex_join_last: "args \<noteq> [] \<Longrightarrow> shlex_join args \<noteq> [] \<and> \<not> is_space (last (shlex_join args))"
  using py_join_append_last [of "map shlex_quote args" "'' ''"] shlex_quote_last [of "last args"]
  by (auto simp: shlex_join_def last_map)

end
