(* ===== verification/Dispatch_Ops.thy ===== *)
theory Dispatch_Ops
  imports Host_Config Instance_Config Shell Registry Compose_Name Ipam
begin

text \<open>
  The typed ops of \<open>src/src/core/dispatch.py\<close>: the op enumeration, the streaming guards, the
  argument predicates and the per-op validators that run before the privilege boundary is crossed.
\<close>

section \<open>Ops\<close>

datatype op =
    AUTH_PROBE | COMPOSE_UP | COMPOSE_DOWN | COMPOSE_PS | COMPOSE_LS | DOCKER_VERSION | DOCKER_INFO
  | DOCKER_MANIFEST_INSPECT | HELPER_CHOWN_FILES | HELPER_MKDIR_CHOWN_DIRS | PREFLIGHT | FWD

fun op_value :: "op \<Rightarrow> string" where
  "op_value AUTH_PROBE = ''auth-probe''"
| "op_value COMPOSE_UP = ''compose-up''"
| "op_value COMPOSE_DOWN = ''compose-down''"
| "op_value COMPOSE_PS = ''compose-ps''"
| "op_value COMPOSE_LS = ''compose-ls''"
| "op_value DOCKER_VERSION = ''docker-version''"
| "op_value DOCKER_INFO = ''docker-info''"
| "op_value DOCKER_MANIFEST_INSPECT = ''docker-manifest-inspect''"
| "op_value HELPER_CHOWN_FILES = ''helper-chown-files''"
| "op_value HELPER_MKDIR_CHOWN_DIRS = ''helper-mkdir-chown-dirs''"
| "op_value PREFLIGHT = ''preflight''"
| "op_value FWD = ''fwd''"

definition all_ops :: "op list" where
  "all_ops = [AUTH_PROBE, COMPOSE_UP, COMPOSE_DOWN, COMPOSE_PS, COMPOSE_LS, DOCKER_VERSION, DOCKER_INFO,
     DOCKER_MANIFEST_INSPECT, HELPER_CHOWN_FILES, HELPER_MKDIR_CHOWN_DIRS, PREFLIGHT, FWD]"

text \<open>\<open>Op(value)\<close>: the member with that wire name, or \<open>ValueError\<close>.\<close>

definition op_of_value :: "string \<Rightarrow> op option" where
  "op_of_value v = find (\<lambda>opn. op_value opn = v) all_ops"

datatype dispatch_error =
    DispatchValidationError
  | StreamingOpError
  | UnvalidatedArgs
  | HostFault host_error
  | TomlReadError
  | ConfigFault config_error
  | ComposeFault compose_error
  | IpamFault ipam_error

definition is_streaming_op :: "op \<Rightarrow> bool" where
  "is_streaming_op opn = (opn = FWD)"

definition require_framed_op :: "op \<Rightarrow> dispatch_error + unit" where
  "require_framed_op opn = (if is_streaming_op opn then Inl StreamingOpError else Inr ())"

definition require_streaming_op :: "op \<Rightarrow> dispatch_error + unit" where
  "require_streaming_op opn = (if \<not> is_streaming_op opn then Inl StreamingOpError else Inr ())"

section \<open>Argument predicates\<close>

abbreviation require :: "bool \<Rightarrow> dispatch_error + unit" where
  "require b \<equiv> guardE b DispatchValidationError"

definition INSTANCE_NAME_MAX :: nat where
  "INSTANCE_NAME_MAX = 30"

definition RESERVED_INSTANCE_NAMES :: "string list" where
  "RESERVED_INSTANCE_NAMES = [''_backups'', ''default'', ''all'', ''none'', ''system'', ''isolated'',
     ''core_proxy'', ''dns'', ''egress'', ''ipc'']"

definition name_start :: "char \<Rightarrow> bool" where
  "name_start c = (c \<in> set lower_letters \<or> c \<in> set digit_chars)"

definition name_char :: "char \<Rightarrow> bool" where
  "name_char c = (name_start c \<or> c = CHR ''_'' \<or> c = CHR ''-'')"

text \<open>\<open>_INSTANCE_NAME_REGEX.match\<close>, for \<open>^[a-z0-9][a-z0-9_-]*$\<close>.\<close>

definition instance_name_match :: "string \<Rightarrow> bool" where
  "instance_name_match s = (case re_dollar_body s of [] \<Rightarrow> False | c # r \<Rightarrow> name_start c \<and> list_all name_char r)"

definition require_instance_name :: "string \<Rightarrow> dispatch_error + unit" where
  "require_instance_name v =
     bindE (require (v \<noteq> [])) (\<lambda>_.
     bindE (require (length v \<le> INSTANCE_NAME_MAX)) (\<lambda>_.
     bindE (require (\<not> (prefix ''-'' v \<or> prefix ''_'' v))) (\<lambda>_.
     bindE (require (instance_name_match v)) (\<lambda>_.
       require (v \<notin> set RESERVED_INSTANCE_NAMES)))))"

definition require_no_path_metachars :: "string \<Rightarrow> dispatch_error + unit" where
  "require_no_path_metachars v =
     bindE (require (CHR ''/'' \<notin> set v)) (\<lambda>_.
     bindE (require (\<not> (v = ''..'' \<or> ''..'' \<in> set (py_split CHR ''/'' v)))) (\<lambda>_.
     bindE (require (CHR 0x00 \<notin> set v)) (\<lambda>_.
       require (newline \<notin> set v))))"

definition require_absolute_parent :: "string \<Rightarrow> dispatch_error + unit" where
  "require_absolute_parent v =
     bindE (require (prefix ''/'' v)) (\<lambda>_.
     bindE (require (''..'' \<notin> set (py_split CHR ''/'' v))) (\<lambda>_.
     bindE (require (CHR 0x00 \<notin> set v)) (\<lambda>_.
       require (newline \<notin> set v))))"

definition octal_digit :: "char \<Rightarrow> bool" where
  "octal_digit c = (c \<in> set ''01234567'')"

text \<open>\<open>_MODE_OCTAL_REGEX.match\<close>, for \<open>^[0-7]{4}$\<close>.\<close>

definition mode_octal_match :: "string \<Rightarrow> bool" where
  "mode_octal_match s = (length (re_dollar_body s) = 4 \<and> list_all octal_digit (re_dollar_body s))"

definition require_octal_mode :: "string \<Rightarrow> dispatch_error + unit" where
  "require_octal_mode v = require (mode_octal_match v)"

definition require_nonneg_int :: "string \<Rightarrow> dispatch_error + unit" where
  "require_nonneg_int v = require (py_isdigit v)"

section \<open>Validators\<close>

definition validate_nullary :: "string list \<Rightarrow> dispatch_error + unit" where
  "validate_nullary args = require (args = [])"

definition validate_one_instance :: "string list \<Rightarrow> dispatch_error + unit" where
  "validate_one_instance args =
     (case args of [inst] \<Rightarrow> require_instance_name inst | _ \<Rightarrow> Inl DispatchValidationError)"

definition validate_compose_down :: "string list \<Rightarrow> dispatch_error + unit" where
  "validate_compose_down args =
     (case args of
        [inst] \<Rightarrow> require_instance_name inst
      | [inst, flag] \<Rightarrow> bindE (require_instance_name inst) (\<lambda>_. require (flag = ''--volumes''))
      | _ \<Rightarrow> Inl DispatchValidationError)"

definition DOCKER_INFO_PRESETS :: "(string \<times> string) list" where
  "DOCKER_INFO_PRESETS =
     [(''security-options'', ''{{.SecurityOptions}}''), (''runtimes'', ''{{json .Runtimes}}'')]"

definition validate_docker_info :: "string list \<Rightarrow> dispatch_error + unit" where
  "validate_docker_info args =
     (case args of
        [preset] \<Rightarrow> require (map_of DOCKER_INFO_PRESETS preset \<noteq> None)
      | _ \<Rightarrow> Inl DispatchValidationError)"

definition MANIFEST_INSPECT_REFS :: "string list" where
  "MANIFEST_INSPECT_REFS =
     map pinned (dict_values IMAGE_REGISTRY) @ map tagged (dict_values IMAGE_REGISTRY)"

definition validate_docker_manifest_inspect :: "string list \<Rightarrow> dispatch_error + unit" where
  "validate_docker_manifest_inspect args =
     (case args of
        [img] \<Rightarrow> require (img \<in> set MANIFEST_INSPECT_REFS)
      | _ \<Rightarrow> Inl DispatchValidationError)"

definition validate_helper_chown_files :: "string list \<Rightarrow> dispatch_error + unit" where
  "validate_helper_chown_files args =
     (case args of
        parent # mode # uid # gid # f # fs \<Rightarrow>
          bindE (require_absolute_parent parent) (\<lambda>_.
          bindE (require_octal_mode mode) (\<lambda>_.
          bindE (require_nonneg_int uid) (\<lambda>_.
          bindE (require_nonneg_int gid) (\<lambda>_.
            forE require_no_path_metachars (f # fs)))))
      | _ \<Rightarrow> Inl DispatchValidationError)"

definition validate_helper_mkdir_chown_dirs :: "string list \<Rightarrow> dispatch_error + unit" where
  "validate_helper_mkdir_chown_dirs args =
     (case args of
        parent # uid # gid # leaf # leaves \<Rightarrow>
          bindE (require_absolute_parent parent) (\<lambda>_.
          bindE (require_nonneg_int uid) (\<lambda>_.
          bindE (require_nonneg_int gid) (\<lambda>_.
            forE require_no_path_metachars (leaf # leaves))))
      | _ \<Rightarrow> Inl DispatchValidationError)"

text \<open>\<open>OP_SPECS[op].validate\<close>.\<close>

fun op_validate :: "op \<Rightarrow> string list \<Rightarrow> dispatch_error + unit" where
  "op_validate AUTH_PROBE = validate_nullary"
| "op_validate COMPOSE_UP = validate_one_instance"
| "op_validate COMPOSE_DOWN = validate_compose_down"
| "op_validate COMPOSE_PS = validate_one_instance"
| "op_validate COMPOSE_LS = validate_nullary"
| "op_validate DOCKER_VERSION = validate_nullary"
| "op_validate DOCKER_INFO = validate_docker_info"
| "op_validate DOCKER_MANIFEST_INSPECT = validate_docker_manifest_inspect"
| "op_validate HELPER_CHOWN_FILES = validate_helper_chown_files"
| "op_validate HELPER_MKDIR_CHOWN_DIRS = validate_helper_mkdir_chown_dirs"
| "op_validate PREFLIGHT = validate_nullary"
| "op_validate FWD = validate_one_instance"

text \<open>\<open>OP_SPECS[op].min_args\<close> and \<open>max_args\<close> (\<open>None\<close>: unbounded).\<close>

fun op_arity :: "op \<Rightarrow> nat \<times> nat option" where
  "op_arity COMPOSE_UP = (1, Some 1)"
| "op_arity COMPOSE_DOWN = (1, Some 2)"
| "op_arity COMPOSE_PS = (1, Some 1)"
| "op_arity DOCKER_INFO = (1, Some 1)"
| "op_arity DOCKER_MANIFEST_INSPECT = (1, Some 1)"
| "op_arity HELPER_CHOWN_FILES = (5, None)"
| "op_arity HELPER_MKDIR_CHOWN_DIRS = (4, None)"
| "op_arity FWD = (1, Some 1)"
| "op_arity _ = (0, Some 0)"

definition validate_args :: "op \<Rightarrow> string list \<Rightarrow> dispatch_error + unit" where
  "validate_args opn args = op_validate opn args"

section \<open>Lemmas\<close>

lemmas validator_defs =
  validate_args_def validate_nullary_def validate_one_instance_def validate_compose_down_def
  validate_docker_info_def validate_docker_manifest_inspect_def validate_helper_chown_files_def
  validate_helper_mkdir_chown_dirs_def

lemma op_of_value_op_value [simp]: "op_of_value (op_value opn) = Some opn"
  by (cases opn) (simp_all add: op_of_value_def all_ops_def)

lemma op_of_value_Some: "op_of_value v = Some opn \<Longrightarrow> op_value opn = v"
  unfolding op_of_value_def by (auto dest: find_Some_in_set)

lemma validate_error_kind: "validate_args opn args = Inl e \<Longrightarrow> e = DispatchValidationError"
proof -
  have path: "require_no_path_metachars v = Inl e \<Longrightarrow> e = DispatchValidationError" for v
    by (auto simp: require_no_path_metachars_def bindE_Inl_iff)
  then have paths: "forE require_no_path_metachars vs = Inl e \<Longrightarrow> e = DispatchValidationError" for vs
    by (induction vs) (auto simp: bindE_Inl_iff)
  have inst: "require_instance_name v = Inl e \<Longrightarrow> e = DispatchValidationError" for v
    by (auto simp: require_instance_name_def bindE_Inl_iff)
  show "validate_args opn args = Inl e \<Longrightarrow> e = DispatchValidationError"
    using path paths inst
    by (cases opn) (auto simp: validator_defs require_absolute_parent_def require_octal_mode_def
        require_nonneg_int_def bindE_Inl_iff split: list.splits)
qed

lemma instance_name_ok_iff:
  "require_instance_name v = Inr () \<longleftrightarrow>
     v \<noteq> [] \<and> length v \<le> INSTANCE_NAME_MAX \<and> \<not> prefix ''-'' v \<and> \<not> prefix ''_'' v \<and>
     instance_name_match v \<and> v \<notin> set RESERVED_INSTANCE_NAMES"
  by (auto simp: require_instance_name_def bindE_Inr_iff)

lemma path_metachars_ok_iff:
  "require_no_path_metachars v = Inr () \<longleftrightarrow>
     CHR ''/'' \<notin> set v \<and> v \<noteq> ''..'' \<and> CHR 0x00 \<notin> set v \<and> newline \<notin> set v"
  by (auto simp: require_no_path_metachars_def bindE_Inr_iff py_split_free)

lemma name_chars_safe:
  assumes "name_char c"
  shows "shell_safe c \<and> c \<noteq> CHR ''/'' \<and> c \<noteq> newline"
proof -
  have "list_all (\<lambda>c. shell_safe c \<and> c \<noteq> CHR ''/'' \<and> c \<noteq> newline)
      (lower_letters @ digit_chars @ ''_-'')"
    by code_simp
  with assms show ?thesis
    by (auto simp: name_char_def name_start_def list_all_iff)
qed

end
