(* ===== verification/Wire.thy ===== *)
theory Wire
  imports Dispatch_Ops
begin

text \<open>
  The wire forms of the ops whose operands only the operator side can resolve
  (\<open>src/src/core/dispatch.py\<close>): the compose ops and \<open>fwd\<close>. The producer resolves the registry entry,
  the instance configuration and the IPAM ledger and emits named flags; the parser, which the
  dispatcher binary mirrors, reads them back.
\<close>

section \<open>The contract of a wire form\<close>

locale wire_codec =
  fixes encode :: "'t \<Rightarrow> string list"
    and decode :: "string list \<Rightarrow> 'e + 't"
    and sendable :: "'t \<Rightarrow> bool"
  assumes decode_encode: "sendable t \<Longrightarrow> decode (encode t) = Inr t"
begin

lemma encode_inject: "sendable t \<Longrightarrow> sendable u \<Longrightarrow> encode t = encode u \<Longrightarrow> t = u"
  using decode_encode by (metis sum.inject(2))

lemma decode_accepts: "sendable t \<Longrightarrow> is_ok (decode (encode t))"
  by (simp add: decode_encode)

end

section \<open>Operator-side state\<close>

text \<open>What the resolver reads: the host, the registry file, the parsed TOML files by path, the field
  validation of the configuration model, and the IPAM ledger.\<close>

record dispatch_env =
  d_host :: host_env
  d_registry :: "json json_file"
  d_toml :: "string \<Rightarrow> (string \<times> json) list option"
  d_validate_fields :: "(string \<times> json) list \<Rightarrow> instance_config option"
  d_ipam :: ipam_state

definition load_instance_config :: "dispatch_env \<Rightarrow> string \<Rightarrow> dispatch_error + instance_config" where
  "load_instance_config env path =
     (case d_toml env path of
        None \<Rightarrow> Inl TomlReadError
      | Some raw \<Rightarrow>
          (case from_toml (d_validate_fields env) raw of
             Inl e \<Rightarrow> Inl (ConfigFault e)
           | Inr c \<Rightarrow> Inr c))"

definition project_name_for :: "dispatch_env \<Rightarrow> string \<Rightarrow> dispatch_error + string" where
  "project_name_for env inst =
     (case compose_project_name inst (getuser (d_host env)) of
        Inl e \<Rightarrow> Inl (ComposeFault e)
      | Inr p \<Rightarrow> Inr p)"

definition compose_files_for :: "string \<Rightarrow> instance_config \<Rightarrow> string list" where
  "compose_files_for dir config =
     [path_join (path_join dir ''docker'') ''compose.yml''] @
     (if pg_enabled (components_db_postgres config)
      then [path_join (path_join (path_join dir ''docker'') ''extras'') ''db-postgres.yml''] else []) @
     (if mcp_firecrawl (components config)
      then [path_join (path_join (path_join dir ''docker'') ''extras'') ''mcp-firecrawl.yml''] else [])"

definition resolve_compose_state ::
  "dispatch_env \<Rightarrow> string \<Rightarrow> dispatch_error + string \<times> string list \<times> string" where
  "resolve_compose_state env inst =
     (case registry_get inst (d_registry env) of
        None \<Rightarrow> Inl DispatchValidationError
      | Some entry \<Rightarrow>
          (let dir = instance_dir entry in
           bindE (load_instance_config env (path_join dir ''sandbox.toml'')) (\<lambda>config.
           bindE (project_name_for env inst) (\<lambda>project_name.
             Inr (project_name, compose_files_for dir config, path_join dir ''.sandbox.env'')))))"

section \<open>Compose ops\<close>

fun COMPOSE_VERB :: "op \<Rightarrow> string option" where
  "COMPOSE_VERB COMPOSE_UP = Some ''up -d --build --wait''"
| "COMPOSE_VERB COMPOSE_DOWN = Some ''down''"
| "COMPOSE_VERB COMPOSE_PS = Some ''ps --format json''"
| "COMPOSE_VERB _ = None"

definition is_compose_op :: "op \<Rightarrow> bool" where
  "is_compose_op opn = (COMPOSE_VERB opn \<noteq> None)"

type_synonym compose_state = "string \<times> string \<times> string list \<times> bool"

text \<open>The list the producer builds from the resolved state.\<close>

definition compose_wire :: "string \<Rightarrow> compose_state \<Rightarrow> string list" where
  "compose_wire inst = (\<lambda>(project, env_file, files, volumes).
     [inst, ''--project'', project, ''--env-file'', env_file] @
     concat (map (\<lambda>f. [''--compose-file'', f]) files) @ (if volumes then [''--volumes''] else []))"

definition expand_compose_wire ::
  "dispatch_env \<Rightarrow> op \<Rightarrow> string list \<Rightarrow> dispatch_error + string list" where
  "expand_compose_wire env opn args =
     (case args of
        [] \<Rightarrow> Inl UnvalidatedArgs
      | inst # _ \<Rightarrow>
          bindE (resolve_compose_state env inst) (\<lambda>(project_name, files, env_file).
            Inr (compose_wire inst
                   (project_name, env_file, files, opn = COMPOSE_DOWN \<and> length args = 2))))"

record compose_acc =
  acc_project :: "string option"
  acc_env_file :: "string option"
  acc_files :: "string list"
  acc_volumes :: bool

text \<open>The flag loop of the parser.\<close>

fun parse_compose_flags :: "op \<Rightarrow> string list \<Rightarrow> compose_acc \<Rightarrow> dispatch_error + compose_acc" where
  "parse_compose_flags opn [] acc = Inr acc"
| "parse_compose_flags opn (flag # rest) acc =
     (if flag = ''--volumes'' then
        if opn \<noteq> COMPOSE_DOWN then Inl DispatchValidationError
        else if acc_volumes acc then Inl DispatchValidationError
        else parse_compose_flags opn rest (acc\<lparr>acc_volumes := True\<rparr>)
      else case rest of
        [] \<Rightarrow> Inl DispatchValidationError
      | val # rest' \<Rightarrow>
          if flag = ''--project'' then
            if acc_project acc \<noteq> None then Inl DispatchValidationError
            else parse_compose_flags opn rest' (acc\<lparr>acc_project := Some val\<rparr>)
          else if flag = ''--env-file'' then
            if acc_env_file acc \<noteq> None then Inl DispatchValidationError
            else parse_compose_flags opn rest' (acc\<lparr>acc_env_file := Some val\<rparr>)
          else if flag = ''--compose-file'' then
            parse_compose_flags opn rest' (acc\<lparr>acc_files := acc_files acc @ [val]\<rparr>)
          else Inl DispatchValidationError)"

definition parse_compose_wire :: "op \<Rightarrow> string list \<Rightarrow> dispatch_error + compose_state" where
  "parse_compose_wire opn wire =
     (case wire of
        [] \<Rightarrow> Inl DispatchValidationError
      | _ # rest \<Rightarrow>
          bindE (parse_compose_flags opn rest
                   \<lparr>acc_project = None, acc_env_file = None, acc_files = [], acc_volumes = False\<rparr>) (\<lambda>acc.
          (case acc_project acc of
             None \<Rightarrow> Inl DispatchValidationError
           | Some project \<Rightarrow>
               (case acc_env_file acc of
                  None \<Rightarrow> Inl DispatchValidationError
                | Some env_file \<Rightarrow>
                    if acc_files acc = [] then Inl DispatchValidationError
                    else Inr (project, env_file, acc_files acc, acc_volumes acc)))))"

section \<open>The streaming op\<close>

definition resolve_fwd_state :: "dispatch_env \<Rightarrow> string \<Rightarrow> dispatch_error + string \<times> string" where
  "resolve_fwd_state env inst =
     bindE (project_name_for env inst) (\<lambda>project_name.
       case peek_next_slot inst (d_ipam env) of
         Inl e \<Rightarrow> Inl (IpamFault e)
       | Inr (base_index, _) \<Rightarrow>
           (case derive_static_ips base_index of
              Inl e \<Rightarrow> Inl (IpamFault e)
            | Inr ips \<Rightarrow> Inr (project_name, the (map_of ips ''core_ipc_ip''))))"

definition fwd_wire :: "string \<Rightarrow> string \<times> string \<Rightarrow> string list" where
  "fwd_wire inst = (\<lambda>(project, ip). [inst, ''--project'', project, ''--ip'', ip])"

definition expand_fwd_wire :: "dispatch_env \<Rightarrow> string list \<Rightarrow> dispatch_error + string list" where
  "expand_fwd_wire env args =
     (case args of
        [] \<Rightarrow> Inl UnvalidatedArgs
      | inst # _ \<Rightarrow> bindE (resolve_fwd_state env inst) (\<lambda>st. Inr (fwd_wire inst st)))"

fun parse_fwd_flags ::
  "string list \<Rightarrow> string option \<times> string option \<Rightarrow> dispatch_error + string option \<times> string option" where
  "parse_fwd_flags [] acc = Inr acc"
| "parse_fwd_flags [flag] acc = Inl DispatchValidationError"
| "parse_fwd_flags (flag # val # rest) (project, ip) =
     (if flag = ''--project'' then
        if project \<noteq> None then Inl DispatchValidationError
        else parse_fwd_flags rest (Some val, ip)
      else if flag = ''--ip'' then
        if ip \<noteq> None then Inl DispatchValidationError
        else parse_fwd_flags rest (project, Some val)
      else Inl DispatchValidationError)"

definition parse_fwd_wire :: "string list \<Rightarrow> dispatch_error + string \<times> string" where
  "parse_fwd_wire wire =
     (case wire of
        [] \<Rightarrow> Inl DispatchValidationError
      | _ # rest \<Rightarrow>
          bindE (parse_fwd_flags rest (None, None)) (\<lambda>acc.
            case acc of
              (Some project, Some ip) \<Rightarrow> Inr (project, ip)
            | _ \<Rightarrow> Inl DispatchValidationError))"

section \<open>Lemmas\<close>

lemma parse_compose_files:
  "parse_compose_flags opn (concat (map (\<lambda>f. [''--compose-file'', f]) fs) @ rest) acc =
   parse_compose_flags opn rest (acc\<lparr>acc_files := acc_files acc @ fs\<rparr>)"
  by (induction fs arbitrary: acc) simp_all

definition compose_sendable :: "op \<Rightarrow> compose_state \<Rightarrow> bool" where
  "compose_sendable opn = (\<lambda>(project, env_file, files, volumes). files \<noteq> [] \<and> (volumes \<longrightarrow> opn = COMPOSE_DOWN))"

interpretation compose: wire_codec "compose_wire inst" "parse_compose_wire opn" "compose_sendable opn"
  for inst opn
  by unfold_locales
    (auto simp: compose_sendable_def compose_wire_def parse_compose_wire_def parse_compose_files split: prod.splits)

interpretation fwd: wire_codec "fwd_wire inst" parse_fwd_wire "\<lambda>_. True" for inst
  by unfold_locales (auto simp: fwd_wire_def parse_fwd_wire_def)

lemma compose_files_for_nonempty [simp]: "compose_files_for dir config \<noteq> []"
  by (simp add: compose_files_for_def)

lemma expand_compose_wire_parses:
  assumes "expand_compose_wire env opn args = Inr wire"
  obtains inst project files env_file where
    "hd args = inst" "resolve_compose_state env inst = Inr (project, files, env_file)"
    "wire = compose_wire inst (project, env_file, files, opn = COMPOSE_DOWN \<and> length args = 2)"
    "parse_compose_wire opn wire = Inr (project, env_file, files, opn = COMPOSE_DOWN \<and> length args = 2)"
proof -
  from assms obtain inst rest project files env_file where *:
    "args = inst # rest" "resolve_compose_state env inst = Inr (project, files, env_file)"
    "wire = compose_wire inst (project, env_file, files, opn = COMPOSE_DOWN \<and> length args = 2)"
    by (auto simp: expand_compose_wire_def bindE_Inr_iff split: list.splits)
  then have "files \<noteq> []"
    by (auto simp: resolve_compose_state_def bindE_Inr_iff Let_def split: option.splits)
  with * show ?thesis
    by (auto intro!: that compose.decode_encode simp: compose_sendable_def)
qed

end
