(* ===== verification/Dispatch.thy ===== *)
theory Dispatch
  imports Wire
begin

text \<open>
  Target-argv construction and the boundary-crossing argv of \<open>src/src/core/dispatch.py\<close>, with the
  hardened \<open>docker run\<close> line of \<open>src/src/core/helper_container.py\<close>. In separate-user mode the op
  crosses as one quoted payload word that names the dispatcher binary; in operator-rootless mode the
  target argv runs directly.
\<close>

section \<open>Octal modes\<close>

text \<open>\<open>int(s, 8)\<close> and \<open>format(n, '04o')\<close>.\<close>

definition octal_digits_value :: "string \<Rightarrow> nat" where
  "octal_digits_value ds = foldl (\<lambda>n c. 8 * n + digit_value c) 0 ds"

definition drop_octal_prefix :: "string \<Rightarrow> string" where
  "drop_octal_prefix s =
     (if prefix ''0o'' s \<or> prefix ''0O'' s
      then (if prefix ''_'' (drop 2 s) then drop 3 s else drop 2 s) else s)"

definition octal_body :: "string \<Rightarrow> int option" where
  "octal_body t =
     (case strip_underscores (drop_octal_prefix t) of
        None \<Rightarrow> None
      | Some ds \<Rightarrow> if list_all octal_digit ds then Some (int (octal_digits_value ds)) else None)"

definition py_int_base8 :: "string \<Rightarrow> int option" where
  "py_int_base8 s =
     (case py_strip s of
        [] \<Rightarrow> None
      | c # r \<Rightarrow>
          if c = CHR ''-'' then map_option uminus (octal_body r)
          else if c = CHR ''+'' then octal_body r
          else octal_body (c # r))"

fun oct_str :: "nat \<Rightarrow> string" where
  "oct_str n = (if n < 8 then [digit_of n] else oct_str (n div 8) @ [digit_of (n mod 8)])"

declare oct_str.simps [simp del]

definition format_04o :: "int \<Rightarrow> string" where
  "format_04o n =
     (let body = oct_str (nat \<bar>n\<bar>) in
      if n < 0 then ''-'' @ replicate (3 - length body) CHR ''0'' @ body
      else replicate (4 - length body) CHR ''0'' @ body)"

section \<open>Target argv builders\<close>

definition bash_c :: "string \<Rightarrow> string list" where
  "bash_c inner = [''/bin/bash'', ''-c'', inner]"

definition compose_env_prefix :: "string \<Rightarrow> string" where
  "compose_env_prefix project =
     ''TERM=dumb NO_COLOR=1 BUILDKIT_PROGRESS=plain COMPOSE_PROJECT_NAME='' @ project"

definition compose_inner :: "op \<Rightarrow> compose_state \<Rightarrow> string" where
  "compose_inner opn = (\<lambda>(project, env_file, compose_files, volumes).
     (let files_str = py_join '' '' (map (\<lambda>f. ''-f '' @ f) compose_files);
          verb = (if opn = COMPOSE_DOWN \<and> volumes then ''down -v'' else the (COMPOSE_VERB opn))
      in if opn = COMPOSE_PS
         then compose_env_prefix project @ '' docker compose '' @ files_str @
              '' --env-file '' @ env_file @ '' --ansi never '' @ verb
         else compose_env_prefix project @ '' docker compose '' @ files_str @
              '' --ansi never --env-file '' @ env_file @ '' '' @ verb))"

definition build_compose_wire_argv :: "op \<Rightarrow> string list \<Rightarrow> dispatch_error + string list" where
  "build_compose_wire_argv opn wire =
     bindE (parse_compose_wire opn wire) (\<lambda>st.
       if COMPOSE_VERB opn = None then Inl UnvalidatedArgs else Inr (bash_c (compose_inner opn st)))"

definition AUTH_PROBE_INNER :: string where
  "AUTH_PROBE_INNER = ''echo ok''"

definition COMPOSE_LS_INNER :: string where
  "COMPOSE_LS_INNER = ''docker compose ls --format json --all''"

definition DOCKER_VERSION_INNER :: string where
  "DOCKER_VERSION_INNER =
     ''docker version --format '' @ [CHR 0x27] @ ''{{.Server.Version}}'' @ [CHR 0x27]"

definition docker_info_inner :: "string \<Rightarrow> dispatch_error + string" where
  "docker_info_inner preset =
     (case map_of DOCKER_INFO_PRESETS preset of
        None \<Rightarrow> Inl UnvalidatedArgs
      | Some fmt \<Rightarrow> Inr (''docker info --format '' @ [CHR 0x27] @ fmt @ [CHR 0x27]))"

definition PREFLIGHT_QUERY_MARKER_PREFIX :: string where
  "PREFLIGHT_QUERY_MARKER_PREFIX = ''__PREFLIGHT_Q_''"

definition PREFLIGHT_RC_MARKER_PREFIX :: string where
  "PREFLIGHT_RC_MARKER_PREFIX = ''__PREFLIGHT_RC_''"

definition preflight_query_segments :: "(string \<times> string) list" where
  "preflight_query_segments =
     [(op_value AUTH_PROBE, AUTH_PROBE_INNER),
      (op_value DOCKER_VERSION, DOCKER_VERSION_INNER),
      (''docker-info-security-options'',
         ''docker info --format '' @ [CHR 0x27] @ ''{{.SecurityOptions}}'' @ [CHR 0x27]),
      (''docker-info-runtimes'',
         ''docker info --format '' @ [CHR 0x27] @ ''{{json .Runtimes}}'' @ [CHR 0x27]),
      (op_value COMPOSE_LS, COMPOSE_LS_INNER)]"

definition preflight_inner :: string where
  "preflight_inner =
     py_join '' ; ''
       (map (\<lambda>(name, inner).
          ''echo '' @ PREFLIGHT_QUERY_MARKER_PREFIX @ ''${__PFNONCE}_'' @ name @ ''__; '' @ inner @
          '' 2>&1; echo '' @ PREFLIGHT_RC_MARKER_PREFIX @ ''${__PFNONCE}_'' @ name @ ''_$?__'')
        preflight_query_segments)"

definition hardened_docker_run :: "string \<Rightarrow> string \<Rightarrow> string \<Rightarrow> string" where
  "hardened_docker_run img parent inner_sh =
     ''docker run --rm --runtime=runc --network=none --read-only --tmpfs /tmp --user 0:0 '' @
     ''--cap-drop ALL --cap-add CHOWN --cap-add DAC_OVERRIDE '' @
     ''--security-opt no-new-privileges:true '' @
     ''-v '' @ shlex_quote parent @ '':/p '' @ shlex_quote img @ '' sh -c '' @ shlex_quote inner_sh"

definition dollar_var :: "string \<Rightarrow> string \<Rightarrow> string" where
  "dollar_var dir v = dir @ [CHR 0x22] @ ''$'' @ v @ [CHR 0x22]"

definition busybox_image :: string where
  "busybox_image = pinned (the (map_of IMAGE_REGISTRY ''busybox_musl''))"

definition chown_files_inner :: "string \<Rightarrow> string \<Rightarrow> string \<Rightarrow> string list \<Rightarrow> string" where
  "chown_files_inner mode_octal uid gid files =
     (let p = dollar_var ''/p/'' ''f''; t = dollar_var ''/tmp/'' ''f'' in
      ''set -e; for f in '' @ py_join '' '' (map shlex_quote files) @ ''; do '' @
      ''cp '' @ p @ '' '' @ t @ '' && '' @
      ''unlink '' @ p @ '' && '' @
      ''cp '' @ t @ '' '' @ p @ '' && '' @
      ''chmod '' @ mode_octal @ '' '' @ p @ '' && '' @
      ''chown '' @ uid @ '':'' @ gid @ '' '' @ p @ ''; done'')"

definition mkdir_dirs_inner :: "string \<Rightarrow> string \<Rightarrow> string list \<Rightarrow> string" where
  "mkdir_dirs_inner uid gid leaves =
     (let d = dollar_var ''/p/'' ''d'' in
      ''set -e; for d in '' @ py_join '' '' (map shlex_quote leaves) @ ''; do '' @
      ''mkdir -p '' @ d @ '' && chown '' @ uid @ '':'' @ gid @ '' '' @ d @ ''; done'')"

definition build_helper_chown_files :: "string list \<Rightarrow> dispatch_error + string list" where
  "build_helper_chown_files args =
     (case args of
        parent # mode # uid # gid # files \<Rightarrow>
          (case py_int_base8 mode of
             None \<Rightarrow> Inl UnvalidatedArgs
           | Some m \<Rightarrow> Inr (bash_c (hardened_docker_run busybox_image parent
                               (chown_files_inner (format_04o m) uid gid files))))
      | _ \<Rightarrow> Inl UnvalidatedArgs)"

definition build_helper_mkdir_chown_dirs :: "string list \<Rightarrow> dispatch_error + string list" where
  "build_helper_mkdir_chown_dirs args =
     (case args of
        parent # uid # gid # leaves \<Rightarrow>
          Inr (bash_c (hardened_docker_run busybox_image parent (mkdir_dirs_inner uid gid leaves)))
      | _ \<Rightarrow> Inl UnvalidatedArgs)"

definition build_docker_info :: "string list \<Rightarrow> dispatch_error + string list" where
  "build_docker_info args =
     (case args of
        [] \<Rightarrow> Inl UnvalidatedArgs
      | preset # _ \<Rightarrow> bindE (docker_info_inner preset) (\<lambda>inner. Inr (bash_c inner)))"

definition build_docker_manifest_inspect :: "string list \<Rightarrow> dispatch_error + string list" where
  "build_docker_manifest_inspect args =
     (case args of
        [] \<Rightarrow> Inl UnvalidatedArgs
      | img # _ \<Rightarrow> Inr (bash_c (''docker manifest inspect '' @ img)))"

definition build_fwd :: "string list \<Rightarrow> dispatch_error + string list" where
  "build_fwd args =
     bindE (parse_fwd_wire args) (\<lambda>(project, ip).
       Inr [''/usr/bin/docker'', ''exec'', ''-i'', project @ ''-admin-1'', ''/fwd'', ip @ '':9999''])"

text \<open>\<open>OP_SPECS[op].build_target_argv\<close>.\<close>

fun build_target_argv :: "op \<Rightarrow> string list \<Rightarrow> dispatch_error + string list" where
  "build_target_argv AUTH_PROBE args = Inr (bash_c AUTH_PROBE_INNER)"
| "build_target_argv COMPOSE_UP args = build_compose_wire_argv COMPOSE_UP args"
| "build_target_argv COMPOSE_DOWN args = build_compose_wire_argv COMPOSE_DOWN args"
| "build_target_argv COMPOSE_PS args = build_compose_wire_argv COMPOSE_PS args"
| "build_target_argv COMPOSE_LS args = Inr (bash_c COMPOSE_LS_INNER)"
| "build_target_argv DOCKER_VERSION args = Inr (bash_c DOCKER_VERSION_INNER)"
| "build_target_argv DOCKER_INFO args = build_docker_info args"
| "build_target_argv DOCKER_MANIFEST_INSPECT args = build_docker_manifest_inspect args"
| "build_target_argv HELPER_CHOWN_FILES args = build_helper_chown_files args"
| "build_target_argv HELPER_MKDIR_CHOWN_DIRS args = build_helper_mkdir_chown_dirs args"
| "build_target_argv PREFLIGHT args = Inr (bash_c preflight_inner)"
| "build_target_argv FWD args = build_fwd args"

section \<open>Crossing argv\<close>

definition DISPATCH_BINARY :: string where
  "DISPATCH_BINARY = ''/usr/local/libexec/sandbox-ai/dispatch''"

definition dispatch_payload :: "string \<Rightarrow> string list \<Rightarrow> string" where
  "dispatch_payload opv wire_args =
     py_rstrip (DISPATCH_BINARY @ '' '' @ opv @ '' '' @ shlex_join wire_args)"

definition sudo_pipe_crossing_argv :: "string \<Rightarrow> string \<Rightarrow> string list" where
  "sudo_pipe_crossing_argv launcher_path user =
     (let post_sudo = drop 1 (sudo_pipe_cmd user) in launcher_path # drop 1 post_sudo)"

text \<open>The mode-dependent tail that \<open>build_invocation\<close> and \<open>proxy_argv\<close> share.\<close>

definition cross_argv ::
  "dispatch_env \<Rightarrow> host_settings \<Rightarrow> op \<Rightarrow> string list \<Rightarrow> dispatch_error + string list" where
  "cross_argv env h opn wire_args =
     (if is_operator_rootless h then build_target_argv opn wire_args
      else let inner = dispatch_payload (op_value opn) wire_args in
        (case resolve_daemon_owner_settings (d_host env) h of
           Inl e \<Rightarrow> Inl (HostFault e)
         | Inr user \<Rightarrow> Inr (sudo_pipe_cmd user @ [''/bin/bash'', ''-c'', inner])))"

definition wire_args_for ::
  "dispatch_env \<Rightarrow> op \<Rightarrow> string list \<Rightarrow> dispatch_error + string list" where
  "wire_args_for env opn args =
     (if is_compose_op opn then expand_compose_wire env opn args else Inr args)"

definition build_invocation ::
  "dispatch_env \<Rightarrow> host_settings \<Rightarrow> op \<Rightarrow> string list \<Rightarrow> dispatch_error + string list" where
  "build_invocation env h opn args =
     bindE (require_framed_op opn) (\<lambda>_.
     bindE (validate_args opn args) (\<lambda>_.
     bindE (wire_args_for env opn args) (\<lambda>wire_args.
       cross_argv env h opn wire_args)))"

definition proxy_argv ::
  "dispatch_env \<Rightarrow> host_settings \<Rightarrow> op \<Rightarrow> string list \<Rightarrow> dispatch_error + string list" where
  "proxy_argv env h opn args =
     bindE (require_streaming_op opn) (\<lambda>_.
     bindE (validate_args opn args) (\<lambda>_.
     bindE (expand_fwd_wire env args) (\<lambda>wire_args.
       cross_argv env h opn wire_args)))"

section \<open>Lemmas: the payload\<close>

lemma dispatch_binary_safe: "list_all shell_safe DISPATCH_BINARY" "DISPATCH_BINARY \<noteq> []"
  by code_simp+

lemma op_value_safe: "list_all shell_safe (op_value opn) \<and> op_value opn \<noteq> []"
proof -
  have "list_all (\<lambda>opn. list_all shell_safe (op_value opn) \<and> op_value opn \<noteq> []) all_ops"
    by code_simp
  moreover have "opn \<in> set all_ops" by (cases opn) (simp_all add: all_ops_def)
  ultimately show ?thesis by (simp add: list_all_iff)
qed

lemma sh_words_safe_single: "s \<noteq> [] \<Longrightarrow> list_all shell_safe s \<Longrightarrow> sh_words s = Some [s]"
  using sh_words_single [of s] by (simp add: shlex_quote_safe)

lemma py_rstrip_last: "s \<noteq> [] \<Longrightarrow> \<not> is_space (last s) \<Longrightarrow> py_rstrip s = s"
  by (cases s rule: rev_cases) (auto simp: py_rstrip_append_nonspace)

lemma safe_last: "s \<noteq> [] \<Longrightarrow> list_all shell_safe s \<Longrightarrow> \<not> is_space (last s)"
  using shell_safe_plain by (auto simp: list_all_iff)

lemma sh_words_payload:
  "sh_words (dispatch_payload (op_value opn) wire) = Some (DISPATCH_BINARY # op_value opn # wire)"
proof (cases "wire = []")
  case True
  have "\<not> is_space (last (DISPATCH_BINARY @ '' '' @ op_value opn))"
    using op_value_safe [of opn] safe_last [of "op_value opn"] by auto
  then have "py_rstrip ((DISPATCH_BINARY @ '' '' @ op_value opn) @ [CHR '' '']) = DISPATCH_BINARY @ '' '' @ op_value opn"
    using op_value_safe [of opn] py_rstrip_append_space [of "CHR '' ''" "DISPATCH_BINARY @ '' '' @ op_value opn"]
    by (simp add: is_space_def py_rstrip_last)
  then show ?thesis
    using True op_value_safe [of opn] dispatch_binary_safe
    by (simp add: dispatch_payload_def shlex_join_def sh_words_safe_Cons sh_words_safe_single)
next
  case False
  then have "py_rstrip (DISPATCH_BINARY @ '' '' @ op_value opn @ '' '' @ shlex_join wire) =
    DISPATCH_BINARY @ '' '' @ op_value opn @ '' '' @ shlex_join wire"
    using shlex_join_last [of wire] by (intro py_rstrip_last) auto
  then show ?thesis
    using op_value_safe [of opn] dispatch_binary_safe
    by (simp add: dispatch_payload_def sh_words_safe_Cons sh_words_join)
qed

section \<open>Lemmas: validated arguments\<close>

lemma validated_compose_args:
  "validate_args opn args = Inr () \<Longrightarrow> is_compose_op opn \<or> opn = FWD \<Longrightarrow>
     \<exists>inst rest. args = inst # rest \<and> require_instance_name inst = Inr ()"
  by (cases opn) (auto simp: validator_defs is_compose_op_def bindE_Inr_iff split: list.splits)

lemma validated_target_builds:
  assumes "validate_args opn args = Inr ()" and "\<not> is_compose_op opn" and "opn \<noteq> FWD"
    and "opn = HELPER_CHOWN_FILES \<Longrightarrow> \<exists>m. py_int_base8 (args ! 1) = Some m"
  shows "is_ok (build_target_argv opn args)"
  using assms
  by (cases opn) (auto simp: validator_defs is_compose_op_def bindE_Inr_iff build_docker_info_def
      docker_info_inner_def build_docker_manifest_inspect_def build_helper_chown_files_def
      build_helper_mkdir_chown_dirs_def split: list.splits)

section \<open>Lemmas: octal modes\<close>

lemma octal_digit_decimal: "octal_digit c \<Longrightarrow> is_decimal c \<and> c \<noteq> CHR ''o'' \<and> c \<noteq> CHR ''O''"
  by (auto simp: octal_digit_def is_decimal_def digit_chars_def)

lemma octal_digits_no_prefix:
  "list_all octal_digit ds \<Longrightarrow> drop_octal_prefix ds = ds"
  by (auto simp: drop_octal_prefix_def prefix_def octal_digit_def)

lemma octal_body_digits:
  assumes "ds \<noteq> []" and "list_all octal_digit ds"
  shows "octal_body ds = Some (int (octal_digits_value ds))"
proof -
  have "list_all is_decimal ds"
    using assms(2) octal_digit_decimal by (auto simp: list_all_iff)
  with assms show ?thesis
    by (simp add: octal_body_def octal_digits_no_prefix strip_underscores_decimal)
qed

lemma octal_strip:
  assumes "ds \<noteq> []" and "list_all octal_digit ds"
  shows "py_strip ds = ds" and "py_strip (ds @ [newline]) = ds"
proof -
  have ends: "\<not> is_space (hd ds)" "\<not> is_space (last ds)"
    using assms octal_digit_decimal decimal_not_space by (auto simp: list_all_iff)
  then show "py_strip ds = ds" using assms(1) by (simp add: py_strip_nonspace_ends)
  have "py_lstrip (ds @ [newline]) = ds @ [newline]"
    using assms(1) ends by (cases ds) (auto simp: py_lstrip_def)
  then show "py_strip (ds @ [newline]) = ds"
    using assms(1) ends by (simp add: py_strip_def py_rstrip_append_space py_rstrip_last)
qed

lemma py_int_base8_digits:
  assumes "ds \<noteq> []" and "list_all octal_digit ds" and "s = ds \<or> s = ds @ [newline]"
  shows "py_int_base8 s = Some (int (octal_digits_value ds))"
proof -
  have strip: "py_strip s = ds" using octal_strip [OF assms(1,2)] assms(3) by auto
  obtain c r where cr: "ds = c # r" using assms(1) by (cases ds) auto
  then have "c \<noteq> CHR ''-'' \<and> c \<noteq> CHR ''+''"
    using assms(2) octal_digit_decimal decimal_not_sign by auto
  then show ?thesis
    using octal_body_digits [OF assms(1,2)] cr by (simp add: py_int_base8_def strip)
qed

lemma mode_octal_value:
  assumes "mode_octal_match v"
  shows "py_int_base8 v = Some (int (octal_digits_value (re_dollar_body v)))"
  using assms re_dollar_body_cases [of v]
  by (intro py_int_base8_digits) (auto simp: mode_octal_match_def)

lemma octal_digits_value_snoc: "octal_digits_value (s @ [c]) = 8 * octal_digits_value s + digit_value c"
  by (simp add: octal_digits_value_def)

lemma octal_digit_digit_of: "n < 8 \<Longrightarrow> octal_digit (digit_of n)"
proof -
  assume "n < 8"
  then have "n \<in> {0, 1, 2, 3, 4, 5, 6, 7}" by auto
  then show ?thesis by (auto simp: octal_digit_def digit_of_def digit_chars_def)
qed

lemma oct_str_facts: "octal_digits_value (oct_str n) = n \<and> list_all octal_digit (oct_str n) \<and> oct_str n \<noteq> []"
proof (induction n rule: oct_str.induct)
  case (1 n)
  show ?case
  proof (cases "n < 8")
    case True
    then show ?thesis
      by (simp add: oct_str.simps [of n] octal_digits_value_def digit_value_digit_of octal_digit_digit_of)
  next
    case False
    with 1 show ?thesis
      by (simp add: oct_str.simps [of n] octal_digits_value_snoc digit_value_digit_of octal_digit_digit_of)
  qed
qed

lemma octal_digits_value_zeros: "octal_digits_value (replicate k CHR ''0'' @ ds) = octal_digits_value ds"
  by (induction k) (simp_all add: octal_digits_value_def digit_value_def)

lemma length_oct_str: "n < 8 ^ k \<Longrightarrow> 0 < k \<Longrightarrow> length (oct_str n) \<le> k"
proof (induction k arbitrary: n)
  case (Suc k)
  show ?case
  proof (cases "n < 8")
    case True
    then show ?thesis by (simp add: oct_str.simps [of n])
  next
    case False
    with Suc.prems(1) have "0 < k" by (cases k) auto
    moreover have "n div 8 < 8 ^ k" using Suc.prems(1) by (simp add: less_mult_imp_div_less mult.commute)
    ultimately show ?thesis using Suc.IH False by (simp add: oct_str.simps [of n])
  qed
qed simp

lemma format_04o_mode:
  assumes "0 \<le> m" and "m < 4096"
  shows "length (format_04o m) = 4 \<and> list_all octal_digit (format_04o m) \<and>
    octal_digits_value (format_04o m) = nat m"
proof -
  have "length (oct_str (nat m)) \<le> 4"
    using assms by (intro length_oct_str) auto
  moreover have "list_all octal_digit (replicate k CHR ''0'')" for k
    by (induction k) (auto simp: octal_digit_def)
  ultimately show ?thesis
    using assms(1) oct_str_facts [of "nat m"]
    by (simp add: format_04o_def Let_def octal_digits_value_zeros)
qed

lemma octal_digit_value:
  assumes "octal_digit c"
  shows "digit_of (digit_value c) = c \<and> digit_value c < 8"
proof -
  have "list_all (\<lambda>c. digit_of (digit_value c) = c \<and> digit_value c < 8) ''01234567''" by code_simp
  with assms show ?thesis unfolding octal_digit_def list_all_iff by blast
qed

lemma octal_digits_value_inject:
  "length a = length b \<Longrightarrow> list_all octal_digit a \<Longrightarrow> list_all octal_digit b \<Longrightarrow>
     octal_digits_value a = octal_digits_value b \<Longrightarrow> a = b"
proof (induction a arbitrary: b rule: rev_induct)
  case (snoc x a)
  then obtain y b' where b: "b = b' @ [y]" by (cases b rule: rev_cases) auto
  have xy: "octal_digit x" "octal_digit y" using snoc.prems b by auto
  note lt = octal_digit_value [OF xy(1)] octal_digit_value [OF xy(2)]
  have eq: "8 * octal_digits_value a + digit_value x = 8 * octal_digits_value b' + digit_value y"
    using snoc.prems(4) b by (simp add: octal_digits_value_snoc)
  have vals: "octal_digits_value a = octal_digits_value b'" "digit_value x = digit_value y"
    using eq lt [THEN conjunct2] by presburger+
  have "x = y"
    using vals(2) lt by metis
  moreover have "a = b'" using snoc.prems b vals by (intro snoc.IH) auto
  ultimately show ?case using b by simp
qed simp

lemma octal_digits_value_bound:
  "list_all octal_digit ds \<Longrightarrow> octal_digits_value ds < 8 ^ length ds"
proof (induction ds rule: rev_induct)
  case (snoc x ds)
  then have "octal_digits_value ds + 1 \<le> 8 ^ length ds" "digit_value x < 8"
    using octal_digit_value by auto
  then show ?case by (simp add: octal_digits_value_snoc)
qed (simp add: octal_digits_value_def)

lemma format_04o_value:
  assumes "length ds = 4" and "list_all octal_digit ds"
  shows "format_04o (int (octal_digits_value ds)) = ds"
proof -
  have "octal_digits_value ds < 4096"
    using octal_digits_value_bound [OF assms(2)] assms(1) by simp
  then show ?thesis
    using format_04o_mode [of "int (octal_digits_value ds)"] assms
    by (intro octal_digits_value_inject) auto
qed

lemma octal_no_newline: "list_all octal_digit s \<Longrightarrow> re_dollar_body s = s"
proof -
  assume all: "list_all octal_digit s"
  have "\<not> octal_digit newline" by (simp add: octal_digit_def newline_def)
  with all have "s \<noteq> [] \<Longrightarrow> last s \<noteq> newline" by (metis last_in_set list_all_iff)
  then show ?thesis by (auto simp: re_dollar_body_def)
qed

section \<open>Lemmas: command lines\<close>

lemma sh_read_safe_word_start:
  "list_all shell_safe s \<Longrightarrow> s \<noteq> [] \<Longrightarrow> sh_read Between (s @ CHR '' '' # r) = map_option (\<lambda>ws. s # ws) (sh_read Between r)"
  by (simp add: sh_read_safe_start)

text \<open>Reading a list of safe words that blanks separate.\<close>

lemma sh_words_plain:
  "list_all (\<lambda>w. w \<noteq> [] \<and> list_all shell_safe w) ws \<Longrightarrow>
     sh_words (concat (map (\<lambda>w. w @ '' '') ws) @ r) = map_option (\<lambda>vs. ws @ vs) (sh_words r)"
  by (cases "sh_words r"; induction ws) (simp_all add: sh_words_safe_Cons)

lemma sh_words_plain_all:
  assumes "list_all (\<lambda>w. w \<noteq> [] \<and> list_all shell_safe w) ws" and "ws \<noteq> []"
  shows "sh_words (py_join '' '' ws) = Some ws"
proof -
  have "map shlex_quote ws = ws"
    using assms(1) by (auto simp: list_all_iff shlex_quote_safe intro!: map_idI)
  then show ?thesis using sh_words_join [of ws] by (simp add: shlex_join_def)
qed

definition hardened_flags :: "string list" where
  "hardened_flags = [''docker'', ''run'', ''--rm'', ''--runtime=runc'', ''--network=none'', ''--read-only'',
     ''--tmpfs'', ''/tmp'', ''--user'', ''0:0'', ''--cap-drop'', ''ALL'', ''--cap-add'', ''CHOWN'',
     ''--cap-add'', ''DAC_OVERRIDE'', ''--security-opt'', ''no-new-privileges:true'', ''-v'']"

lemma hardened_flags_safe: "list_all (\<lambda>w. w \<noteq> [] \<and> list_all shell_safe w) hardened_flags"
  by code_simp

lemma hardened_docker_run_flags:
  "hardened_docker_run img parent inner_sh =
     concat (map (\<lambda>w. w @ '' '') hardened_flags) @
     shlex_quote parent @ '':/p '' @ shlex_quote img @ '' sh -c '' @ shlex_quote inner_sh"
  by (simp add: hardened_docker_run_def hardened_flags_def)

lemma sh_words_hardened_docker_run:
  "sh_words (hardened_docker_run img parent inner_sh) =
     Some (hardened_flags @ [parent @ '':/p'', img, ''sh'', ''-c'', inner_sh])"
proof -
  have safe: "list_all shell_safe '':/p''" "list_all shell_safe ''sh''" "list_all shell_safe ''-c''"
    by code_simp+
  have "sh_read (InWord (rev parent)) ('':/p'' @ CHR '' '' # r) =
      map_option (\<lambda>ws. (parent @ '':/p'') # ws) (sh_words r)" for r
    unfolding sh_read_safe [OF safe(1)] by (simp add: sh_words_def)
  then have vol: "sh_words (shlex_quote parent @ '':/p '' @ r) =
      map_option (\<lambda>ws. (parent @ '':/p'') # ws) (sh_words r)" for r
    by (simp add: sh_words_def sh_read_quote)
  have shc: "sh_words (''sh -c '' @ shlex_quote inner_sh) = Some [''sh'', ''-c'', inner_sh]"
    using sh_words_plain [of "[''sh'', ''-c'']" "shlex_quote inner_sh"] safe(2,3) by (simp add: sh_words_single)
  have img: "sh_words (shlex_quote img @ '' sh -c '' @ shlex_quote inner_sh) = Some [img, ''sh'', ''-c'', inner_sh]"
    using sh_words_quote_Cons [of img "''sh -c '' @ shlex_quote inner_sh"] shc by simp
  show ?thesis
    unfolding hardened_docker_run_flags sh_words_plain [OF hardened_flags_safe] vol img by simp
qed

lemma py_join_append:
  "xs \<noteq> [] \<Longrightarrow> ys \<noteq> [] \<Longrightarrow> py_join sep (xs @ ys) = py_join sep xs @ sep @ py_join sep ys"
proof (induction sep xs rule: py_join.induct)
  case (2 sep x)
  then show ?case by (cases ys) auto
qed auto

lemma py_join_flagged:
  "py_join '' '' (map (\<lambda>f. ''-f '' @ f) fs) = py_join '' '' (concat (map (\<lambda>f. [''-f'', f]) fs))"
proof (induction fs)
  case (Cons f fs)
  then show ?case by (cases fs) auto
qed simp

fun verb_words :: "op \<Rightarrow> bool \<Rightarrow> string list" where
  "verb_words COMPOSE_UP v = [''up'', ''-d'', ''--build'', ''--wait'']"
| "verb_words COMPOSE_DOWN v = (if v then [''down'', ''-v''] else [''down''])"
| "verb_words COMPOSE_PS v = [''ps'', ''--format'', ''json'']"
| "verb_words _ v = []"

definition compose_words :: "op \<Rightarrow> compose_state \<Rightarrow> string list" where
  "compose_words opn = (\<lambda>(project, env_file, files, volumes).
     [''TERM=dumb'', ''NO_COLOR=1'', ''BUILDKIT_PROGRESS=plain'', ''COMPOSE_PROJECT_NAME='' @ project,
      ''docker'', ''compose''] @
     concat (map (\<lambda>f. [''-f'', f]) files) @
     (if opn = COMPOSE_PS then [''--env-file'', env_file, ''--ansi'', ''never'']
      else [''--ansi'', ''never'', ''--env-file'', env_file]) @
     verb_words opn volumes)"

lemma compose_inner_join:
  assumes "is_compose_op opn" and "fs \<noteq> []"
  shows "compose_inner opn (p, e, fs, v) = py_join '' '' (compose_words opn (p, e, fs, v))"
proof -
  have F: "concat (map (\<lambda>f. [''-f'', f]) fs) \<noteq> []" using assms(2) by (cases fs) auto
  have j: "py_join '' '' (A @ concat (map (\<lambda>f. [''-f'', f]) fs) @ B) =
      py_join '' '' A @ '' '' @ py_join '' '' (map (\<lambda>f. ''-f '' @ f) fs) @ '' '' @ py_join '' '' B"
    if "A \<noteq> []" "B \<noteq> []" for A B
    using that F unfolding py_join_flagged
    by (subst py_join_append, simp, simp, subst py_join_append, simp_all)
  have verb: "py_join '' '' (verb_words opn v) = (if opn = COMPOSE_DOWN \<and> v then ''down -v'' else the (COMPOSE_VERB opn))"
    "verb_words opn v \<noteq> []"
    using assms(1) by (cases opn; simp add: is_compose_op_def)+
  have eta: "map ((@) ''-f '') fs = map (\<lambda>f. CHR ''-'' # CHR ''f'' # CHR '' '' # f) fs"
    by (rule map_cong) simp_all
  show ?thesis
    unfolding compose_words_def prod.case
    apply (subst j)
    subgoal by simp
    subgoal by simp
    subgoal
      using verb by (simp add: compose_inner_def compose_env_prefix_def py_join_append eta)
    done
qed

lemma compose_words_plain:
  assumes "is_compose_op opn" and "list_all shell_safe p"
    and "e \<noteq> []" "list_all shell_safe e" and "\<forall>f \<in> set fs. f \<noteq> [] \<and> list_all shell_safe f"
  shows "list_all (\<lambda>w. w \<noteq> [] \<and> list_all shell_safe w) (compose_words opn (p, e, fs, v))"
proof -
  have const: "list_all (\<lambda>w. w \<noteq> [] \<and> list_all shell_safe w)
      [''TERM=dumb'', ''NO_COLOR=1'', ''BUILDKIT_PROGRESS=plain'', ''COMPOSE_PROJECT_NAME='', ''docker'',
       ''compose'', ''-f'', ''--env-file'', ''--ansi'', ''never'', ''up'', ''-d'', ''--build'', ''--wait'',
       ''down'', ''-v'', ''ps'', ''--format'', ''json'']"
    by code_simp
  show ?thesis
    using assms const
    by (cases opn) (simp_all add: compose_words_def is_compose_op_def list_all_iff)
qed

section \<open>Lemmas: error kinds\<close>

lemma parse_compose_flags_error: "parse_compose_flags opn rest acc = Inl e \<Longrightarrow> e = DispatchValidationError"
  by (induction opn rest acc rule: parse_compose_flags.induct) (auto split: if_splits list.splits)

lemma parse_fwd_flags_error: "parse_fwd_flags rest acc = Inl e \<Longrightarrow> e = DispatchValidationError"
  by (induction rest acc rule: parse_fwd_flags.induct) (auto split: if_splits)

lemma parse_compose_wire_error: "parse_compose_wire opn wire = Inl e \<Longrightarrow> e = DispatchValidationError"
  by (auto simp: parse_compose_wire_def bindE_Inl_iff dest: parse_compose_flags_error
      split: list.splits option.splits if_splits)

lemma parse_fwd_wire_error: "parse_fwd_wire wire = Inl e \<Longrightarrow> e = DispatchValidationError"
  by (auto simp: parse_fwd_wire_def bindE_Inl_iff dest: parse_fwd_flags_error
      split: list.splits option.splits if_splits)

lemma build_target_error:
  "build_target_argv opn wire = Inl e \<Longrightarrow>
     e = DispatchValidationError \<or> e = UnvalidatedArgs \<and> \<not> is_compose_op opn \<and> opn \<noteq> FWD"
  by (cases opn) (auto simp: build_compose_wire_argv_def build_fwd_def bindE_Inl_iff is_compose_op_def
      build_docker_info_def docker_info_inner_def build_docker_manifest_inspect_def
      build_helper_chown_files_def build_helper_mkdir_chown_dirs_def
      dest: parse_compose_wire_error parse_fwd_wire_error split: list.splits option.splits if_splits)

lemma resolve_errors:
  "resolve_compose_state env inst = Inl e \<Longrightarrow> e \<noteq> UnvalidatedArgs \<and> e \<noteq> StreamingOpError"
  "resolve_fwd_state env inst = Inl e \<Longrightarrow> e \<noteq> UnvalidatedArgs \<and> e \<noteq> StreamingOpError"
  by (auto simp: resolve_compose_state_def resolve_fwd_state_def load_instance_config_def
      project_name_for_def bindE_Inl_iff Let_def split: option.splits sum.splits)

lemma wire_args_errors:
  assumes "validate_args opn args = Inr ()"
  shows "wire_args_for env opn args = Inl e \<Longrightarrow> e \<noteq> UnvalidatedArgs \<and> e \<noteq> StreamingOpError"
    and "opn = FWD \<Longrightarrow> expand_fwd_wire env args = Inl e \<Longrightarrow> e \<noteq> UnvalidatedArgs \<and> e \<noteq> StreamingOpError"
  using validated_compose_args [OF assms]
  by (auto simp: wire_args_for_def expand_compose_wire_def expand_fwd_wire_def bindE_Inl_iff
      dest: resolve_errors split: if_splits list.splits)

lemma validated_chown_mode:
  "validate_args HELPER_CHOWN_FILES args = Inr () \<Longrightarrow> \<exists>m. py_int_base8 (args ! 1) = Some m"
  by (auto simp: validator_defs bindE_Inr_iff require_octal_mode_def mode_octal_value split: list.splits)

lemma cross_errors:
  assumes "validate_args opn args = Inr ()"
    and "wire_args_for env opn args = Inr wire \<or> opn = FWD \<and> expand_fwd_wire env args = Inr wire"
    and "cross_argv env h opn wire = Inl e"
  shows "e \<noteq> UnvalidatedArgs \<and> e \<noteq> StreamingOpError"
proof (cases "is_operator_rootless h")
  case True
  with assms(3) have b: "build_target_argv opn wire = Inl e" by (simp add: cross_argv_def)
  have "is_compose_op opn \<or> opn = FWD" if "e = UnvalidatedArgs"
  proof (rule ccontr)
    assume n: "\<not> ?thesis"
    with assms(2) have "wire = args" by (simp add: wire_args_for_def)
    with n b validated_target_builds [OF assms(1)] validated_chown_mode assms(1) show False by auto
  qed
  with build_target_error [OF b] show ?thesis by auto
next
  case False
  with assms(3) show ?thesis
    by (auto simp: cross_argv_def split: sum.splits)
qed

end
