(* ===== verification/Dispatch_Correct.thy ===== *)
theory Dispatch_Correct
  imports Dispatch
begin

text \<open>
  What the dispatch layer guarantees about the commands it builds: the separate-user crossing carries
  exactly the validated op, the local compose and helper commands reach docker with the intended
  arguments, and no builder meets arguments its validator let through by mistake.
\<close>

section \<open>Samples\<close>

definition sample_config :: instance_config where
  "sample_config = \<lparr>inst_name = ''web'', inst_host_uid = ''1000'', workspaces = [],
     core = default_core_config, runtimes = \<lparr>rt_python = True, rt_typescript = False, rt_rust = False, rt_go = False\<rparr>,
     runtimes_node = \<lparr>node_version = ''22'', nvm_version = ''0.40''\<rparr>,
     components = \<lparr>mcp_firecrawl = False, mcp_puppeteer = False\<rparr>,
     components_db_postgres = default_db_postgres_config, ingress_web_ports = [],
     proxy_whitelist = \<lparr>wl_domains = [], wl_read_only_domains = []\<rparr>\<rparr>"

definition sample_dispatch_env :: "string \<Rightarrow> dispatch_env" where
  "sample_dispatch_env dir =
     \<lparr>d_host = \<lparr>getuser = ''dev'', getpwnam = (\<lambda>_. None), getgrnam = (\<lambda>_. None), getgrall_gids = [],
        subuid_file = None, subgid_file = None\<rparr>,
      d_registry = Doc (JObj [(''web'', JObj [(''instance_dir'', JStr dir), (''created_at'', JStr ''t'')])]),
      d_toml = (\<lambda>_. Some []), d_validate_fields = (\<lambda>_. Some sample_config),
      d_ipam = \<lparr>ipam_file = Absent, ipam_lock = None\<rparr>\<rparr>"

definition sample_settings :: "docker_execution_mode \<Rightarrow> host_settings" where
  "sample_settings m = \<lparr>docker_unprivileged_user = Some ''claude-sandbox'', docker_execution_mode = m,
     workspace_bridge_group = ''sb-ws''\<rparr>"

lemma sample_resolves:
  "resolve_compose_state (sample_dispatch_env ''/s/web'') ''web'' =
     Inr (''dev-web'', [''/s/web/docker/compose.yml'', ''/s/web/docker/extras/db-postgres.yml''],
          ''/s/web/.sandbox.env'')"
  by code_simp

section \<open>Properties\<close>

text \<open>Claim C1: what crosses the privilege boundary in separate-user mode is exactly the typed op. The
  argv is the privileged byte pipe to the configured user followed by one shell payload; the shell reads
  that payload as the dispatcher binary, the op name and the wire arguments, whatever characters the
  arguments contain; the arguments were validated; and for a compose op the dispatcher's parser reads
  back exactly the state the operator side resolved.\<close>

theorem crossing_payload_faithful:
  assumes "build_invocation env h opn args = Inr argv" and "\<not> is_operator_rootless h"
  shows "validate_args opn args = Inr () \<and> \<not> is_streaming_op opn \<and>
    (\<exists>user wire payload. docker_unprivileged_user h = Some user \<and>
       argv = sudo_pipe_cmd user @ [''/bin/bash'', ''-c'', payload] \<and>
       sh_words payload = Some (DISPATCH_BINARY # op_value opn # wire) \<and>
       (\<not> is_compose_op opn \<longrightarrow> wire = args) \<and>
       (is_compose_op opn \<longrightarrow> (\<exists>project files env_file.
          resolve_compose_state env (hd args) = Inr (project, files, env_file) \<and>
          parse_compose_wire opn wire =
            Inr (project, env_file, files, opn = COMPOSE_DOWN \<and> length args = 2))))"
proof -
  from assms(1) obtain wire where framed: "require_framed_op opn = Inr ()"
    and valid: "validate_args opn args = Inr ()" and wire: "wire_args_for env opn args = Inr wire"
    and argv: "cross_argv env h opn wire = Inr argv"
    by (auto simp: build_invocation_def bindE_Inr_iff)
  from argv assms(2) obtain user where user: "docker_unprivileged_user h = Some user"
    and shape: "argv = sudo_pipe_cmd user @ [''/bin/bash'', ''-c'', dispatch_payload (op_value opn) wire]"
    by (auto simp: cross_argv_def is_operator_rootless_def resolve_daemon_owner_settings_def
        split: sum.splits option.splits if_splits)
  have compose: "\<exists>project files env_file. resolve_compose_state env (hd args) = Inr (project, files, env_file) \<and>
      parse_compose_wire opn wire = Inr (project, env_file, files, opn = COMPOSE_DOWN \<and> length args = 2)"
    if "is_compose_op opn"
    using wire that by (auto simp: wire_args_for_def elim!: expand_compose_wire_parses)
  have "\<not> is_compose_op opn \<Longrightarrow> wire = args" using wire by (simp add: wire_args_for_def)
  with framed valid user shape compose show ?thesis
    by (auto simp: require_framed_op_def sh_words_payload split: if_splits)
qed

theorem crossing_payload_faithful_witness:
  "\<exists>argv payload. build_invocation (sample_dispatch_env ''/s/web'') (sample_settings SEPARATE_USER)
       HELPER_MKDIR_CHOWN_DIRS [''/s/web'', ''0'', ''0'', ''a b; $(x)''] = Inr argv \<and>
     argv = sudo_pipe_cmd ''claude-sandbox'' @ [''/bin/bash'', ''-c'', payload] \<and>
     sh_words payload = Some [DISPATCH_BINARY, ''helper-mkdir-chown-dirs'', ''/s/web'', ''0'', ''0'', ''a b; $(x)'']"
proof -
  let ?b = "build_invocation (sample_dispatch_env ''/s/web'') (sample_settings SEPARATE_USER)
       HELPER_MKDIR_CHOWN_DIRS [''/s/web'', ''0'', ''0'', ''a b; $(x)'']"
  have ok: "is_ok ?b" by code_simp
  then obtain argv where b: "?b = Inr argv" by (auto simp: is_ok_iff)
  have mode: "\<not> is_operator_rootless (sample_settings SEPARATE_USER)" by code_simp
  show ?thesis
    using crossing_payload_faithful [OF b mode] b by (auto simp: is_compose_op_def sample_settings_def)
qed

text \<open>Validation is complete for the argv builders. An op's builder never meets arguments it
  cannot use, and the framed and the streaming entrypoint divide the ops between them.\<close>

theorem builders_total_on_validated:
  "build_invocation env h opn args \<noteq> Inl UnvalidatedArgs \<and>
   proxy_argv env h opn args \<noteq> Inl UnvalidatedArgs \<and>
   (build_invocation env h opn args = Inl StreamingOpError \<longleftrightarrow> opn = FWD) \<and>
   (proxy_argv env h opn args = Inl StreamingOpError \<longleftrightarrow> opn \<noteq> FWD)"
proof -
  note errs = wire_args_errors cross_errors validate_error_kind
  have inv: "e \<noteq> UnvalidatedArgs \<and> (e = StreamingOpError \<longleftrightarrow> opn = FWD)"
    if "build_invocation env h opn args = Inl e" for e
    using that errs
    by (fastforce simp: build_invocation_def bindE_Inl_iff require_framed_op_def is_streaming_op_def
        split: if_splits)
  have prox: "e \<noteq> UnvalidatedArgs \<and> (e = StreamingOpError \<longleftrightarrow> opn \<noteq> FWD)"
    if "proxy_argv env h opn args = Inl e" for e
    using that errs
    by (fastforce simp: proxy_argv_def bindE_Inl_iff require_streaming_op_def is_streaming_op_def
        split: if_splits)
  have "build_invocation env h FWD args = Inl StreamingOpError"
    by (simp add: build_invocation_def require_framed_op_def is_streaming_op_def)
  moreover have "opn \<noteq> FWD \<Longrightarrow> proxy_argv env h opn args = Inl StreamingOpError"
    by (simp add: proxy_argv_def require_streaming_op_def is_streaming_op_def)
  ultimately show ?thesis using inv prox by blast
qed

text \<open>In operator-rootless mode a compose op runs exactly the intended command: when the
  project name and the resolved paths hold only characters that need no quoting, the shell reads the
  built line as the environment assignments, one \<open>-f\<close> per compose file, the env file and the op's own
  verb; the destroying \<open>down -v\<close> appears only when the caller asked for volumes.\<close>

theorem compose_local_command:
  assumes "is_operator_rootless h" and "is_compose_op opn"
    and "build_invocation env h opn args = Inr argv"
    and "resolve_compose_state env (hd args) = Inr (project, files, env_file)"
    and "list_all shell_safe project" and "env_file \<noteq> [] \<and> list_all shell_safe env_file"
    and "\<forall>f \<in> set files. f \<noteq> [] \<and> list_all shell_safe f"
  shows "\<exists>line. argv = [''/bin/bash'', ''-c'', line] \<and>
    sh_words line = Some
      ([''TERM=dumb'', ''NO_COLOR=1'', ''BUILDKIT_PROGRESS=plain'', ''COMPOSE_PROJECT_NAME='' @ project,
        ''docker'', ''compose''] @ concat (map (\<lambda>f. [''-f'', f]) files) @
       (if opn = COMPOSE_PS then [''--env-file'', env_file, ''--ansi'', ''never'']
        else [''--ansi'', ''never'', ''--env-file'', env_file]) @
       (if opn = COMPOSE_UP then [''up'', ''-d'', ''--build'', ''--wait'']
        else if opn = COMPOSE_PS then [''ps'', ''--format'', ''json'']
        else if length args = 2 then [''down'', ''-v''] else [''down'']))"
proof -
  define v where "v = (opn = COMPOSE_DOWN \<and> length args = 2)"
  from assms(1-3) obtain wire where wire: "expand_compose_wire env opn args = Inr wire"
    and tgt: "build_target_argv opn wire = Inr argv"
    by (auto simp: build_invocation_def bindE_Inr_iff wire_args_for_def cross_argv_def)
  from wire assms(4) have parse: "parse_compose_wire opn wire = Inr (project, env_file, files, v)"
    by (auto simp: v_def elim!: expand_compose_wire_parses)
  have fs: "files \<noteq> []"
    using assms(4) by (auto simp: resolve_compose_state_def bindE_Inr_iff Let_def split: option.splits)
  have "argv = bash_c (compose_inner opn (project, env_file, files, v))"
    using tgt parse assms(2)
    by (cases opn) (auto simp: is_compose_op_def build_compose_wire_argv_def)
  moreover have "sh_words (compose_inner opn (project, env_file, files, v)) =
      Some (compose_words opn (project, env_file, files, v))"
    unfolding compose_inner_join [OF assms(2) fs]
    using assms by (intro sh_words_plain_all compose_words_plain) (auto simp: compose_words_def)
  ultimately show ?thesis
    using assms(2) by (cases opn) (auto simp: v_def bash_c_def compose_words_def is_compose_op_def)
qed

theorem compose_local_command_witness:
  "\<exists>line. build_invocation (sample_dispatch_env ''/s/web'') (sample_settings OPERATOR_ROOTLESS)
       COMPOSE_DOWN [''web'', ''--volumes''] = Inr [''/bin/bash'', ''-c'', line] \<and>
     sh_words line = Some [''TERM=dumb'', ''NO_COLOR=1'', ''BUILDKIT_PROGRESS=plain'',
       ''COMPOSE_PROJECT_NAME=dev-web'', ''docker'', ''compose'', ''-f'', ''/s/web/docker/compose.yml'',
       ''-f'', ''/s/web/docker/extras/db-postgres.yml'', ''--ansi'', ''never'', ''--env-file'',
       ''/s/web/.sandbox.env'', ''down'', ''-v'']"
proof -
  let ?b = "build_invocation (sample_dispatch_env ''/s/web'') (sample_settings OPERATOR_ROOTLESS)
       COMPOSE_DOWN [''web'', ''--volumes'']"
  have ok: "is_ok ?b" by code_simp
  then obtain argv where b: "?b = Inr argv" by (auto simp: is_ok_iff)
  have mode: "is_operator_rootless (sample_settings OPERATOR_ROOTLESS)" "is_compose_op COMPOSE_DOWN"
    by code_simp+
  have safe: "list_all shell_safe ''dev-web''"
    "''/s/web/.sandbox.env'' \<noteq> [] \<and> list_all shell_safe ''/s/web/.sandbox.env''"
    "\<forall>f \<in> set [''/s/web/docker/compose.yml'', ''/s/web/docker/extras/db-postgres.yml''].
       f \<noteq> [] \<and> list_all shell_safe f"
    by code_simp+
  have res: "resolve_compose_state (sample_dispatch_env ''/s/web'') (hd [''web'', ''--volumes'']) =
     Inr (''dev-web'', [''/s/web/docker/compose.yml'', ''/s/web/docker/extras/db-postgres.yml''],
          ''/s/web/.sandbox.env'')"
    by (simp add: sample_resolves)
  show ?thesis
    using compose_local_command [OF mode b res safe] b by auto
qed

text \<open>The paths are not quoted: an instance directory with a blank in it makes the same
  command name other files, because the shell splits each path at the blank.\<close>

theorem compose_local_command_unquoted:
  "\<exists>line ws. build_invocation (sample_dispatch_env ''/a b'') (sample_settings OPERATOR_ROOTLESS)
       COMPOSE_UP [''web''] = Inr [''/bin/bash'', ''-c'', line] \<and>
     sh_words line = Some ws \<and>
     take 4 (drop 6 ws) = [''-f'', ''/a'', ''b/docker/compose.yml'', ''-f'']"
proof -
  let ?b = "build_invocation (sample_dispatch_env ''/a b'') (sample_settings OPERATOR_ROOTLESS)
       COMPOSE_UP [''web'']"
  have "(case ?b of
      Inr [x, y, line] \<Rightarrow> x = ''/bin/bash'' \<and> y = ''-c'' \<and>
        (case sh_words line of
           Some ws \<Rightarrow> take 4 (drop 6 ws) = [''-f'', ''/a'', ''b/docker/compose.yml'', ''-f'']
         | None \<Rightarrow> False)
    | _ \<Rightarrow> False)"
    by code_simp
  then show ?thesis
    by (auto split: sum.splits list.splits option.splits)
qed

text \<open>The ownership helper runs under the hardening flags on exactly the given files. For
  validated arguments the command is read by the shell as the fixed \<open>docker run\<close> flags, the parent
  mounted at \<open>/p\<close>, the pinned image and one inner script; the loop list of that script is read back as
  the file names, whatever they contain, and its mode is the four octal digits that were given.\<close>

theorem helper_chown_command:
  assumes "validate_args HELPER_CHOWN_FILES (parent # mode # uid # gid # files) = Inr ()"
  shows "\<exists>line loop. build_target_argv HELPER_CHOWN_FILES (parent # mode # uid # gid # files) =
       Inr [''/bin/bash'', ''-c'', line] \<and>
     sh_words line = Some (hardened_flags @ [parent @ '':/p'', busybox_image, ''sh'', ''-c'',
       chown_files_inner (re_dollar_body mode) uid gid files]) \<and>
     prefix (''set -e; for f in '' @ loop @ ''; do '') (chown_files_inner (re_dollar_body mode) uid gid files) \<and>
     sh_words loop = Some files \<and>
     prefix ''/'' parent \<and> ''..'' \<notin> set (py_split CHR ''/'' parent) \<and>
     (\<forall>f \<in> set files. CHR ''/'' \<notin> set f \<and> f \<noteq> ''..'')"
proof -
  from assms have par: "require_absolute_parent parent = Inr ()" and m: "mode_octal_match mode"
    and fs: "forE require_no_path_metachars files = Inr ()"
    by (auto simp: validator_defs bindE_Inr_iff require_octal_mode_def split: list.splits)
  have "py_int_base8 mode = Some (int (octal_digits_value (re_dollar_body mode)))"
    by (rule mode_octal_value [OF m])
  moreover have "format_04o (int (octal_digits_value (re_dollar_body mode))) = re_dollar_body mode"
    using m by (intro format_04o_value) (auto simp: mode_octal_match_def)
  ultimately have build: "build_target_argv HELPER_CHOWN_FILES (parent # mode # uid # gid # files) =
      Inr [''/bin/bash'', ''-c'', hardened_docker_run busybox_image parent
        (chown_files_inner (re_dollar_body mode) uid gid files)]"
    by (simp add: build_helper_chown_files_def bash_c_def)
  have loop: "prefix (''set -e; for f in '' @ shlex_join files @ ''; do '')
      (chown_files_inner (re_dollar_body mode) uid gid files)"
    by (simp add: chown_files_inner_def Let_def shlex_join_def prefix_def)
  have "prefix ''/'' parent \<and> ''..'' \<notin> set (py_split CHR ''/'' parent)"
    using par by (auto simp: require_absolute_parent_def bindE_Inr_iff)
  moreover have "\<forall>f \<in> set files. CHR ''/'' \<notin> set f \<and> f \<noteq> ''..''"
    using fs by (simp add: forE_ok_iff path_metachars_ok_iff)
  ultimately show ?thesis
    using build loop sh_words_hardened_docker_run sh_words_join by blast
qed

theorem helper_chown_command_witness:
  "validate_args HELPER_CHOWN_FILES [''/s'', ''0640'', ''1'', ''2'', ''a'', ''b; rm $x''] = Inr () \<and>
   (\<exists>line loop. build_target_argv HELPER_CHOWN_FILES [''/s'', ''0640'', ''1'', ''2'', ''a'', ''b; rm $x''] =
      Inr [''/bin/bash'', ''-c'', line] \<and> sh_words loop = Some [''a'', ''b; rm $x''])"
proof -
  have v: "validate_args HELPER_CHOWN_FILES [''/s'', ''0640'', ''1'', ''2'', ''a'', ''b; rm $x''] = Inr ()"
    by code_simp
  then show ?thesis using helper_chown_command [OF v] by blast
qed

text \<open>An accepted instance name, up to one trailing newline, is inert everywhere it is used:
  the shell needs no quotes for it, it is a single path component that is not a traversal, it is
  between one and thirty characters long and not reserved.\<close>

theorem instance_name_inert:
  assumes "require_instance_name v = Inr ()"
  shows "(let b = re_dollar_body v in
     (v = b \<or> v = b @ [newline]) \<and> shlex_quote b = b \<and> CHR ''/'' \<notin> set b \<and> b \<noteq> ''.'' \<and> b \<noteq> ''..'' \<and>
     b \<noteq> [] \<and> length b \<le> 30 \<and> v \<notin> set RESERVED_INSTANCE_NAMES)"
proof -
  define b where "b = re_dollar_body v"
  from assms have len: "length v \<le> 30" and m: "instance_name_match v" and res: "v \<notin> set RESERVED_INSTANCE_NAMES"
    by (auto simp: instance_name_ok_iff INSTANCE_NAME_MAX_def)
  have vb: "v = b \<or> v = b @ [newline]" using re_dollar_body_cases b_def by simp
  have chars: "b \<noteq> [] \<and> list_all name_char b"
    using m by (auto simp: instance_name_match_def b_def name_char_def split: list.splits)
  then have safe: "list_all shell_safe b" "CHR ''/'' \<notin> set b"
    using name_chars_safe by (auto simp: list_all_iff)
  have "\<not> name_char CHR ''.''" by code_simp
  then have "CHR ''.'' \<notin> set b" using chars by (auto simp: list_all_iff)
  then have "b \<noteq> ''.'' \<and> b \<noteq> ''..''" by auto
  moreover have "length b \<le> 30" using vb len by auto
  ultimately show ?thesis
    using vb chars safe res by (simp add: shlex_quote_safe flip: b_def)
qed

theorem instance_name_inert_witness:
  "require_instance_name ''web-1'' = Inr () \<and> shlex_quote ''web-1'' = ''web-1''"
proof -
  have v: "require_instance_name ''web-1'' = Inr ()" by code_simp
  have b: "re_dollar_body ''web-1'' = ''web-1''" by code_simp
  show ?thesis using instance_name_inert [OF v] v by (simp add: b Let_def)
qed

text \<open>Three predicates accept more than they announce. The name and mode patterns end in
  \<open>$\<close> and let a trailing newline through, and the id predicate takes a superscript digit, which is no
  decimal integer.\<close>

theorem validators_accept_extra:
  "require_instance_name (''web'' @ [newline]) = Inr () \<and>
   require_octal_mode (''0644'' @ [newline]) = Inr () \<and>
   require_nonneg_int [CHR 0xB2] = Inr () \<and> py_int [CHR 0xB2] = None"
  by code_simp


end
