(* ===== verification/Executor.thy ===== *)
theory Executor
  imports Py_Dict "HOL-Library.Product_Lexorder"
begin

text \<open>
  The sterile executor of \<open>src/src/core/executor.py\<close>: normalisation of captured output, the two framing
  patterns as matchers, the run of a command in its checked, sentinel-wrapped and framed forms, and the
  recovery of the inner exit code. The operating system's \<open>subprocess.run\<close> is a function argument, and
  so is the value of \<open>secrets.token_hex(8)\<close>.
\<close>

section \<open>Output normalisation\<close>

definition ansi_param :: "char \<Rightarrow> bool" where
  "ansi_param c = (c \<in> set digit_chars \<or> c = CHR '';'')"

definition ascii_letter :: "char \<Rightarrow> bool" where
  "ascii_letter c = (c \<in> set lower_letters \<or> c \<in> set upper_letters)"

text \<open>The length of a CSI sequence at the front, for the pattern ESC, \<open>[\<close>, parameters, a letter.\<close>

definition ansi_match :: "string \<Rightarrow> nat option" where
  "ansi_match s =
     (if prefix [CHR 0x1B, CHR ''[''] s then
        let r = drop 2 s; k = length (takeWhile ansi_param r) in
        (case drop k r of c # _ \<Rightarrow> if ascii_letter c then Some (k + 3) else None | [] \<Rightarrow> None)
      else None)"

function strip_ansi :: "string \<Rightarrow> string" where
  "strip_ansi [] = []"
| "strip_ansi (c # cs) =
     (case ansi_match (c # cs) of
        None \<Rightarrow> c # strip_ansi cs
      | Some n \<Rightarrow> strip_ansi (drop (n - 1) cs))"
  by pat_completeness auto
termination by (relation "measure length") auto

text \<open>\<open>re.sub(r"\n{3,}", "\n\n", s)\<close>: of each run of newlines the first two stay.\<close>

fun collapse_newlines :: "nat \<Rightarrow> string \<Rightarrow> string" where
  "collapse_newlines k [] = []"
| "collapse_newlines k (c # cs) =
     (if c = newline then (if k < 2 then c # collapse_newlines (Suc k) cs else collapse_newlines k cs)
      else c # collapse_newlines 0 cs)"

definition normalize_captured_output :: "string \<Rightarrow> string" where
  "normalize_captured_output raw =
     collapse_newlines 0 (filter (\<lambda>c. c \<noteq> CHR 0x0D) (strip_ansi raw))"

section \<open>The framing patterns\<close>

definition hex_char :: "char \<Rightarrow> bool" where
  "hex_char c = (c \<in> set digit_chars \<or> c \<in> set ''abcdef'')"

text \<open>The length that \<open>\s*$\<close> takes under \<open>re.MULTILINE\<close>: the whole run of blanks at the end of the
  text, otherwise up to the last newline of the run.\<close>

definition blank_tail :: "string \<Rightarrow> nat option" where
  "blank_tail s =
     (let w = takeWhile is_space s in
      if length w = length s then Some (length w)
      else if newline \<in> set w then Some (length (dropWhile (\<lambda>c. c \<noteq> newline) (rev w)) - 1)
      else None)"

definition BEGIN_PREFIX :: string where
  "BEGIN_PREFIX = ''__SANDBOX_BEGIN_''"

definition EXIT_PREFIX :: string where
  "EXIT_PREFIX = ''__SANDBOX_EXIT_''"

text \<open>\<open>_BEGIN_RE\<close> and \<open>_SENTINEL_RE\<close> at the start of a line: the groups and the length of the match.\<close>

definition begin_match :: "string \<Rightarrow> (string \<times> nat) option" where
  "begin_match s =
     (if prefix BEGIN_PREFIX s then
        let r = drop (length BEGIN_PREFIX) s; tok = takeWhile hex_char r in
        if tok = [] then None
        else map_option (\<lambda>k. (tok, length BEGIN_PREFIX + length tok + k)) (blank_tail (drop (length tok) r))
      else None)"

definition exit_match :: "string \<Rightarrow> ((string \<times> string) \<times> nat) option" where
  "exit_match s =
     (if prefix EXIT_PREFIX s then
        let r = drop (length EXIT_PREFIX) s; tok = takeWhile hex_char r; r' = drop (length tok) r in
        if tok = [] then None
        else (case r' of
            [] \<Rightarrow> None
          | c # r'' \<Rightarrow>
              if c \<noteq> CHR ''_'' then None
              else let ds = takeWhile is_decimal r'' in
                if ds = [] then None
                else map_option (\<lambda>k. ((tok, ds), length EXIT_PREFIX + length tok + 1 + length ds + k))
                       (blank_tail (drop (length ds) r'')))
      else None)"

text \<open>\<open>finditer\<close> of a pattern anchored at line starts: non-overlapping matches with their spans. The
  flag says whether the position is at the start of a line.\<close>

function finditer ::
  "(string \<Rightarrow> ('m \<times> nat) option) \<Rightarrow> bool \<Rightarrow> nat \<Rightarrow> string \<Rightarrow> ((nat \<times> nat) \<times> 'm) list" where
  "finditer m bol pos [] = []"
| "finditer m bol pos (c # cs) =
     (case (if bol then m (c # cs) else None) of
        None \<Rightarrow> finditer m (c = newline) (Suc pos) cs
      | Some (x, n) \<Rightarrow>
          ((pos, pos + n), x) #
            finditer m ((c # cs) ! (n - 1) = newline) (pos + n) (drop (n - 1) cs))"
  by pat_completeness auto
termination by (relation "measure (\<lambda>(_, _, _, s). length s)") auto

section \<open>Running a command\<close>

datatype spawn_result =
    Completed int "string option" "string option"
  | TimedOut
  | OsError

record completed =
  cp_args :: "string list"
  cp_returncode :: int
  cp_stdout :: "string option"
  cp_stderr :: "string option"

text \<open>\<open>SandboxExecutionError\<close> by its cause, and the usage error of \<open>run\<close>.\<close>

datatype exec_error =
    MutuallyExclusive
  | ExitStatus "string list" int "string option"
  | TimeoutExpired "string list"
  | OsFault "string list"
  | SentinelNotFound string "string option"
  | InnerFailed nat string "string option"

definition cut :: "string \<Rightarrow> nat \<times> nat \<Rightarrow> string" where
  "cut s = (\<lambda>(start, stop). take start s @ drop stop s)"

definition stdout_of :: "completed \<Rightarrow> string" where
  "stdout_of r = (case cp_stdout r of None \<Rightarrow> [] | Some s \<Rightarrow> s)"

text \<open>\<open>_recover_inner_exit\<close>; the second component is the new \<open>last_frame_nonce\<close>.\<close>

definition recover_with ::
  "completed \<Rightarrow> string \<Rightarrow> (nat \<times> nat) list \<Rightarrow> exec_error + completed" where
  "recover_with result expected spans =
     (let stdout = stdout_of result;
          matches = filter (\<lambda>m. fst (snd m) = expected) (finditer exit_match True 0 stdout)
      in if matches = [] then
           Inl (SentinelNotFound (normalize_captured_output stdout) (cp_stderr result))
         else let last_match = last matches;
                  exit_code = digits_value (snd (snd last_match));
                  clean = normalize_captured_output
                    (foldl cut stdout (rev (sort (spans @ [fst last_match]))))
              in if exit_code \<noteq> 0 then Inl (InnerFailed exit_code clean (cp_stderr result))
                 else Inr (result\<lparr>cp_returncode := int exit_code, cp_stdout := Some clean\<rparr>))"

definition recover_inner_exit ::
  "bool \<Rightarrow> string \<Rightarrow> completed \<Rightarrow> string option \<Rightarrow> (exec_error + completed) \<times> string option" where
  "recover_inner_exit framed injected_token result last_nonce =
     (if framed then
        (case finditer begin_match True 0 (stdout_of result) of
           [] \<Rightarrow> (Inl (SentinelNotFound (normalize_captured_output (stdout_of result)) (cp_stderr result)),
                  last_nonce)
         | b # _ \<Rightarrow> (recover_with result (snd b) [fst b], Some (snd b)))
      else (recover_with result injected_token [], last_nonce))"

definition wrap_sentinel :: "string \<Rightarrow> string list \<Rightarrow> string list" where
  "wrap_sentinel token cmd =
     butlast cmd @ [''( '' @ last cmd @ '' ); echo '' @ EXIT_PREFIX @ token @ ''_$?'']"

definition wrappable :: "string list \<Rightarrow> bool" where
  "wrappable cmd = (3 \<le> length cmd \<and> last (butlast cmd) = ''-c'')"

definition sterile_env :: "string option \<Rightarrow> (string, string) dict \<Rightarrow> (string, string) dict" where
  "sterile_env path env =
     fold (\<lambda>(k, v) d. dict_set k v d) env
       [(''PATH'', case path of None \<Rightarrow> ''/usr/bin:/bin:/usr/sbin:/sbin'' | Some p \<Rightarrow> p)]"

type_synonym spawn = "string list \<Rightarrow> (string, string) dict \<Rightarrow> bool \<Rightarrow> spawn_result"

text \<open>\<open>subprocess.run\<close> with its \<open>check\<close> flag and the translation of its exceptions.\<close>

definition checked_spawn ::
  "spawn \<Rightarrow> string list \<Rightarrow> (string, string) dict \<Rightarrow> bool \<Rightarrow> bool \<Rightarrow> exec_error + completed" where
  "checked_spawn spawn cmd env interactive check =
     (case spawn cmd env interactive of
        TimedOut \<Rightarrow> Inl (TimeoutExpired cmd)
      | OsError \<Rightarrow> Inl (OsFault cmd)
      | Completed rc out err \<Rightarrow>
          if check \<and> rc \<noteq> 0 then Inl (ExitStatus cmd rc (if interactive then None else err))
          else Inr \<lparr>cp_args = cmd, cp_returncode = rc, cp_stdout = out, cp_stderr = err\<rparr>)"

record run_options =
  interactive :: bool
  extra_env :: "(string, string) dict"
  sentinel :: bool
  framed :: bool

definition executor_run ::
  "spawn \<Rightarrow> string option \<Rightarrow> string \<Rightarrow> run_options \<Rightarrow> string list \<Rightarrow> string option \<Rightarrow>
   (exec_error + completed) \<times> string option" where
  "executor_run spawn path token_hex opts cmd last_nonce =
     (if sentinel opts \<and> framed opts then (Inl MutuallyExclusive, last_nonce)
      else
        let wrap = sentinel opts \<and> \<not> interactive opts \<and> wrappable cmd;
            cmd' = (if wrap then wrap_sentinel token_hex cmd else cmd);
            recovering = wrap \<or> framed opts \<and> \<not> interactive opts
        in (case checked_spawn spawn cmd' (sterile_env path (extra_env opts)) (interactive opts) (\<not> recovering) of
              Inl e \<Rightarrow> (Inl e, last_nonce)
            | Inr result \<Rightarrow>
                if recovering then recover_inner_exit (framed opts) token_hex result last_nonce
                else (Inr result, last_nonce)))"

section \<open>Lemmas: patterns anchored at line starts\<close>

definition ends_line :: "string \<Rightarrow> bool" where
  "ends_line t = (t \<noteq> [] \<and> last t = newline)"

definition starts_text :: "string \<Rightarrow> bool" where
  "starts_text b = (b \<noteq> [] \<and> \<not> is_space (hd b))"

text \<open>What the scanner needs of a pattern: a match is not empty and fits, its token is part of the text,
  and a match that starts in full lines followed by text stays inside those lines.\<close>

locale line_pattern =
  fixes m :: "string \<Rightarrow> ('m \<times> nat) option"
    and tok :: "'m \<Rightarrow> string"
  assumes token: "m s = Some (x, n) \<Longrightarrow> sublist (tok x) s"
    and within_lines: "m (t @ b) = Some (x, n) \<Longrightarrow> ends_line t \<Longrightarrow> starts_text b \<Longrightarrow>
          0 < n \<and> n < length t \<and> sublist (tok x) t"
begin

lemma finditer_tokens: "e \<in> set (finditer m bol pos s) \<Longrightarrow> sublist (tok (snd e)) s"
proof (induction "length s" arbitrary: s bol pos rule: less_induct)
  case (less s)
  show ?case
  proof (cases s)
    case Nil
    with less show ?thesis by simp
  next
    case (Cons c cs)
    have ih: "sublist (tok (snd e)) s" if "e \<in> set (finditer m b p (drop k cs))" for b p k
    proof -
      have "sublist (tok (snd e)) (drop k cs)" using Cons that by (intro less.hyps [of "drop k cs"]) auto
      then have "sublist (tok (snd e)) cs" by (rule sublist_order.order.trans) simp
      then show ?thesis using Cons by (simp add: sublist_Cons_right)
    qed
    show ?thesis
      using less.prems Cons token [of "c # cs"] ih [where k = 0] ih
      by (auto split: if_splits option.splits)
  qed
qed

text \<open>The scan of full lines followed by text: what it finds in the lines has tokens from the lines,
  and then it scans the text from its start.\<close>

lemma finditer_lines:
  assumes "if a = [] then bol else ends_line a" and "starts_text b"
  shows "\<exists>l. finditer m bol pos (a @ b) = l @ finditer m True (pos + length a) b \<and>
    (\<forall>e \<in> set l. sublist (tok (snd e)) a)"
  using assms(1)
proof (induction "length a" arbitrary: a bol pos rule: less_induct)
  case (less a)
  show ?case
  proof (cases a)
    case Nil
    with less show ?thesis by simp
  next
    case (Cons c cs)
    have lines: "ends_line a" using less.prems Cons by simp
    show ?thesis
    proof (cases "if bol then m (a @ b) else None")
      case None
      have "if cs = [] then c = newline else ends_line cs"
        using lines Cons by (auto simp: ends_line_def)
      with less.hyps [of cs "c = newline" "Suc pos"] Cons obtain l where "finditer m (c = newline) (Suc pos) (cs @ b) =
          l @ finditer m True (Suc pos + length cs) b \<and> (\<forall>e \<in> set l. sublist (tok (snd e)) cs)"
        by auto
      with None Cons show ?thesis by (auto simp: sublist_Cons_right)
    next
      case (Some xn)
      then obtain x n where m: "bol" "m (a @ b) = Some (x, n)" by (cases xn) (auto split: if_splits)
      then have n: "0 < n" "n < length a" "sublist (tok x) a"
        using within_lines [OF m(2) lines assms(2)] by auto
      let ?a = "drop (n - 1) cs"
      have a': "drop n a = ?a" using Cons n(1) by (cases n) auto
      have ends: "ends_line ?a" using lines n unfolding a' [symmetric] by (auto simp: ends_line_def)
      then have ne: "?a \<noteq> []" by (auto simp: ends_line_def)
      have len: "pos + n + length ?a = pos + length a" using Cons n by simp
      have shorter: "length ?a < length a" using Cons by simp
      obtain l where l: "finditer m ((a @ b) ! (n - 1) = newline) (pos + n) (?a @ b) =
          l @ finditer m True (pos + n + length ?a) b" "\<forall>e \<in> set l. sublist (tok (snd e)) ?a"
        using less.hyps [of ?a "(a @ b) ! (n - 1) = newline" "pos + n", OF shorter] ends ne by auto
      have "finditer m bol pos (a @ b) = ((pos, pos + n), x) # l @ finditer m True (pos + length a) b"
        using m l(1) [unfolded len] Cons n(2) by simp
      moreover have "sublist (tok (snd e)) a" if "e \<in> set l" for e
        using l(2) that sublist_drop [of n a] unfolding a' [symmetric]
        by (metis sublist_order.order.trans)
      ultimately show ?thesis using n(3) by (intro exI [of _ "((pos, pos + n), x) # l"]) auto
    qed
  qed
qed

text \<open>A line that does not match is skipped as a whole.\<close>

lemma finditer_mid_line:
  "newline \<notin> set l \<Longrightarrow> finditer m False pos (l @ newline # r) = finditer m True (pos + length l + 1) r"
  by (induction l arbitrary: pos) auto

lemma finditer_skip_line:
  "newline \<notin> set l \<Longrightarrow> m (l @ newline # r) = None \<Longrightarrow>
     finditer m True pos (l @ newline # r) = finditer m True (pos + length l + 1) r"
proof (cases l)
  case (Cons c cs)
  moreover assume "newline \<notin> set l" "m (l @ newline # r) = None"
  ultimately show ?thesis using finditer_mid_line [of cs "Suc pos" r] by auto
qed auto

end

section \<open>Lemmas: the two framing patterns\<close>

lemma ends_line_mem: "ends_line t \<Longrightarrow> newline \<in> set t"
  by (metis ends_line_def last_in_set)

lemma strip_in_lines:
  assumes "ends_line t" and "newline \<notin> set p" and "t @ b = p @ r"
  shows "\<exists>t'. t = p @ t' \<and> ends_line t' \<and> r = t' @ b"
proof -
  have "prefix p (t @ b)" using assms(3) by (simp add: prefix_def)
  then have "prefix p t"
    using assms(2) ends_line_mem [OF assms(1)] by (auto simp: prefix_append)
  then obtain t' where t': "t = p @ t'" by (auto simp: prefix_def)
  with assms(1,2) have "t' \<noteq> []" by (auto dest: ends_line_mem)
  with t' assms show ?thesis by (auto simp: ends_line_def)
qed

lemma last_newline_lt: "newline \<in> set w \<Longrightarrow> length (dropWhile (\<lambda>c. c \<noteq> newline) (rev w)) - 1 < length w"
  using length_dropWhile_le [of "\<lambda>c. c \<noteq> newline" "rev w"] by (cases w) auto

lemma takeWhile_stops: "starts_text b \<Longrightarrow> takeWhile is_space (t @ b) = takeWhile is_space t"
  by (cases b) (auto simp: starts_text_def takeWhile_tail)

lemma blank_tail_le: "blank_tail s = Some k \<Longrightarrow> k \<le> length s"
  using last_newline_lt [of "takeWhile is_space s"] length_takeWhile_le [of is_space s]
  by (auto simp: blank_tail_def Let_def split: if_splits)

lemma blank_tail_in_lines:
  assumes "ends_line t" and "starts_text b" and "blank_tail (t @ b) = Some k"
  shows "k < length t"
proof -
  have w: "takeWhile is_space (t @ b) = takeWhile is_space t" using assms(2) by (rule takeWhile_stops)
  have "length (takeWhile is_space t) \<noteq> length (t @ b)"
    using assms(2) length_takeWhile_le [of is_space t] by (cases b) (auto simp: starts_text_def)
  then have "newline \<in> set (takeWhile is_space t)"
    "k = length (dropWhile (\<lambda>c. c \<noteq> newline) (rev (takeWhile is_space t))) - 1"
    using assms(3) by (auto simp: blank_tail_def w Let_def split: if_splits)
  then show ?thesis using last_newline_lt length_takeWhile_le [of is_space t] by fastforce
qed

lemma hex_not_newline [simp]: "\<not> hex_char newline"
  by code_simp

lemma framing_prefixes: "newline \<notin> set BEGIN_PREFIX" "newline \<notin> set EXIT_PREFIX"
  "length BEGIN_PREFIX = 16" "length EXIT_PREFIX = 15"
  by code_simp+

lemma begin_match_Some:
  assumes "begin_match s = Some (tok, n)"
  obtains r k where "s = BEGIN_PREFIX @ tok @ r" "tok = takeWhile hex_char (tok @ r)" "tok \<noteq> []"
    "blank_tail r = Some k" "n = length BEGIN_PREFIX + length tok + k"
proof -
  from assms obtain s' where s: "s = BEGIN_PREFIX @ s'"
    by (auto simp: begin_match_def prefix_def split: if_splits)
  with assms obtain k where k: "tok = takeWhile hex_char s'" "tok \<noteq> []"
    "blank_tail (drop (length tok) s') = Some k" "n = length BEGIN_PREFIX + length tok + k"
    by (auto simp: begin_match_def Let_def split: if_splits)
  have "s' = tok @ drop (length tok) s'"
    using k(1) takeWhile_dropWhile_id [of hex_char s'] by (simp flip: dropWhile_eq_drop)
  with s k that show ?thesis by metis
qed

lemma exit_match_Some:
  assumes "exit_match s = Some ((tok, ds), n)"
  obtains r k where "s = EXIT_PREFIX @ tok @ ''_'' @ ds @ r" "tok = takeWhile hex_char (tok @ ''_'' @ ds @ r)"
    "tok \<noteq> []" "ds = takeWhile is_decimal (ds @ r)" "ds \<noteq> []"
    "blank_tail r = Some k" "n = length EXIT_PREFIX + length tok + 1 + length ds + k"
proof -
  from assms obtain s' where s: "s = EXIT_PREFIX @ s'"
    by (auto simp: exit_match_def prefix_def split: if_splits)
  with assms obtain r'' k where k: "tok = takeWhile hex_char s'" "tok \<noteq> []"
    "drop (length tok) s' = CHR ''_'' # r''" "ds = takeWhile is_decimal r''" "ds \<noteq> []"
    "blank_tail (drop (length ds) r'') = Some k" "n = length EXIT_PREFIX + length tok + 1 + length ds + k"
    by (auto simp: exit_match_def Let_def split: if_splits list.splits)
  have s': "s' = tok @ CHR ''_'' # r''"
    using k(1,3) takeWhile_dropWhile_id [of hex_char s'] by (simp flip: dropWhile_eq_drop)
  have r'': "r'' = ds @ drop (length ds) r''"
    using k(4) takeWhile_dropWhile_id [of is_decimal r''] by (simp flip: dropWhile_eq_drop)
  define r where "r = drop (length ds) r''"
  have parts: "r'' = ds @ r" "s' = tok @ ''_'' @ ds @ r" using s' r'' by (simp_all add: r_def)
  show ?thesis
  proof (rule that)
    show "s = EXIT_PREFIX @ tok @ ''_'' @ ds @ r" using s parts(2) by simp
    show "tok = takeWhile hex_char (tok @ ''_'' @ ds @ r)" using k(1) parts(2) by metis
    show "ds = takeWhile is_decimal (ds @ r)" using k(4) parts(1) by metis
    show "blank_tail r = Some k" using k(6) r_def by simp
  qed (use k in simp_all)
qed

lemma token_no_newline:
  "t = takeWhile hex_char (t @ r) \<Longrightarrow> newline \<notin> set t"
  "t = takeWhile is_decimal (t @ r) \<Longrightarrow> newline \<notin> set t"
  using set_takeWhileD [of newline hex_char "t @ r"] set_takeWhileD [of newline is_decimal "t @ r"] by auto

lemma begin_within_lines:
  assumes "begin_match (t @ b) = Some (x, n)" and "ends_line t" and "starts_text b"
  shows "0 < n \<and> n < length t \<and> sublist x t"
proof -
  from assms(1) obtain r k where m: "t @ b = (BEGIN_PREFIX @ x) @ r" "x = takeWhile hex_char (x @ r)"
    "blank_tail r = Some k" "n = length BEGIN_PREFIX + length x + k"
    by (auto elim!: begin_match_Some)
  have "newline \<notin> set (BEGIN_PREFIX @ x)" using token_no_newline(1) [OF m(2)] framing_prefixes by simp
  from strip_in_lines [OF assms(2) this m(1)] obtain t' where t': "t = (BEGIN_PREFIX @ x) @ t'"
    "ends_line t'" "r = t' @ b" by blast
  with m(3) assms(3) have "k < length t'" by (auto intro: blank_tail_in_lines)
  moreover have "sublist x t" unfolding t'(1) by auto
  ultimately show ?thesis using t' m(4) framing_prefixes by auto
qed

lemma exit_within_lines:
  assumes "exit_match (t @ b) = Some (x, n)" and "ends_line t" and "starts_text b"
  shows "0 < n \<and> n < length t \<and> sublist (fst x) t"
proof -
  obtain tok ds where x: "x = (tok, ds)" by (cases x)
  from assms(1) obtain r k where m: "t @ b = (EXIT_PREFIX @ tok @ ''_'' @ ds) @ r"
    "tok = takeWhile hex_char (tok @ ''_'' @ ds @ r)" "ds = takeWhile is_decimal (ds @ r)"
    "blank_tail r = Some k" "n = length EXIT_PREFIX + length tok + 1 + length ds + k"
    unfolding x by (elim exit_match_Some) simp
  have "newline \<notin> set (EXIT_PREFIX @ tok @ ''_'' @ ds)"
    using token_no_newline(1) [OF m(2)] token_no_newline(2) [OF m(3)] framing_prefixes by (simp add: newline_def)
  from strip_in_lines [OF assms(2) this m(1)] obtain t' where t': "t = (EXIT_PREFIX @ tok @ ''_'' @ ds) @ t'"
    "ends_line t'" "r = t' @ b" by blast
  with m(4) assms(3) have "k < length t'" by (auto intro: blank_tail_in_lines)
  moreover have "sublist tok t" unfolding t'(1) by auto
  ultimately show ?thesis using t' m(5) framing_prefixes x by auto
qed

interpretation begin_frame: line_pattern begin_match "\<lambda>x. x"
  using begin_within_lines by unfold_locales (auto elim!: begin_match_Some)

interpretation exit_frame: line_pattern exit_match fst
proof
  show "sublist (fst x) s" if "exit_match s = Some (x, n)" for s x n
    using that by (cases x) (auto elim!: exit_match_Some)
qed (use exit_within_lines in blast)

section \<open>Lemmas: a framed output\<close>

definition begin_line :: "string \<Rightarrow> string" where
  "begin_line nonce = BEGIN_PREFIX @ nonce @ [newline]"

definition exit_line :: "string \<Rightarrow> nat \<Rightarrow> string" where
  "exit_line nonce code = EXIT_PREFIX @ nonce @ ''_'' @ nat_str code @ [newline]"

definition is_nonce :: "string \<Rightarrow> bool" where
  "is_nonce n = (n \<noteq> [] \<and> list_all hex_char n)"

lemma nonce_takeWhile: "is_nonce n \<Longrightarrow> \<not> hex_char c \<Longrightarrow> takeWhile hex_char (n @ c # r) = n"
  by (auto simp: is_nonce_def list_all_iff takeWhile_append)

lemma nonce_no_newline: "is_nonce n \<Longrightarrow> newline \<notin> set n"
  by (auto simp: is_nonce_def list_all_iff)

lemma nat_str_takeWhile: "takeWhile is_decimal (nat_str k @ newline # r) = nat_str k"
  using nat_str_decimal [of k] by (auto simp: list_all_iff takeWhile_append)

lemma underscore_not_hex [simp]: "\<not> hex_char CHR ''_''"
  by code_simp

lemma blank_tail_newline: "\<exists>k. blank_tail (newline # r) = Some k"
  by (simp add: blank_tail_def Let_def)

lemma begin_match_line:
  assumes "is_nonce n"
  shows "\<exists>k. blank_tail (newline # r) = Some k \<and>
    begin_match (begin_line n @ r) = Some (n, length BEGIN_PREFIX + length n + k)"
  using assms blank_tail_newline [of r] nonce_takeWhile [OF assms, of newline r]
  by (auto simp: begin_match_def begin_line_def is_nonce_def Let_def)

lemma exit_match_begin_line: "exit_match (begin_line n @ r) = None"
  by (simp add: exit_match_def begin_line_def EXIT_PREFIX_def BEGIN_PREFIX_def)

lemma exit_match_line:
  assumes "is_nonce n"
  shows "exit_match (exit_line n code) = Some ((n, nat_str code), length (exit_line n code))"
proof -
  have "blank_tail [newline] = Some 1" by (simp add: blank_tail_def)
  then show ?thesis
    using assms nonce_takeWhile [OF assms, of "CHR ''_''" "nat_str code @ [newline]"]
      nat_str_takeWhile [of code "[]"]
    by (simp add: exit_match_def exit_line_def is_nonce_def Let_def)
qed

lemma starts_text_exit_line [simp]: "starts_text (exit_line n code)"
  by (simp add: starts_text_def exit_line_def EXIT_PREFIX_def is_space_def)

lemma exit_line_cons: "exit_line n code = CHR ''_'' # drop 1 (exit_line n code)"
  by (simp add: exit_line_def EXIT_PREFIX_def)

lemma finditer_exit_line:
  assumes "is_nonce n"
  shows "finditer exit_match True pos (exit_line n code) = [((pos, pos + length (exit_line n code)), (n, nat_str code))]"
  using exit_match_line [OF assms, of code]
  by (subst exit_line_cons, subst finditer.simps) (simp flip: exit_line_cons One_nat_def)

text \<open>The exit matches in a framed output: those of the body carry no token that is not in the body.\<close>

lemma finditer_exit_skip_begin:
  assumes "is_nonce n"
  shows "finditer exit_match True pos (begin_line n @ r) =
    finditer exit_match True (pos + length (begin_line n)) r"
  using exit_frame.finditer_skip_line [of "BEGIN_PREFIX @ n" r pos] exit_match_begin_line [of n r]
    nonce_no_newline [OF assms] framing_prefixes
  by (simp add: begin_line_def add_ac)

lemma finditer_exit_framed:
  assumes "is_nonce n" and "body = [] \<or> ends_line body"
  shows "\<exists>l. finditer exit_match True 0 (begin_line n @ body @ exit_line n code) =
      l @ [((length (begin_line n @ body), length (begin_line n @ body @ exit_line n code)), (n, nat_str code))] \<and>
    (\<forall>e \<in> set l. sublist (fst (snd e)) body)"
proof -
  obtain l where l: "finditer exit_match True (length (begin_line n)) (body @ exit_line n code) =
      l @ finditer exit_match True (length (begin_line n) + length body) (exit_line n code)"
    "\<forall>e \<in> set l. sublist (fst (snd e)) body"
    using exit_frame.finditer_lines [of body True "exit_line n code" "length (begin_line n)"] assms(2)
    by (cases "body = []") auto
  with assms(1) show ?thesis
    by (simp add: finditer_exit_skip_begin finditer_exit_line add.assoc)
qed

text \<open>What \<open>\s*$\<close> takes after the nonce of a begin line is blank, and stops before the text.\<close>

lemma blank_tail_spaces:
  assumes "blank_tail s = Some k"
  shows "list_all is_space (take k s)"
proof -
  define w where "w = takeWhile is_space s"
  have k: "k \<le> length w"
    using assms last_newline_lt [of w] by (auto simp: blank_tail_def Let_def w_def split: if_splits)
  have "take k s = take k w" using k by (metis append_take_drop_id take_append w_def diff_is_0_eq take_eq_Nil
      takeWhile_eq_take append_Nil2)
  then show ?thesis
    unfolding list_all_iff w_def using set_take_subset [of k w] by (auto simp: w_def dest: set_takeWhileD)
qed

lemma recover_framed:
  assumes "is_nonce n" and "body = [] \<or> ends_line body"
    and out: "stdout_of result = begin_line n @ body @ exit_line n code"
  shows "\<exists>j. list_all is_space (take j (newline # body)) \<and> (body = [] \<or> starts_text body \<longrightarrow> j = 0) \<and>
    recover_inner_exit True tok result last_nonce =
      (if code = 0
       then Inr (result\<lparr>cp_returncode := 0, cp_stdout := Some (normalize_captured_output (drop j (newline # body)))\<rparr>)
       else Inl (InnerFailed code (normalize_captured_output (drop j (newline # body))) (cp_stderr result)),
       Some n)"
proof -
  define s where "s = begin_line n @ body @ exit_line n code"
  define p where "p = length BEGIN_PREFIX + length n"
  obtain k where k: "blank_tail (newline # body @ exit_line n code) = Some k"
    and bm: "begin_match s = Some (n, p + k)"
    using begin_match_line [OF assms(1), of "body @ exit_line n code"] by (auto simp: s_def p_def)
  have len: "k < length (newline # body)"
    using blank_tail_in_lines [of "newline # body" "exit_line n code" k] k assms(2)
    by (auto simp: ends_line_def)
  have "s \<noteq> []" by (simp add: s_def begin_line_def)
  then obtain rest where beg: "finditer begin_match True 0 s = ((0, p + k), n) # rest"
    using bm by (cases s) auto
  obtain l where l: "finditer exit_match True 0 s =
      l @ [((length (begin_line n @ body), length s), (n, nat_str code))]"
    using finditer_exit_framed [OF assms(1,2), of code] by (auto simp: s_def)
  then have ms: "filter (\<lambda>m. fst (snd m) = n) (finditer exit_match True 0 s) =
      filter (\<lambda>m. fst (snd m) = n) l @ [((length (begin_line n @ body), length s), (n, nat_str code))]"
    by simp
  have ord: "rev (sort ([(0, p + k)] @ [(length (begin_line n @ body), length s)])) =
      [(length (begin_line n @ body), length s), (0, p + k)]"
    by (simp add: begin_line_def less_eq_prod_def framing_prefixes)
  have c1: "cut s (length (begin_line n @ body), length s) = begin_line n @ body"
    by (simp add: cut_def s_def)
  have c2: "cut (begin_line n @ body) (0, p + k) = drop k (newline # body)"
    by (simp add: cut_def p_def begin_line_def)
  have clean: "foldl cut s (rev (sort ([(0, p + k)] @ [(length (begin_line n @ body), length s)]))) =
      drop k (newline # body)"
    unfolding ord by (simp only: foldl.simps c1 c2)
  have k0: "k = 0" if "body = [] \<or> starts_text body"
  proof -
    have "starts_text (body @ exit_line n code)"
      using that starts_text_exit_line [of n code] by (cases body) (auto simp: starts_text_def)
    then have w: "takeWhile is_space (newline # body @ exit_line n code) = [newline]" and "body @ exit_line n code \<noteq> []"
      using takeWhile_stops [of "body @ exit_line n code" "[newline]"] by (auto simp: starts_text_def)
    then show ?thesis using k by (simp add: blank_tail_def Let_def split: if_splits)
  qed
  have sp: "list_all is_space (take k (newline # body))"
    using blank_tail_spaces [OF k] len by (simp add: take_Cons split: nat.splits)
  have "recover_with result n [(0, p + k)] =
      (if code = 0
       then Inr (result\<lparr>cp_returncode := 0, cp_stdout := Some (normalize_captured_output (drop k (newline # body)))\<rparr>)
       else Inl (InnerFailed code (normalize_captured_output (drop k (newline # body))) (cp_stderr result)))"
    unfolding recover_with_def Let_def out s_def [symmetric] ms using clean by simp
  then show ?thesis
    using sp beg k0 by (intro exI [of _ k]) (simp add: recover_inner_exit_def out flip: s_def)
qed

text \<open>Without the trailer the recovery fails, whatever else the body holds.\<close>

lemma recover_truncated:
  assumes "is_nonce n" and "\<not> sublist n body" and out: "stdout_of result = begin_line n @ body"
  shows "recover_inner_exit True tok result last_nonce =
    (Inl (SentinelNotFound (normalize_captured_output (begin_line n @ body)) (cp_stderr result)), Some n)"
proof -
  define s where "s = begin_line n @ body"
  obtain k where bm: "begin_match s = Some (n, k)"
    using begin_match_line [OF assms(1), of body] by (auto simp: s_def)
  have "s \<noteq> []" by (simp add: s_def begin_line_def)
  then obtain rest where beg: "finditer begin_match True 0 s = ((0, k), n) # rest"
    using bm by (cases s) auto
  have "\<forall>e \<in> set (finditer exit_match True 0 s). fst (snd e) \<noteq> n"
    using exit_frame.finditer_tokens [of _ True "length (begin_line n)" body] assms(2)
    unfolding s_def finditer_exit_skip_begin [OF assms(1)] by auto
  then have "filter (\<lambda>m. fst (snd m) = n) (finditer exit_match True 0 s) = []"
    by (simp add: filter_empty_conv)
  with beg show ?thesis
    by (simp add: recover_inner_exit_def recover_with_def out flip: s_def)
qed

lemma executor_run_framed:
  assumes "framed opts" and "\<not> sentinel opts" and "\<not> interactive opts"
    and "spawn cmd (sterile_env path (extra_env opts)) False = Completed rc (Some out) err"
  shows "executor_run spawn path tok opts cmd last_nonce =
    recover_inner_exit True tok \<lparr>cp_args = cmd, cp_returncode = rc, cp_stdout = Some out, cp_stderr = err\<rparr> last_nonce"
  using assms by (simp add: executor_run_def checked_spawn_def Let_def)

lemma collapse_no_triple:
  assumes "k \<le> 2"
  shows "\<not> sublist [newline, newline, newline] (replicate k newline @ collapse_newlines k s)"
  using assms
proof (induction k s rule: collapse_newlines.induct)
  case (1 k)
  then have "k = 0 \<or> k = 1 \<or> k = 2" by auto
  then show ?case by (auto simp: sublist_Cons_right numeral_2_eq_2)
next
  case (2 k c cs)
  show ?case
  proof (cases "c = newline")
    case True
    with 2 show ?thesis
      by (cases "k < 2") (simp_all add: replicate_app_Cons_same)
  next
    case False
    with 2(3) have "\<not> sublist [newline, newline, newline] (collapse_newlines 0 cs)" by simp
    moreover have "k = 0 \<or> k = 1 \<or> k = 2" using 2(4) by auto
    ultimately show ?thesis using False by (auto simp: sublist_Cons_right numeral_2_eq_2)
  qed
qed

lemma set_collapse: "set (collapse_newlines k s) \<subseteq> set s"
  by (induction k s rule: collapse_newlines.induct) auto

section \<open>Properties\<close>

text \<open>Claim C2: the exit code of a framed crossing is the dispatcher's, and untrusted output cannot forge
  it. When the process prints the begin line of a nonce, then any lines at all, forged trailers
  included, then the trailer of that nonce, the run returns exactly the code of that last trailer:
  success for 0, an error carrying the code otherwise. The native exit status plays no part, the returned
  text is the normalised body less leading blank text, and the nonce is kept for the caller.\<close>

theorem framed_run_faithful:
  assumes "framed opts" and "\<not> sentinel opts" and "\<not> interactive opts"
    and "spawn cmd (sterile_env path (extra_env opts)) False =
      Completed rc (Some (begin_line n @ body @ exit_line n code)) err"
    and "is_nonce n" and "body = [] \<or> ends_line body"
  shows "\<exists>j text. list_all is_space (take j (newline # body)) \<and>
    text = normalize_captured_output (drop j (newline # body)) \<and>
    executor_run spawn path tok opts cmd last_nonce =
      (if code = 0
       then Inr \<lparr>cp_args = cmd, cp_returncode = 0, cp_stdout = Some text, cp_stderr = err\<rparr>
       else Inl (InnerFailed code text err), Some n)"
  using recover_framed [OF assms(5,6), of
      "\<lparr>cp_args = cmd, cp_returncode = rc, cp_stdout = Some (begin_line n @ body @ exit_line n code), cp_stderr = err\<rparr>"
      code tok last_nonce]
    executor_run_framed [of opts spawn cmd path, OF assms(1-4), of tok last_nonce]
  by (auto simp: stdout_of_def)

definition framed_opts :: run_options where
  "framed_opts = \<lparr>interactive = False, extra_env = [], sentinel = False, framed = True\<rparr>"

theorem framed_run_faithful_witness:
  "\<exists>text. executor_run
     (\<lambda>_ _ _. Completed 0 (Some (begin_line ''a1'' @ exit_line ''a1'' 0 @ exit_line ''a1'' 7)) None)
     None ''00'' framed_opts [''x''] None = (Inl (InnerFailed 7 text None), Some ''a1'')"
proof -
  have *: "framed framed_opts" "\<not> sentinel framed_opts" "\<not> interactive framed_opts" "is_nonce ''a1''"
    "exit_line ''a1'' 0 = [] \<or> ends_line (exit_line ''a1'' 0)"
    by (code_simp | simp add: framed_opts_def)+
  show ?thesis
    using framed_run_faithful [of framed_opts
        "\<lambda>_ _ _. Completed 0 (Some (begin_line ''a1'' @ exit_line ''a1'' 0 @ exit_line ''a1'' 7)) None"
        "[''x'']" None 0 "''a1''" "exit_line ''a1'' 0" 7 None "''00''" None] *
    by auto
qed

text \<open>Claim C3: recovery fails closed. A framed run succeeds only when the process printed a begin line and,
  as its last trailer with the nonce of the first begin line, a trailer with code 0; an output that is cut
  off after the begin line, and does not otherwise contain the nonce, is an error, whatever forged
  trailers it holds and whatever the native exit status.\<close>

theorem framed_run_fail_closed:
  assumes "framed opts" and "\<not> sentinel opts" and "\<not> interactive opts"
  shows "(executor_run spawn path tok opts cmd last_nonce = (Inr cp, nonce) \<longrightarrow>
      (\<exists>rc out err b bs es. spawn cmd (sterile_env path (extra_env opts)) False = Completed rc out err \<and>
        finditer begin_match True 0 (case out of None \<Rightarrow> [] | Some s \<Rightarrow> s) = b # bs \<and> nonce = Some (snd b) \<and>
        es = filter (\<lambda>m. fst (snd m) = snd b) (finditer exit_match True 0 (case out of None \<Rightarrow> [] | Some s \<Rightarrow> s)) \<and>
        es \<noteq> [] \<and> digits_value (snd (snd (last es))) = 0 \<and> cp_returncode cp = 0)) \<and>
    (\<forall>n body rc err. is_nonce n \<and> \<not> sublist n body \<and>
        spawn cmd (sterile_env path (extra_env opts)) False = Completed rc (Some (begin_line n @ body)) err \<longrightarrow>
      executor_run spawn path tok opts cmd last_nonce =
        (Inl (SentinelNotFound (normalize_captured_output (begin_line n @ body)) err), Some n))"
proof (rule conjI)
  show "executor_run spawn path tok opts cmd last_nonce = (Inr cp, nonce) \<longrightarrow>
      (\<exists>rc out err b bs es. spawn cmd (sterile_env path (extra_env opts)) False = Completed rc out err \<and>
        finditer begin_match True 0 (case out of None \<Rightarrow> [] | Some s \<Rightarrow> s) = b # bs \<and> nonce = Some (snd b) \<and>
        es = filter (\<lambda>m. fst (snd m) = snd b) (finditer exit_match True 0 (case out of None \<Rightarrow> [] | Some s \<Rightarrow> s)) \<and>
        es \<noteq> [] \<and> digits_value (snd (snd (last es))) = 0 \<and> cp_returncode cp = 0)"
    using assms
    by (auto simp: executor_run_def checked_spawn_def Let_def recover_inner_exit_def recover_with_def stdout_of_def
        split: spawn_result.splits list.splits if_splits)
next
  show "\<forall>n body rc err. is_nonce n \<and> \<not> sublist n body \<and>
        spawn cmd (sterile_env path (extra_env opts)) False = Completed rc (Some (begin_line n @ body)) err \<longrightarrow>
      executor_run spawn path tok opts cmd last_nonce =
        (Inl (SentinelNotFound (normalize_captured_output (begin_line n @ body)) err), Some n)"
    using executor_run_framed [OF assms] recover_truncated by (auto simp: stdout_of_def)
qed

theorem framed_run_fail_closed_witness:
  "executor_run (\<lambda>_ _ _. Completed 0 (Some (begin_line ''a1'' @ exit_line ''ff'' 0)) None)
     None ''00'' framed_opts [''x''] None =
   (Inl (SentinelNotFound (normalize_captured_output (begin_line ''a1'' @ exit_line ''ff'' 0)) None), Some ''a1'')"
proof -
  have *: "framed framed_opts" "\<not> sentinel framed_opts" "\<not> interactive framed_opts"
    by (simp_all add: framed_opts_def)
  have n: "is_nonce ''a1''" "\<not> sublist ''a1'' (exit_line ''ff'' 0)" by code_simp+
  show ?thesis
    by (rule framed_run_fail_closed [OF *, THEN conjunct2, rule_format]) (use n in simp)
qed

text \<open>Normalised output carries no carriage return and no run of three newlines.\<close>

theorem normalize_captured_output_clean:
  "CHR 0x0D \<notin> set (normalize_captured_output raw) \<and>
   \<not> sublist [newline, newline, newline] (normalize_captured_output raw)"
  using collapse_no_triple [of 0 "filter (\<lambda>c. c \<noteq> CHR 0x0D) (strip_ansi raw)"]
    set_collapse [of 0 "filter (\<lambda>c. c \<noteq> CHR 0x0D) (strip_ansi raw)"]
  by (auto simp: normalize_captured_output_def)

text \<open>Normalising is not idempotent: removing a carriage return, or an escape sequence, can
  bring the parts of another escape sequence together, which only a second pass removes.\<close>

theorem normalize_captured_output_not_idempotent:
  "normalize_captured_output [CHR 0x1B, CHR 0x0D, CHR ''['', CHR ''m''] = [CHR 0x1B, CHR ''['', CHR ''m''] \<and>
   normalize_captured_output [CHR 0x1B, CHR ''['', CHR ''m''] = [] \<and>
   normalize_captured_output ([CHR 0x1B, CHR 0x1B] @ ''[0m[0m'') = CHR 0x1B # ''[0m''"
  by code_simp

end
