(* ===== verification/Preflight.thy ===== *)
theory Preflight
  imports Dispatch Executor
begin

text \<open>
  The preflight bundle of \<open>src/src/core/dispatch.py\<close>: \<open>parse_preflight_outcome\<close>, the inverse of the
  bundle that \<open>preflight_inner\<close> sends. One crossing runs five read-only queries; the parser splits the
  captured blob back into per-query outcomes by markers that carry the crossing's nonce.
\<close>

section \<open>Operations\<close>

datatype probe_message =
    NoMessage
  | ExecFailure exec_error
  | NonceAbsent string
  | MarkerAmbiguous string
  | SegmentMissing string
  | RcUnparseable string string
  | QueryExited string int string

record probe_outcome =
  po_ok :: bool
  po_timed_out :: bool
  po_stdout :: string
  po_message :: probe_message
  preflight_nonce :: "string option"

definition q_marker :: "string \<Rightarrow> string \<Rightarrow> string" where
  "q_marker nonce name = PREFLIGHT_QUERY_MARKER_PREFIX @ nonce @ ''_'' @ name @ ''__''"

definition rc_prefix :: "string \<Rightarrow> string \<Rightarrow> string" where
  "rc_prefix nonce name = PREFLIGHT_RC_MARKER_PREFIX @ nonce @ ''_'' @ name @ ''_''"

text \<open>\<open>s.split("__", 1)[0]\<close>.\<close>

definition before_dunder :: "string \<Rightarrow> string" where
  "before_dunder s = (case py_find ''__'' s of None \<Rightarrow> s | Some i \<Rightarrow> take i s)"

definition failed_query :: "bool \<Rightarrow> probe_message \<Rightarrow> probe_outcome" where
  "failed_query timed_out msg =
     \<lparr>po_ok = False, po_timed_out = timed_out, po_stdout = [], po_message = msg, preflight_nonce = None\<rparr>"

text \<open>The body of the loop for one query: its outcome and the next cursor.\<close>

definition parse_query :: "string \<Rightarrow> string \<Rightarrow> bool \<Rightarrow> nat \<Rightarrow> string \<Rightarrow> probe_outcome \<times> nat" where
  "parse_query blob nonce timed_out cursor name =
     (let q = q_marker nonce name; rcp = rc_prefix nonce name in
      if 1 < py_count q blob \<or> 1 < py_count rcp blob
      then (failed_query timed_out (MarkerAmbiguous name), cursor)
      else case py_find_from q cursor blob of
        None \<Rightarrow> (failed_query timed_out (SegmentMissing name), cursor)
      | Some q_idx \<Rightarrow>
          (case py_find_from rcp (q_idx + length q) blob of
             None \<Rightarrow> (failed_query timed_out (SegmentMissing name), cursor)
           | Some rc_idx \<Rightarrow>
               (let segment = py_strip (drop (q_idx + length q) (take rc_idx blob));
                    rc_token = py_strip (before_dunder (drop (rc_idx + length rcp) blob))
                in case py_int rc_token of
                     None \<Rightarrow> (failed_query timed_out (RcUnparseable name rc_token), cursor)
                   | Some rc \<Rightarrow>
                       (\<lparr>po_ok = (rc = 0), po_timed_out = timed_out,
                         po_stdout = (if rc = 0 then segment else []),
                         po_message = (if rc = 0 then NoMessage else QueryExited name rc segment),
                         preflight_nonce = None\<rparr>,
                        rc_idx + length rcp))))"

fun parse_queries ::
  "string \<Rightarrow> string \<Rightarrow> bool \<Rightarrow> nat \<Rightarrow> string list \<Rightarrow> (string \<times> probe_outcome) list" where
  "parse_queries blob nonce timed_out cursor [] = []"
| "parse_queries blob nonce timed_out cursor (name # names) =
     (let (out, cursor') = parse_query blob nonce timed_out cursor name
      in (name, out) # parse_queries blob nonce timed_out cursor' names)"

definition parse_preflight_outcome :: "probe_outcome \<Rightarrow> (string, probe_outcome) dict" where
  "parse_preflight_outcome outcome =
     (let names = map fst preflight_query_segments in
      if preflight_nonce outcome = None \<or> preflight_nonce outcome = Some []
      then map (\<lambda>name. (name, failed_query (po_timed_out outcome) (NonceAbsent name))) names
      else parse_queries (po_stdout outcome) (the (preflight_nonce outcome)) (po_timed_out outcome) 0 names)"

section \<open>Lemmas: newline-free patterns on full lines\<close>

definition lines_text :: "string \<Rightarrow> bool" where
  "lines_text a = (a = [] \<or> ends_line a)"

lemma lines_text_append [simp]: "lines_text a \<Longrightarrow> lines_text b \<Longrightarrow> lines_text (a @ b)"
  by (auto simp: lines_text_def ends_line_def)

lemma lines_text_line [simp]: "lines_text (l @ [newline])"
  by (simp add: lines_text_def ends_line_def)

lemma lines_text_Nil [simp]: "lines_text []"
  by (simp add: lines_text_def)

lemma lines_text_drop: "lines_text a \<Longrightarrow> lines_text (drop k a)"
  by (auto simp: lines_text_def ends_line_def)

text \<open>A pattern without newline meets a line boundary only between occurrences.\<close>

lemma prefix_lines:
  assumes "newline \<notin> set p" and "p \<noteq> []" and "ends_line a"
  shows "prefix p (a @ b) \<longleftrightarrow> prefix p a"
proof
  assume "prefix p (a @ b)"
  then obtain r where "a @ b = p @ r" by (auto simp: prefix_def)
  from strip_in_lines [OF assms(3,1) this] show "prefix p a" by (auto simp: prefix_def)
qed (simp add: prefix_append)

lemma sublist_lines:
  assumes "newline \<notin> set p" and "p \<noteq> []"
  shows "lines_text a \<Longrightarrow> sublist p (a @ b) \<longleftrightarrow> sublist p a \<or> sublist p b"
proof (induction a)
  case (Cons c a)
  then have "lines_text a" "ends_line (c # a)" by (auto simp: lines_text_def ends_line_def split: if_splits)
  with Cons prefix_lines [OF assms, of "c # a" b] show ?case by (auto simp: sublist_Cons_right)
qed (use assms in \<open>simp\<close>)

lemma py_find_lines:
  assumes "newline \<notin> set p" and "p \<noteq> []"
  shows "lines_text a \<Longrightarrow> \<not> sublist p a \<Longrightarrow>
    py_find p (a @ b) = map_option (\<lambda>i. length a + i) (py_find p b)"
proof (induction a)
  case (Cons c a)
  then have "lines_text a" "ends_line (c # a)" by (auto simp: lines_text_def ends_line_def split: if_splits)
  with Cons prefix_lines [OF assms, of "c # a" b] show ?case
    by (auto simp: sublist_Cons_right option.map_comp comp_def)
qed (cases "py_find p b"; simp)

lemma py_count_lines:
  assumes "newline \<notin> set p" and "p \<noteq> []"
  shows "lines_text a \<Longrightarrow> py_count p (a @ b) = py_count p a + py_count p b"
proof (induction "length a" arbitrary: a rule: less_induct)
  case less
  show ?case
  proof (cases a)
    case (Cons c cs)
    have ends: "ends_line a" using less.prems Cons by (simp add: lines_text_def)
    have cs: "lines_text cs" using ends Cons by (auto simp: lines_text_def ends_line_def split: if_splits)
    show ?thesis
    proof (cases "prefix p a")
      case True
      with strip_in_lines [OF ends assms(1), of "[]"] obtain t where t: "a = p @ t" "ends_line t"
        by (auto simp: prefix_def)
      have "drop (length p - 1) cs = t" using t Cons assms(2) by (cases p) auto
      moreover have "length p - 1 \<le> length cs" using t Cons assms(2) by (cases p) auto
      moreover have "py_count p (t @ b) = py_count p t + py_count p b"
        using t assms(2) by (intro less.hyps) (auto simp: lines_text_def)
      ultimately show ?thesis
        using True Cons prefix_lines [OF assms ends, of b] assms(2) by simp
    next
      case False
      have "py_count p (cs @ b) = py_count p cs + py_count p b"
        using Cons cs by (intro less.hyps) auto
      then show ?thesis using False Cons prefix_lines [OF assms ends, of b] by simp
    qed
  qed simp
qed

section \<open>Lemmas: the markers\<close>

text \<open>A pattern that starts and ends with the separator occurs only where its inner pieces occur.\<close>

lemma sublist_pieces:
  assumes "sublist ([c] @ m @ [c]) l"
  shows "sublist (py_split c m) (py_split c l)"
proof -
  from assms obtain p s where "l = p @ c # (m @ c # s)" by (auto simp: sublist_def)
  then have "py_split c l = py_split c p @ py_split c m @ py_split c s"
    by (simp add: py_split_append_sep)
  then show ?thesis by simp
qed

definition query_name :: "string \<Rightarrow> bool" where
  "query_name name = (CHR ''_'' \<notin> set name \<and> newline \<notin> set name)"

definition q_line :: "string \<Rightarrow> string \<Rightarrow> string" where
  "q_line nonce name = q_marker nonce name @ [newline]"

definition rc_line :: "string \<Rightarrow> string \<Rightarrow> nat \<Rightarrow> string" where
  "rc_line nonce name rc = rc_prefix nonce name @ nat_str rc @ ''__'' @ [newline]"

lemma nonce_no_underscore: "is_nonce n \<Longrightarrow> CHR ''_'' \<notin> set n"
  by (auto simp: is_nonce_def list_all_iff)

lemma nat_str_plain: "CHR ''_'' \<notin> set (nat_str k)" "newline \<notin> set (nat_str k)"
  by (rule nat_str_avoids, simp add: is_decimal_def digit_chars_def newline_def)+

lemma q_inner: "q_marker n name = ''_'' @ (''_PREFLIGHT_Q_'' @ n @ ''_'' @ name @ ''_'') @ ''_''"
  by (simp add: q_marker_def PREFLIGHT_QUERY_MARKER_PREFIX_def)

lemma rc_inner: "rc_prefix n name = ''_'' @ (''_PREFLIGHT_RC_'' @ n @ ''_'' @ name) @ ''_''"
  by (simp add: rc_prefix_def PREFLIGHT_RC_MARKER_PREFIX_def)

lemma marker_pieces:
  assumes "is_nonce n" and "query_name name"
  shows "py_split CHR ''_'' (''_PREFLIGHT_Q_'' @ n @ ''_'' @ name @ ''_'') = [[], ''PREFLIGHT'', ''Q'', n, name, []]"
    and "py_split CHR ''_'' (''_PREFLIGHT_RC_'' @ n @ ''_'' @ name) = [[], ''PREFLIGHT'', ''RC'', n, name]"
  using assms nonce_no_underscore [OF assms(1)]
  by (simp_all add: query_name_def py_split_append py_split_free)

lemma line_pieces:
  assumes "is_nonce n" and "query_name name"
  shows "py_split CHR ''_'' (q_line n name) = [[], [], ''PREFLIGHT'', ''Q'', n, name, [], [newline]]"
    and "py_split CHR ''_'' (rc_line n name rc) =
      [[], [], ''PREFLIGHT'', ''RC'', n, name, nat_str rc, [], [newline]]"
  using assms nonce_no_underscore [OF assms(1)] nat_str_plain [of rc]
  by (simp_all add: query_name_def py_split_append py_split_free q_line_def rc_line_def q_marker_def
      rc_prefix_def PREFLIGHT_QUERY_MARKER_PREFIX_def PREFLIGHT_RC_MARKER_PREFIX_def newline_def)

lemma nonce_not_upper: "is_nonce n \<Longrightarrow> n \<noteq> ''PREFLIGHT'' \<and> n \<noteq> ''Q'' \<and> n \<noteq> ''RC'' \<and> n \<noteq> []"
proof -
  have "\<not> hex_char CHR ''P''" "\<not> hex_char CHR ''Q''" "\<not> hex_char CHR ''R''" by code_simp+
  then show "is_nonce n \<Longrightarrow> ?thesis" by (auto simp: is_nonce_def)
qed

lemma decimal_not_upper: "nat_str k \<noteq> ''PREFLIGHT'' \<and> nat_str k \<noteq> ''Q'' \<and> nat_str k \<noteq> ''RC''"
proof -
  have "\<not> is_decimal CHR ''P''" "\<not> is_decimal CHR ''Q''" "\<not> is_decimal CHR ''R''" by code_simp+
  then show ?thesis using nat_str_decimal [of k] by auto
qed

lemma marker_occurs:
  assumes "is_nonce n" and "query_name a"
  shows "sublist (q_marker n a) l \<Longrightarrow> sublist [[], ''PREFLIGHT'', ''Q'', n, a, []] (py_split CHR ''_'' l)"
    and "sublist (rc_prefix n a) l \<Longrightarrow> sublist [[], ''PREFLIGHT'', ''RC'', n, a] (py_split CHR ''_'' l)"
  using sublist_pieces [of "CHR ''_''" _ l] marker_pieces [OF assms] unfolding q_inner rc_inner by metis+

lemma markers_in_lines:
  assumes "is_nonce n" and "query_name a" and "query_name b"
  shows "sublist (q_marker n a) (q_line n b) \<Longrightarrow> a = b"
    and "sublist (rc_prefix n a) (rc_line n b rc) \<Longrightarrow> a = b"
    and "\<not> sublist (q_marker n a) (rc_line n b rc)"
    and "\<not> sublist (rc_prefix n a) (q_line n b)"
  using assms nonce_not_upper [OF assms(1)] decimal_not_upper [of rc]
  by (auto dest!: marker_occurs [OF assms(1,2)] simp: line_pieces [OF assms(1,3)] sublist_Cons_right)

section \<open>Lemmas: an honest bundle\<close>

text \<open>The text the five queries print: per query its begin line, its output, its exit line.\<close>

fun query_bundle :: "string \<Rightarrow> (string \<times> string \<times> nat) list \<Rightarrow> string" where
  "query_bundle n [] = []"
| "query_bundle n ((name, body, rc) # qs) = q_line n name @ body @ rc_line n name rc @ query_bundle n qs"

definition query_ok :: "string \<Rightarrow> string \<times> string \<times> nat \<Rightarrow> bool" where
  "query_ok n = (\<lambda>(name, body, rc). query_name name \<and> lines_text body \<and> \<not> sublist n body)"

lemma marker_plain:
  assumes "is_nonce n" and "query_name a"
  shows "newline \<notin> set (q_marker n a)" "q_marker n a \<noteq> []" "newline \<notin> set (rc_prefix n a)" "rc_prefix n a \<noteq> []"
  using assms nonce_no_newline [OF assms(1)]
  by (auto simp: q_marker_def rc_prefix_def PREFLIGHT_QUERY_MARKER_PREFIX_def PREFLIGHT_RC_MARKER_PREFIX_def
      query_name_def newline_def)

lemma marker_has_nonce: "sublist n (q_marker n a)" "sublist n (rc_prefix n a)"
  by (auto simp: q_marker_def rc_prefix_def)

lemma body_no_marker:
  "\<not> sublist n body \<Longrightarrow> \<not> sublist (q_marker n a) body \<and> \<not> sublist (rc_prefix n a) body"
  using marker_has_nonce by (metis sublist_order.order.trans)

lemma py_count_front:
  assumes "p \<noteq> []"
  shows "py_count p (p @ r) = Suc (py_count p r)"
proof -
  obtain c p' where "p = c # p'" using assms by (cases p) auto
  then show ?thesis by simp
qed

lemma lines_of_line [simp]: "lines_text (q_line n a)" "lines_text (rc_line n a rc)"
  unfolding q_line_def rc_line_def by (auto simp: lines_text_def ends_line_def)

lemma count_q_line:
  assumes "is_nonce n" and "query_name a" and "query_name b"
  shows "py_count (q_marker n a) (q_line n b) = (if a = b then 1 else 0)"
proof (cases "a = b")
  case True
  have "\<not> sublist (q_marker n b) [newline]"
    using marker_occurs(1) [OF assms(1,3), of "[newline]"] by (auto simp: newline_def sublist_Cons_right)
  then have "py_count (q_marker n b) [newline] = 0"
    using marker_plain(2) [OF assms(1,3)] by (simp only: py_count_zero not_False_eq_True)
  then show ?thesis
    using True py_count_front [OF marker_plain(2) [OF assms(1,3)], of "[newline]"]
    by (simp only: q_line_def) simp
next
  case False
  then show ?thesis
    using markers_in_lines(1) [OF assms] marker_plain(2) [OF assms(1,2)] by (auto simp: py_count_zero)
qed

lemma count_rc_line:
  assumes "is_nonce n" and "query_name a" and "query_name b"
  shows "py_count (rc_prefix n a) (rc_line n b rc) = (if a = b then 1 else 0)"
proof (cases "a = b")
  case True
  have "py_split CHR ''_'' (nat_str rc @ ''__'' @ [newline]) = [nat_str rc, [], [newline]]"
    using nat_str_plain [of rc] by (simp add: py_split_append newline_def)
  then have "\<not> sublist (rc_prefix n b) (nat_str rc @ ''__'' @ [newline])"
    using marker_occurs(2) [OF assms(1,3), of "nat_str rc @ ''__'' @ [newline]"]
    by (auto simp: sublist_Cons_right)
  then have "py_count (rc_prefix n b) (nat_str rc @ ''__'' @ [newline]) = 0"
    using marker_plain(4) [OF assms(1,3)] by (simp only: py_count_zero not_False_eq_True)
  then show ?thesis
    using True py_count_front [OF marker_plain(4) [OF assms(1,3)], of "nat_str rc @ ''__'' @ [newline]"]
    by (simp only: rc_line_def) simp
next
  case False
  then show ?thesis
    using markers_in_lines(2) [OF assms] marker_plain(4) [OF assms(1,2)] by (auto simp: py_count_zero)
qed

lemma count_bundle:
  assumes "is_nonce n" and "query_name a" and "list_all (query_ok n) qs"
  shows "py_count (q_marker n a) (query_bundle n qs) = length (filter (\<lambda>q. fst q = a) qs)"
    and "py_count (rc_prefix n a) (query_bundle n qs) = length (filter (\<lambda>q. fst q = a) qs)"
    and "lines_text (query_bundle n qs)"
proof -
  note plain = marker_plain [OF assms(1,2)]
  note cl = py_count_lines [OF plain(1,2)] py_count_lines [OF plain(3,4)]
  note zero = py_count_zero [OF plain(2)] py_count_zero [OF plain(4)]
  show "py_count (q_marker n a) (query_bundle n qs) = length (filter (\<lambda>q. fst q = a) qs)"
    and "py_count (rc_prefix n a) (query_bundle n qs) = length (filter (\<lambda>q. fst q = a) qs)"
    and "lines_text (query_bundle n qs)"
    using assms(3)
    by (induction qs)
      (auto simp: query_ok_def cl count_q_line [OF assms(1,2)] count_rc_line [OF assms(1,2)] zero
        markers_in_lines(3,4) [OF assms(1,2)] body_no_marker)
qed

lemma bundle_no_marker:
  assumes "is_nonce n" and "query_name a" and "list_all (query_ok n) qs" and "a \<notin> fst ` set qs"
  shows "\<not> sublist (q_marker n a) (query_bundle n qs)"
proof -
  have "filter (\<lambda>q. fst q = a) qs = []" using assms(4) by (auto simp: filter_empty_conv)
  then show ?thesis
    using count_bundle(1) [OF assms(1-3)] marker_plain(2) [OF assms(1,2)] py_count_zero by fastforce
qed

lemma py_find_dunder: "CHR ''_'' \<notin> set a \<Longrightarrow> py_find ''__'' (a @ ''__'' @ r) = Some (length a)"
  by (induction a) (auto simp: py_find_prefix)

lemma before_dunder_token: "before_dunder (nat_str rc @ ''__'' @ r) = nat_str rc"
  using py_find_dunder [OF nat_str_plain(1), of rc r] by (simp add: before_dunder_def)

lemma py_strip_nat_str: "py_strip (nat_str k) = nat_str k"
proof -
  have "\<forall>c \<in> set (nat_str k). \<not> is_space c"
    using nat_str_decimal [of k] decimal_not_space by (auto simp: list_all_iff)
  then show ?thesis by (intro py_strip_nonspace_ends) simp_all
qed

lemma py_strip_newline_Cons: "py_strip (newline # s) = py_strip s"
  by (simp add: py_strip_def py_lstrip_def)

definition query_outcome :: "bool \<Rightarrow> string \<times> string \<times> nat \<Rightarrow> string \<times> probe_outcome" where
  "query_outcome timed_out = (\<lambda>(name, body, rc).
     (name, \<lparr>po_ok = (rc = 0), po_timed_out = timed_out,
        po_stdout = (if rc = 0 then py_strip body else []),
        po_message = (if rc = 0 then NoMessage else QueryExited name (int rc) (py_strip body)),
        preflight_nonce = None\<rparr>))"

lemma parse_query_block:
  assumes n: "is_nonce n" and q: "query_ok n (name, body, rc)"
    and whole: "blob = p @ q_line n name @ body @ rc_line n name rc @ r"
    and counts: "py_count (q_marker n name) blob \<le> 1" "py_count (rc_prefix n name) blob \<le> 1"
    and p: "lines_text p" "\<not> sublist (q_marker n name) p" "cursor \<le> length p"
  shows "\<exists>cursor'. parse_query blob n t cursor name = (snd (query_outcome t (name, body, rc)), cursor') \<and>
    cursor' \<le> length (p @ q_line n name @ body @ rc_line n name rc)"
proof -
  have nm: "query_name name" and body: "lines_text body" "\<not> sublist n body"
    using q by (auto simp: query_ok_def)
  note plain = marker_plain [OF n nm]
  define qm rcp where "qm = q_marker n name" and "rcp = rc_prefix n name"
  have pd: "lines_text (drop cursor p)" "\<not> sublist qm (drop cursor p)"
    using p by (auto simp: qm_def lines_text_drop intro: sublist_order.order.trans [OF _ sublist_drop])
  have "py_find qm (drop cursor p @ q_line n name @ body @ rc_line n name rc @ r) =
      map_option (\<lambda>i. length (drop cursor p) + i) (py_find qm (q_line n name @ body @ rc_line n name rc @ r))"
    using plain(1,2) pd unfolding qm_def by (rule py_find_lines)
  also have "py_find qm (q_line n name @ body @ rc_line n name rc @ r) = Some 0"
    by (rule py_find_prefix) (simp add: q_line_def qm_def)
  finally have fq: "py_find_from qm cursor blob = Some (length p)"
    using p(3) by (simp add: py_find_from_def whole)
  have nb: "\<not> sublist rcp (newline # body)"
  proof -
    have "\<not> sublist rcp ([newline] @ body)"
      using sublist_lines [OF plain(3,4), of "[newline]" body] body_no_marker [OF body(2), of name]
        marker_occurs(2) [OF n nm, of "[newline]"]
      by (auto simp: rcp_def lines_text_def ends_line_def newline_def sublist_Cons_right)
    then show ?thesis by simp
  qed
  have lb: "lines_text (newline # body)" using body(1) by (auto simp: lines_text_def ends_line_def)
  have "py_find rcp ((newline # body) @ rc_line n name rc @ r) =
      map_option (\<lambda>i. length (newline # body) + i) (py_find rcp (rc_line n name rc @ r))"
    using plain(3,4) lb nb unfolding rcp_def by (rule py_find_lines)
  also have "py_find rcp (rc_line n name rc @ r) = Some 0"
    by (rule py_find_prefix) (simp add: rc_line_def rcp_def)
  finally have frc: "py_find_from rcp (length p + length qm) blob = Some (length p + length qm + 1 + length body)"
    by (simp add: py_find_from_def whole q_line_def qm_def)
  define qe re where "qe = length p + length qm" and "re = length p + length qm + 1 + length body"
  note frc = frc [folded qe_def re_def]
  have seg: "drop qe (take re blob) = newline # body"
    by (simp add: whole q_line_def qm_def qe_def re_def)
  have tail: "drop (re + length rcp) blob = nat_str rc @ ''__'' @ newline # r"
    by (simp add: whole q_line_def qm_def rcp_def rc_line_def re_def)
  have tok: "py_strip (before_dunder (nat_str rc @ ''__'' @ newline # r)) = nat_str rc"
    unfolding before_dunder_token by (rule py_strip_nat_str)
  have "\<not> (1 < py_count qm blob \<or> 1 < py_count rcp blob)" using counts by (simp add: qm_def rcp_def)
  then have "parse_query blob n t cursor name = (snd (query_outcome t (name, body, rc)), re + length rcp)"
    unfolding parse_query_def Let_def qm_def [symmetric] rcp_def [symmetric]
    by (simp only: if_False fq option.case qe_def [symmetric] frc seg tail tok py_int_nat_str
        py_strip_newline_Cons query_outcome_def prod.case snd_conv of_nat_eq_0_iff)
  then have "\<exists>cursor'. parse_query blob n t cursor name = (snd (query_outcome t (name, body, rc)), cursor') \<and>
    cursor' = length p + length qm + 1 + length body + length rcp"
    by (auto simp: re_def)
  then show ?thesis by (auto simp: q_line_def rc_line_def qm_def rcp_def)
qed

lemma parse_queries_bundle:
  assumes n: "is_nonce n" and ok: "list_all (query_ok n) (pre @ qs)" and dist: "distinct (map fst (pre @ qs))"
    and lead: "lines_text lead" "\<not> sublist n lead"
    and cursor: "cursor \<le> length (lead @ query_bundle n pre)"
    and whole: "blob = lead @ query_bundle n (pre @ qs)"
  shows "parse_queries blob n t cursor (map fst qs) = map (query_outcome t) qs"
  using ok dist cursor whole
proof (induction qs arbitrary: pre cursor)
  case (Cons q qs)
  obtain name body rc where q: "q = (name, body, rc)" by (cases q)
  have split: "query_bundle n (xs @ ys) = query_bundle n xs @ query_bundle n ys" for xs ys
    by (induction xs) auto
  have nm: "query_name name" and qok: "query_ok n (name, body, rc)" and dok: "list_all (query_ok n) pre"
    using Cons.prems(1) q by (auto simp: query_ok_def)
  have fresh: "name \<notin> fst ` set pre" using Cons.prems(2) q by auto
  have "length (filter (\<lambda>q. fst q = name) (pre @ q # qs)) \<le> 1"
  proof -
    have "distinct (map fst (filter (\<lambda>q. fst q = name) (pre @ q # qs)))"
      using Cons.prems(2) distinct_map_filter by blast
    moreover have "set (map fst (filter (\<lambda>q. fst q = name) (pre @ q # qs))) \<subseteq> {name}" by auto
    ultimately have "card (set (map fst (filter (\<lambda>q. fst q = name) (pre @ q # qs)))) \<le> card {name}"
      by (intro card_mono) auto
    then show ?thesis
      using distinct_card [OF \<open>distinct (map fst (filter (\<lambda>q. fst q = name) (pre @ q # qs)))\<close>] by simp
  qed
  moreover have no_lead: "\<not> sublist (q_marker n name) lead" "\<not> sublist (rc_prefix n name) lead"
    using body_no_marker [OF lead(2)] by auto
  moreover have "py_count (q_marker n name) lead = 0" "py_count (rc_prefix n name) lead = 0"
    using no_lead py_count_zero [OF marker_plain(2) [OF n nm]] py_count_zero [OF marker_plain(4) [OF n nm]] by auto
  ultimately have counts: "py_count (q_marker n name) blob \<le> 1" "py_count (rc_prefix n name) blob \<le> 1"
    using count_bundle [OF n nm Cons.prems(1)] Cons.prems(4)
      py_count_lines [OF marker_plain(1,2) [OF n nm] lead(1)] py_count_lines [OF marker_plain(3,4) [OF n nm] lead(1)]
    by auto
  have pre: "lines_text (lead @ query_bundle n pre)" "\<not> sublist (q_marker n name) (lead @ query_bundle n pre)"
    using no_lead sublist_lines [OF marker_plain(1,2) [OF n nm] lead(1)] bundle_no_marker [OF n nm dok fresh]
      count_bundle(3) [OF n nm dok] lead(1) by auto
  have whole: "blob = (lead @ query_bundle n pre) @ q_line n name @ body @ rc_line n name rc @ query_bundle n qs"
    using Cons.prems(4) q by (simp add: split)
  obtain cursor' where one: "parse_query blob n t cursor name = (snd (query_outcome t q), cursor')"
    and c': "cursor' \<le> length ((lead @ query_bundle n pre) @ q_line n name @ body @ rc_line n name rc)"
    using parse_query_block [OF n qok whole counts pre Cons.prems(3)] q by auto
  have "parse_queries blob n t cursor' (map fst qs) = map (query_outcome t) qs"
    using Cons.prems c' q by (intro Cons.IH [of "pre @ [q]"]) (auto simp: split)
  with one q show ?case by (simp add: query_outcome_def)
qed simp

section \<open>Properties\<close>

text \<open>The preflight round trip. When the five queries print what the bundle asks for, each between
  its markers, in lines that do not contain the nonce (leading lines are allowed), the parser returns exactly one outcome per query:
  ok just when the query's own exit code is 0, with the query's stripped output, and otherwise a message
  with the exit code and the output. One query's failure never affects another's verdict.\<close>

theorem preflight_roundtrip:
  assumes "is_nonce n" and "list_all (query_ok n) qs" and "map fst qs = map fst preflight_query_segments"
    and "preflight_nonce outcome = Some n" and "po_stdout outcome = lead @ query_bundle n qs"
    and "lines_text lead" and "\<not> sublist n lead"
  shows "parse_preflight_outcome outcome = map (\<lambda>(name, body, rc).
     (name, \<lparr>po_ok = (rc = 0), po_timed_out = po_timed_out outcome,
        po_stdout = (if rc = 0 then py_strip body else []),
        po_message = (if rc = 0 then NoMessage else QueryExited name (int rc) (py_strip body)),
        preflight_nonce = None\<rparr>)) qs"
proof -
  have "distinct (map fst preflight_query_segments)" by code_simp
  then have "parse_queries (lead @ query_bundle n qs) n (po_timed_out outcome) 0 (map fst qs) =
      map (query_outcome (po_timed_out outcome)) qs"
    using assms parse_queries_bundle [of n "[]" qs lead 0] by auto
  moreover have "n \<noteq> []" using assms(1) by (simp add: is_nonce_def)
  ultimately show ?thesis
    using assms(3-5) by (simp add: parse_preflight_outcome_def Let_def query_outcome_def)
qed

definition sample_queries :: "(string \<times> string \<times> nat) list" where
  "sample_queries = [(''auth-probe'', ''ok'' @ [newline], 0), (''docker-version'', ''no daemon'' @ [newline], 1),
     (''docker-info-security-options'', [], 1),
     (''docker-info-runtimes'', ''__PREFLIGHT_RC_ff_compose-ls_0__'' @ [newline], 1), (''compose-ls'', [], 1)]"

theorem preflight_roundtrip_witness:
  "map (\<lambda>(name, r). (name, po_ok r)) (parse_preflight_outcome
     \<lparr>po_ok = True, po_timed_out = False, po_stdout = query_bundle ''a1'' sample_queries,
      po_message = NoMessage, preflight_nonce = Some ''a1''\<rparr>) =
   [(''auth-probe'', True), (''docker-version'', False), (''docker-info-security-options'', False),
    (''docker-info-runtimes'', False), (''compose-ls'', False)]"
proof -
  have *: "is_nonce ''a1''" "list_all (query_ok ''a1'') sample_queries"
    "map fst sample_queries = map fst preflight_query_segments"
    by code_simp+
  show ?thesis
    by (subst preflight_roundtrip [OF *, where lead = "[]"]) (simp_all add: sample_queries_def)
qed

lemma parse_query_failed_or_backed:
  "case parse_query blob n t cursor name of (r, cursor') \<Rightarrow>
     po_timed_out r = t \<and> preflight_nonce r = None \<and>
     (if po_ok r
      then py_count (q_marker n name) blob \<le> 1 \<and> py_count (rc_prefix n name) blob \<le> 1 \<and>
        (\<exists>a seg c. blob = a @ q_marker n name @ seg @ rc_prefix n name @ c \<and> cursor \<le> length a \<and>
           po_stdout r = py_strip seg \<and> py_int (py_strip (before_dunder c)) = Some 0)
      else po_stdout r = [])"
proof -
  define q rcp where "q = q_marker n name" and "rcp = rc_prefix n name"
  have backed: "\<exists>a seg c. blob = a @ q @ seg @ rcp @ c \<and> cursor \<le> length a \<and> length a = i \<and>
      drop (i + length q) (take j blob) = seg \<and> drop (j + length rcp) blob = c"
    if "py_find_from q cursor blob = Some i" "py_find_from rcp (i + length q) blob = Some j" for i j
  proof -
    from that(1) obtain i' where i': "i = cursor + i'" "cursor \<le> length blob" "py_find q (drop cursor blob) = Some i'"
      by (auto simp: py_find_from_def split: if_splits)
    from that(2) obtain j' where j': "j = i + length q + j'" "i + length q \<le> length blob"
      "py_find rcp (drop (i + length q) blob) = Some j'"
      by (auto simp: py_find_from_def split: if_splits)
    have q: "take (length q) (drop i blob) = q" using py_find_Some [OF i'(3)] i'(1) by (simp add: add.commute)
    have r: "take (length rcp) (drop j blob) = rcp" using py_find_Some [OF j'(3)] j'(1) by (simp add: add_ac)
    define a seg c where "a = take i blob" and "seg = drop (i + length q) (take j blob)" and "c = drop (j + length rcp) blob"
    have "blob = a @ drop i blob" by (simp add: a_def)
    also have "drop i blob = q @ drop (i + length q) blob"
      using q by (metis append_take_drop_id drop_drop add.commute)
    also have "drop (i + length q) blob = seg @ drop j blob"
      using j'(1) append_take_drop_id [of j' "drop (i + length q) blob"]
      by (simp add: seg_def drop_take add.commute)
    also have "drop j blob = rcp @ c"
      using r by (metis append_take_drop_id drop_drop add.commute c_def)
    finally have "blob = a @ q @ seg @ rcp @ c" by simp
    moreover have "length a = i" using j'(2) by (simp add: a_def)
    ultimately show ?thesis using i'(1) seg_def c_def by auto
  qed
  show ?thesis
  proof (cases "1 < py_count q blob \<or> 1 < py_count rcp blob \<or> py_find_from q cursor blob = None \<or>
      (\<exists>i. py_find_from q cursor blob = Some i \<and> py_find_from rcp (i + length q) blob = None)")
    case True
    then show ?thesis
      by (auto simp: parse_query_def Let_def failed_query_def q_def rcp_def)
  next
    case False
    then obtain i j where ij: "py_find_from q cursor blob = Some i" "py_find_from rcp (i + length q) blob = Some j"
      and cnt: "\<not> (1 < py_count q blob \<or> 1 < py_count rcp blob)" by auto
    obtain a seg c where b: "blob = a @ q @ seg @ rcp @ c" "cursor \<le> length a"
      "drop (i + length q) (take j blob) = seg" "drop (j + length rcp) blob = c"
      using backed [OF ij] by blast
    have pq: "parse_query blob n t cursor name =
       (case py_int (py_strip (before_dunder c)) of
          None \<Rightarrow> (failed_query t (RcUnparseable name (py_strip (before_dunder c))), cursor)
        | Some rc \<Rightarrow> (\<lparr>po_ok = (rc = 0), po_timed_out = t, po_stdout = (if rc = 0 then py_strip seg else []),
             po_message = (if rc = 0 then NoMessage else QueryExited name rc (py_strip seg)),
             preflight_nonce = None\<rparr>, j + length rcp))"
      unfolding parse_query_def Let_def q_def [symmetric] rcp_def [symmetric]
      by (simp only: cnt if_False ij option.case b(3,4))
    have "\<exists>a' seg' c'. blob = a' @ q @ seg' @ rcp @ c' \<and> cursor \<le> length a' \<and>
        py_strip seg = py_strip seg' \<and> py_int (py_strip (before_dunder c')) = Some 0"
      if "py_int (py_strip (before_dunder c)) = Some 0"
      using b that by blast
    then show ?thesis
      unfolding pq q_def [symmetric] rcp_def [symmetric]
      using cnt by (auto simp: failed_query_def split: option.splits)
  qed
qed

lemma parse_queries_backed:
  "(name, r) \<in> set (parse_queries blob n t cursor names) \<Longrightarrow>
     if po_ok r
     then py_count (q_marker n name) blob \<le> 1 \<and> py_count (rc_prefix n name) blob \<le> 1 \<and>
       (\<exists>a seg c. blob = a @ q_marker n name @ seg @ rc_prefix n name @ c \<and>
          po_stdout r = py_strip seg \<and> py_int (py_strip (before_dunder c)) = Some 0)
     else po_stdout r = []"
proof (induction names arbitrary: cursor)
  case (Cons nm names)
  then show ?case
    using parse_query_failed_or_backed [where blob = blob and n = n and t = t and cursor = cursor and name = nm]
    by (auto split: prod.splits if_splits)
qed simp

lemma parse_queries_names: "map fst (parse_queries blob n t cursor names) = names"
  by (induction names arbitrary: cursor) (auto split: prod.splits)

text \<open>No verdict without the nonce. Every query gets exactly one outcome. An outcome is ok only
  when the text holds, for the crossing's own nonce, the query's begin marker and behind it its exit
  marker with code 0, neither of them twice; the reported output is what stands between them. Otherwise
  the outcome carries no output. In particular nothing is ok when the nonce is absent or the text does
  not contain it.\<close>

theorem preflight_fail_closed:
  "map fst (parse_preflight_outcome outcome) = map fst preflight_query_segments \<and>
   (\<forall>(name, r) \<in> set (parse_preflight_outcome outcome).
      if po_ok r
      then \<exists>n a seg c. preflight_nonce outcome = Some n \<and> n \<noteq> [] \<and> sublist n (po_stdout outcome) \<and>
        po_stdout outcome = a @ q_marker n name @ seg @ rc_prefix n name @ c \<and>
        py_count (q_marker n name) (po_stdout outcome) \<le> 1 \<and> py_count (rc_prefix n name) (po_stdout outcome) \<le> 1 \<and>
        po_stdout r = py_strip seg \<and> py_int (py_strip (before_dunder c)) = Some 0
      else po_stdout r = [])"
proof (cases "preflight_nonce outcome = None \<or> preflight_nonce outcome = Some []")
  case True
  then show ?thesis by (auto simp: parse_preflight_outcome_def failed_query_def Let_def)
next
  case False
  then obtain n where n: "preflight_nonce outcome = Some n" "n \<noteq> []" by auto
  have backed: "if po_ok r
      then \<exists>n a seg c. preflight_nonce outcome = Some n \<and> n \<noteq> [] \<and> sublist n (po_stdout outcome) \<and>
        po_stdout outcome = a @ q_marker n name @ seg @ rc_prefix n name @ c \<and>
        py_count (q_marker n name) (po_stdout outcome) \<le> 1 \<and> py_count (rc_prefix n name) (po_stdout outcome) \<le> 1 \<and>
        po_stdout r = py_strip seg \<and> py_int (py_strip (before_dunder c)) = Some 0
      else po_stdout r = []"
    if "(name, r) \<in> set (parse_queries (po_stdout outcome) n (po_timed_out outcome) 0 names)" for name r names
  proof (cases "po_ok r")
    case True
    with parse_queries_backed [OF that] obtain a seg c where *:
      "po_stdout outcome = a @ q_marker n name @ seg @ rc_prefix n name @ c"
      "py_count (q_marker n name) (po_stdout outcome) \<le> 1" "py_count (rc_prefix n name) (po_stdout outcome) \<le> 1"
      "po_stdout r = py_strip seg" "py_int (py_strip (before_dunder c)) = Some 0"
      by auto
    have "sublist (q_marker n name) (po_stdout outcome)" unfolding *(1) by (rule sublist_appendI)
    then have "sublist n (po_stdout outcome)"
      using marker_has_nonce(1) by (rule sublist_order.order.trans [rotated])
    with * n True show ?thesis by auto
  next
    case False
    with parse_queries_backed [OF that] show ?thesis by simp
  qed
  have eq: "parse_preflight_outcome outcome = parse_queries (po_stdout outcome) n (po_timed_out outcome) 0
      (map fst preflight_query_segments)"
    using n by (simp add: parse_preflight_outcome_def Let_def)
  show ?thesis
    unfolding eq using parse_queries_names backed by blast
qed

theorem preflight_fail_closed_witness:
  "map fst (parse_preflight_outcome
     \<lparr>po_ok = False, po_timed_out = True, po_stdout = [], po_message = NoMessage, preflight_nonce = None\<rparr>) =
   [''auth-probe'', ''docker-version'', ''docker-info-security-options'', ''docker-info-runtimes'', ''compose-ls'']"
  using preflight_fail_closed [of "\<lparr>po_ok = False, po_timed_out = True, po_stdout = [], po_message = NoMessage, preflight_nonce = None\<rparr>"]
  by (simp add: preflight_query_segments_def)

end
