(* ===== verification/Journal.thy ===== *)
theory Journal
  imports Py_Dict
begin

text \<open>
  The operator-side audit record of \<open>src/src/core/journal_audit.py\<close>: the field set of a local op and its
  serialisation in the native journal format, as a list of bytes. The reader of that format is the
  specification: a field is \<open>KEY=VALUE\<close> on a line, or \<open>KEY\<close>, a little-endian length and that many
  bytes. Sending the datagram is best effort and has no result, so an op's audit is its payload.
\<close>

section \<open>Operations\<close>

type_synonym bytes = "nat list"

text \<open>UTF-8 of the modelled range, one or two bytes per character.\<close>

definition utf8_char :: "char \<Rightarrow> bytes" where
  "utf8_char c = (let n = of_char c :: nat in if n < 128 then [n] else [192 + n div 64, 128 + n mod 64])"

definition utf8 :: "string \<Rightarrow> bytes" where
  "utf8 s = concat (map utf8_char s)"

fun le_bytes :: "nat \<Rightarrow> nat \<Rightarrow> bytes" where
  "le_bytes 0 n = []"
| "le_bytes (Suc k) n = n mod 256 # le_bytes k (n div 256)"

definition truncate256 :: "string \<Rightarrow> string" where
  "truncate256 s = (if 256 < length s then take 256 s else s)"

definition encode_field :: "string \<times> string \<Rightarrow> bytes" where
  "encode_field = (\<lambda>(key, val).
     if 10 \<in> set (utf8 val)
     then utf8 key @ [10] @ le_bytes 8 (length (utf8 val)) @ utf8 val @ [10]
     else utf8 key @ [61] @ utf8 val @ [10])"

definition encode_journal_fields :: "(string, string) dict \<Rightarrow> bytes" where
  "encode_journal_fields fields = concat (map encode_field fields)"

definition audit_fields ::
  "string \<Rightarrow> string list \<Rightarrow> string list \<Rightarrow> string \<Rightarrow> (string, string) dict" where
  "audit_fields opv args target_argv inst =
     [(''MESSAGE'', ''dispatch '' @ opv @ '' '' @ py_join '' '' args),
      (''PRIORITY'', ''6''),
      (''SANDBOX_AI_OP'', opv),
      (''SANDBOX_AI_ARGS_SUMMARY'', truncate256 (py_join '','' args)),
      (''SANDBOX_AI_TARGET_ARGV_SUMMARY'', truncate256 (py_join '' '' target_argv)),
      (''SANDBOX_AI_INSTANCE'', inst)]"

definition emit_op_audit :: "string \<Rightarrow> string list \<Rightarrow> string list \<Rightarrow> string \<Rightarrow> bytes" where
  "emit_op_audit opv args target_argv inst = encode_journal_fields (audit_fields opv args target_argv inst)"

section \<open>The journal's reader\<close>

fun le_value :: "bytes \<Rightarrow> nat" where
  "le_value [] = 0"
| "le_value (b # bs) = b + 256 * le_value bs"

definition key_end :: "nat \<Rightarrow> bool" where
  "key_end b = (b = 61 \<or> b = 10)"

lemma dropWhile_Cons_length: "dropWhile P bs = b # r \<Longrightarrow> length r < length bs"
  using length_dropWhile_le [of P bs] by simp

function journal_read :: "bytes \<Rightarrow> (bytes \<times> bytes) list option" where
  "journal_read bs =
     (if bs = [] then Some []
      else let key = takeWhile (\<lambda>b. \<not> key_end b) bs in
        (case dropWhile (\<lambda>b. \<not> key_end b) bs of
           [] \<Rightarrow> None
         | b # r \<Rightarrow>
             if b = 61 then
               let val = takeWhile (\<lambda>b. b \<noteq> 10) r; rest = drop (Suc (length val)) r in
               if length val = length r then None
               else map_option (\<lambda>fs. (key, val) # fs) (journal_read rest)
             else
               let n = le_value (take 8 r); rest = drop (8 + n + 1) r in
               if length r < 8 + n + 1 \<or> r ! (8 + n) \<noteq> 10 then None
               else map_option (\<lambda>fs. (key, take n (drop 8 r)) # fs) (journal_read rest)))"
  by pat_completeness auto
termination
  by (relation "measure length") (auto dest!: dropWhile_Cons_length)

declare journal_read.simps [simp del]

section \<open>Lemmas\<close>

lemma le_value_bytes: "n < 256 ^ k \<Longrightarrow> le_value (le_bytes k n) = n"
proof (induction k arbitrary: n)
  case (Suc k)
  then have "n div 256 < 256 ^ k" by (simp add: less_mult_imp_div_less mult.commute)
  with Suc.IH show ?case by simp
qed simp

lemma length_le_bytes [simp]: "length (le_bytes k n) = k"
  by (induction k arbitrary: n) simp_all

definition plain_key :: "string \<Rightarrow> bool" where
  "plain_key key = list_all (\<lambda>b. \<not> key_end b) (utf8 key)"

lemma journal_read_field:
  assumes "plain_key key" and "length (utf8 val) < 2 ^ 64"
  shows "journal_read (encode_field (key, val) @ rest) =
    map_option (\<lambda>fs. (utf8 key, utf8 val) # fs) (journal_read rest)"
proof -
  have tw: "takeWhile (\<lambda>b. \<not> key_end b) (utf8 key @ b # r) = utf8 key"
    "dropWhile (\<lambda>b. \<not> key_end b) (utf8 key @ b # r) = b # r" if "key_end b" for b r
    using assms(1) that by (auto simp: plain_key_def list_all_iff takeWhile_append dropWhile_append)
  have key_ends: "key_end 61" "key_end 10" by (simp_all add: key_end_def)
  show ?thesis
  proof (cases "10 \<in> set (utf8 val)")
    case True
    have n: "le_value (le_bytes 8 (length (utf8 val))) = length (utf8 val)"
      using assms(2) by (intro le_value_bytes) simp
    define r where "r = le_bytes 8 (length (utf8 val)) @ utf8 val @ 10 # rest"
    have r: "le_value (take 8 r) = length (utf8 val)" "r ! (8 + length (utf8 val)) = 10"
      "take (length (utf8 val)) (drop 8 r) = utf8 val" "drop (9 + length (utf8 val)) r = rest"
      "length r = 8 + length (utf8 val) + 1 + length rest"
      using n by (simp_all add: r_def nth_append)
    have e: "encode_field (key, val) @ rest = utf8 key @ 10 # r"
      using True by (simp add: encode_field_def r_def)
    show ?thesis
      unfolding e
      by (subst journal_read.simps) (simp add: tw key_ends Let_def r)
  next
    case False
    define r where "r = utf8 val @ 10 # rest"
    have "takeWhile (\<lambda>b. b \<noteq> 10) r = utf8 val" using False by (auto simp: r_def takeWhile_append)
    moreover have "length (utf8 val) \<noteq> length r" "drop (Suc (length (utf8 val))) r = rest"
      by (simp_all add: r_def)
    moreover have "encode_field (key, val) @ rest = utf8 key @ 61 # r"
      using False by (simp add: encode_field_def r_def)
    ultimately show ?thesis
      by (subst journal_read.simps) (simp add: tw key_ends Let_def)
  qed
qed

lemma length_utf8: "length (utf8 s) \<le> 2 * length s"
proof (induction s)
  case (Cons c s)
  have "length (utf8_char c) \<le> 2" by (simp add: utf8_char_def Let_def)
  with Cons show ?case by (simp add: utf8_def)
qed (simp add: utf8_def)

lemma utf8_char_of:
  "utf8_char c = utf8_char d \<Longrightarrow> c = d"
proof -
  assume "utf8_char c = utf8_char d"
  then have "(of_char c :: nat) = of_char d \<or>
      (of_char c :: nat) div 64 = of_char d div 64 \<and> (of_char c :: nat) mod 64 = of_char d mod 64"
    by (auto simp: utf8_char_def Let_def split: if_splits)
  then have "(of_char c :: nat) = of_char d" by (metis div_mult_mod_eq)
  then show ?thesis by simp
qed

lemma utf8_char_prefix_free:
  "utf8_char c @ r = utf8_char d @ t \<Longrightarrow> c = d \<and> r = t"
proof -
  assume eq: "utf8_char c @ r = utf8_char d @ t"
  have small: "(of_char c :: nat) < 256" "(of_char d :: nat) < 256"
    using nat_of_char_less_256 by auto
  have "length (utf8_char c) = length (utf8_char d)"
    using eq by (auto simp: utf8_char_def Let_def split: if_splits)
  with eq have "utf8_char c = utf8_char d \<and> r = t" by simp
  then show ?thesis using utf8_char_of by auto
qed

lemma utf8_inject: "utf8 s = utf8 t \<longleftrightarrow> s = t"
proof
  show "utf8 s = utf8 t \<Longrightarrow> s = t"
  proof (induction s arbitrary: t)
    case Nil
    then show ?case by (cases t) (auto simp: utf8_def utf8_char_def Let_def split: if_splits)
  next
    case (Cons c s)
    then obtain d t' where t: "t = d # t'"
      by (cases t) (auto simp: utf8_def utf8_char_def Let_def split: if_splits)
    with Cons.prems have "c = d \<and> utf8 s = utf8 t'"
      by (intro utf8_char_prefix_free) (simp add: utf8_def)
    with t Cons.IH show ?case by auto
  qed
qed simp

section \<open>Properties\<close>

text \<open>The audit record cannot be forged by what it records. Whatever the op name, arguments, argv
  and instance hold, newlines and equals signs included, the journal reads the payload back as exactly
  the six fields with exactly those values.\<close>

theorem audit_record_roundtrip:
  assumes "\<forall>(k, v) \<in> set (audit_fields opv args argv inst). length (utf8 v) < 2 ^ 64"
  shows "journal_read (emit_op_audit opv args argv inst) =
    Some (map (\<lambda>(k, v). (utf8 k, utf8 v)) (audit_fields opv args argv inst))"
proof -
  have rd: "journal_read (encode_journal_fields fs) = Some (map (\<lambda>(k, v). (utf8 k, utf8 v)) fs)"
    if "\<forall>(k, v) \<in> set fs. plain_key k \<and> length (utf8 v) < 2 ^ 64" for fs
    using that
  proof (induction fs)
    case Nil
    then show ?case by (subst journal_read.simps) (simp add: encode_journal_fields_def)
  next
    case (Cons f fs)
    obtain k v where f: "f = (k, v)" by (cases f)
    with Cons.prems have "plain_key k" "length (utf8 v) < 2 ^ 64" by auto
    from journal_read_field [OF this, of "encode_journal_fields fs"] Cons f show ?case
      by (simp add: encode_journal_fields_def)
  qed
  have "list_all plain_key (map fst (audit_fields [] [] [] []))" by code_simp
  then have "\<forall>(k, v) \<in> set (audit_fields opv args argv inst). plain_key k"
    by (simp add: audit_fields_def)
  with assms show ?thesis unfolding emit_op_audit_def by (intro rd) auto
qed

theorem audit_record_roundtrip_witness:
  "\<exists>fs. journal_read (emit_op_audit ''fwd'' [''a'' @ [newline] @ ''PRIORITY=0''] [] []) = Some fs \<and>
     map fst fs = map utf8 [''MESSAGE'', ''PRIORITY'', ''SANDBOX_AI_OP'', ''SANDBOX_AI_ARGS_SUMMARY'',
       ''SANDBOX_AI_TARGET_ARGV_SUMMARY'', ''SANDBOX_AI_INSTANCE'']"
proof -
  have "\<forall>(k, v) \<in> set (audit_fields ''fwd'' [''a'' @ [newline] @ ''PRIORITY=0''] [] []). length (utf8 v) < 2 ^ 64"
    by (auto simp: audit_fields_def truncate256_def intro!: le_less_trans [OF length_utf8])
  from audit_record_roundtrip [OF this] show ?thesis
    by (simp add: audit_fields_def)
qed

end
