(* ===== verification/Invoke.thy ===== *)
theory Invoke
  imports Preflight Journal
begin

text \<open>
  Running ops: \<open>invoke\<close>, \<open>probe\<close> and their shared body in \<open>src/src/core/dispatch.py\<close>, the ownership helpers of
  \<open>src/src/core/helper_container.py\<close> that call it, and the offline compilation of the dispatcher.
  The process runner and the random token are parameters, as in \<open>Executor\<close>.
\<close>

section \<open>Invoking\<close>

record op_runtime =
  rt_env :: dispatch_env
  rt_spawn :: spawn
  rt_path :: "string option"
  rt_token :: string

datatype invoke_error = DispatchFault dispatch_error | ExecFault exec_error | DecodeFault

definition plain_opts :: run_options where
  "plain_opts = \<lparr>interactive = False, extra_env = [], sentinel = False, framed = False\<rparr>"

definition crossing_opts :: run_options where
  "crossing_opts = \<lparr>interactive = False, extra_env = [], sentinel = False, framed = True\<rparr>"

definition run_plain :: "op_runtime \<Rightarrow> string list \<Rightarrow> invoke_error + completed" where
  "run_plain rt cmd =
     (case fst (executor_run (rt_spawn rt) (rt_path rt) (rt_token rt) plain_opts cmd None) of
        Inl e \<Rightarrow> Inl (ExecFault e)
      | Inr cp \<Rightarrow> Inr cp)"

definition audit_instance :: "op \<Rightarrow> string list \<Rightarrow> string" where
  "audit_instance opn args = (if is_compose_op opn then hd args else [])"

definition with_pfnonce :: "string \<Rightarrow> string list \<Rightarrow> string list" where
  "with_pfnonce nonce argv = butlast argv @ [''__PFNONCE='' @ nonce @ ''; '' @ last argv]"

text \<open>\<open>_invoke_with_nonce\<close>: the result with the preflight nonce, and the audit payloads sent before the run.\<close>

definition invoke_with_nonce ::
  "op_runtime \<Rightarrow> host_settings \<Rightarrow> op \<Rightarrow> string list \<Rightarrow>
   (invoke_error + completed \<times> string option) \<times> bytes list" where
  "invoke_with_nonce rt h opn args =
     (case bindE (require_framed_op opn) (\<lambda>_. build_invocation (rt_env rt) h opn args) of
        Inl e \<Rightarrow> (Inl (DispatchFault e), [])
      | Inr argv \<Rightarrow>
          if is_operator_rootless h then
            let audit = emit_op_audit (op_value opn) args argv (audit_instance opn args);
                nonce = (if opn = PREFLIGHT then Some (rt_token rt) else None);
                argv' = (case nonce of None \<Rightarrow> argv | Some n \<Rightarrow> with_pfnonce n argv)
            in (bindE (run_plain rt argv') (\<lambda>cp.
                  Inr (cp\<lparr>cp_stdout := Some (normalize_captured_output (stdout_of cp))\<rparr>, nonce)), [audit])
          else
            (case executor_run (rt_spawn rt) (rt_path rt) (rt_token rt) crossing_opts argv None of
               (Inl e, _) \<Rightarrow> (Inl (ExecFault e), [])
             | (Inr cp, nonce) \<Rightarrow> (Inr (cp, nonce), [])))"

definition invoke :: "op_runtime \<Rightarrow> host_settings \<Rightarrow> op \<Rightarrow> string list \<Rightarrow> invoke_error + completed" where
  "invoke rt h opn args = bindE (fst (invoke_with_nonce rt h opn args)) (\<lambda>(cp, _). Inr cp)"

text \<open>\<open>isinstance(exc.__cause__, TimeoutExpired)\<close>.\<close>

definition caused_by_timeout :: "exec_error \<Rightarrow> bool" where
  "caused_by_timeout e = (case e of TimeoutExpired _ \<Rightarrow> True | _ \<Rightarrow> False)"

definition probe :: "op_runtime \<Rightarrow> host_settings \<Rightarrow> op \<Rightarrow> string list \<Rightarrow> invoke_error + probe_outcome" where
  "probe rt h opn args =
     (case fst (invoke_with_nonce rt h opn args) of
        Inl (ExecFault e) \<Rightarrow>
          Inr \<lparr>po_ok = False, po_timed_out = caused_by_timeout e, po_stdout = [],
               po_message = ExecFailure e, preflight_nonce = None\<rparr>
      | Inl e \<Rightarrow> Inl e
      | Inr (cp, nonce) \<Rightarrow>
          Inr \<lparr>po_ok = True, po_timed_out = False, po_stdout = stdout_of cp,
               po_message = NoMessage, preflight_nonce = nonce\<rparr>)"

section \<open>Ownership helpers\<close>

definition helper_config :: "string \<Rightarrow> docker_execution_mode \<Rightarrow> invoke_error + host_settings" where
  "helper_config host_user mode =
     (case minimal_host_config host_user mode of
        Inl e \<Rightarrow> Inl (DispatchFault (HostFault e))
      | Inr h \<Rightarrow> Inr h)"

definition host_fault :: "host_error + int \<Rightarrow> invoke_error + int" where
  "host_fault r = (case r of Inl e \<Rightarrow> Inl (DispatchFault (HostFault e)) | Inr v \<Rightarrow> Inr v)"

text \<open>The helpers' result is \<open>None\<close> when no container was launched.\<close>

definition helper_chown_files ::
  "op_runtime \<Rightarrow> string \<Rightarrow> string \<Rightarrow> string list \<Rightarrow> int \<Rightarrow> int \<Rightarrow> int \<Rightarrow> docker_execution_mode \<Rightarrow>
   invoke_error + completed option" where
  "helper_chown_files rt host_user parent files owner_uid owner_gid mode execution_mode =
     (if files = [] then Inr None
      else
        bindE (host_fault (in_container_uid_for_host_uid (d_host (rt_env rt)) owner_uid host_user)) (\<lambda>uid.
        bindE (host_fault (in_container_gid_for_host_gid (d_host (rt_env rt)) owner_gid host_user)) (\<lambda>gid.
        bindE (helper_config host_user execution_mode) (\<lambda>h.
        bindE (invoke rt h HELPER_CHOWN_FILES
                 (parent # format_04o mode # int_str uid # int_str gid # files)) (\<lambda>cp. Inr (Some cp))))))"

definition helper_mkdir_chown_dirs ::
  "op_runtime \<Rightarrow> string \<Rightarrow> string \<Rightarrow> string list \<Rightarrow> int \<Rightarrow> int \<Rightarrow> docker_execution_mode \<Rightarrow>
   invoke_error + completed option" where
  "helper_mkdir_chown_dirs rt host_user parent leaves owner_uid owner_gid execution_mode =
     (if leaves = [] then Inr None
      else
        bindE (host_fault (in_container_uid_for_host_uid (d_host (rt_env rt)) owner_uid host_user)) (\<lambda>uid.
        bindE (host_fault (in_container_gid_for_host_gid (d_host (rt_env rt)) owner_gid host_user)) (\<lambda>gid.
        bindE (helper_config host_user execution_mode) (\<lambda>h.
        bindE (invoke rt h HELPER_MKDIR_CHOWN_DIRS (parent # int_str uid # int_str gid # leaves))
          (\<lambda>cp. Inr (Some cp))))))"

section \<open>Compiling the dispatcher\<close>

definition BUILD_MOUNT_DST :: string where
  "BUILD_MOUNT_DST = ''/build''"

definition COMPILE_INNER :: string where
  "COMPILE_INNER = ''go test ./... && go build -trimpath -ldflags '' @ [CHR 0x27] @ ''-s -w'' @ [CHR 0x27] @
     '' -o /build/dispatch .''"

definition dq :: "string \<Rightarrow> string" where
  "dq s = [CHR 0x22] @ s @ [CHR 0x22]"

definition compile_docker_run :: "string \<Rightarrow> string" where
  "compile_docker_run img =
     ''docker run --rm --network none --env GOFLAGS=-mod=vendor '' @
     ''--mount type=bind,src='' @ dq ''$DIR'' @ '',dst='' @ BUILD_MOUNT_DST @ '' '' @
     ''--workdir '' @ BUILD_MOUNT_DST @ '' '' @ shlex_quote img @ '' '' @
     ''/bin/sh -c '' @ shlex_quote COMPILE_INNER"

definition compile_payload :: "string \<Rightarrow> string \<Rightarrow> string" where
  "compile_payload img source_b64 =
     ''RD='' @ dq ''/run/user/$(id -u)'' @ ''; '' @
     ''[ -d '' @ dq ''$RD'' @ '' ] || { echo '' @
       dq (''sandbox-ai: per-user runtime dir $RD absent '' @
           ''(is the daemon user lingering? sister-change L5 enables linger)'') @ '' 1>&2; exit 1; }; '' @
     ''DIR='' @ dq (''$(mktemp -d '' @ dq ''$RD/sandbox-ai-build-XXXXXX'' @ '')'') @ ''; '' @
     ''trap '' @ sq (''rm -rf '' @ dq ''$DIR'') @ '' EXIT; '' @
     ''printf %s '' @ sq source_b64 @ '' | base64 -d | tar -xz -C '' @ dq ''$DIR'' @ '' 1>&2; '' @
     compile_docker_run img @ '' 1>&2; '' @
     ''base64 -w0 '' @ dq ''$DIR/dispatch''"

text \<open>\<open>compile_dispatcher\<close>, with the encoded source tree and the base64 decoder as parameters: the result and
  the content written to the output path, if any.\<close>

definition compile_dispatcher ::
  "op_runtime \<Rightarrow> string \<Rightarrow> (string \<Rightarrow> bytes option) \<Rightarrow> host_settings \<Rightarrow>
   (invoke_error + unit) \<times> bytes option" where
  "compile_dispatcher rt source_b64 b64decode h =
     (let img = pinned (the (map_of IMAGE_REGISTRY ''golang_alpine''));
          payload = compile_payload img source_b64
      in case resolve_daemon_owner_settings (d_host (rt_env rt)) h of
           Inl e \<Rightarrow> (Inl (DispatchFault (HostFault e)), None)
         | Inr user \<Rightarrow>
             (case run_plain rt (pipe_cmd user @ [''/bin/bash'', ''-c'', payload]) of
                Inl e \<Rightarrow> (Inl e, None)
              | Inr cp \<Rightarrow>
                  (case b64decode (py_strip (stdout_of cp)) of
                     None \<Rightarrow> (Inl DecodeFault, None)
                   | Some binary \<Rightarrow> (Inr (), Some binary))))"

section \<open>Lemmas\<close>

lemma build_preflight:
  "build_invocation env h PREFLIGHT [] =
     (if is_operator_rootless h then Inr [''/bin/bash'', ''-c'', preflight_inner]
      else case docker_unprivileged_user h of
        None \<Rightarrow> Inl (HostFault SettingsValueError)
      | Some user \<Rightarrow> Inr (sudo_pipe_cmd user @ [''/bin/bash'', ''-c'', dispatch_payload ''preflight'' []]))"
  by (simp add: build_invocation_def require_framed_op_def is_streaming_op_def validate_args_def
      validate_nullary_def wire_args_for_def is_compose_op_def cross_argv_def bash_c_def
      resolve_daemon_owner_settings_def is_operator_rootless_def split: option.splits)

lemma require_preflight_framed: "require_framed_op PREFLIGHT = Inr ()"
  by (simp add: require_framed_op_def is_streaming_op_def)

lemma starts_bundle: "qs \<noteq> [] \<Longrightarrow> starts_text (query_bundle n qs)"
  by (cases qs rule: list.exhaust)
    (auto simp: starts_text_def q_line_def q_marker_def PREFLIGHT_QUERY_MARKER_PREFIX_def is_space_def)

lemma ends_bundle: "qs \<noteq> [] \<Longrightarrow> ends_line (query_bundle n qs)"
proof (induction qs)
  case (Cons q qs)
  then show ?case by (cases q; cases qs) (auto simp: ends_line_def rc_line_def)
qed simp

lemma newline_lead: "is_nonce n \<Longrightarrow> lines_text [newline] \<and> \<not> sublist n [newline]"
  using nonce_no_newline [of n] by (auto simp: lines_text_def ends_line_def is_nonce_def sublist_Cons_right prefix_Cons)

lemma run_plain_completed:
  assumes "rt_spawn rt cmd (sterile_env (rt_path rt) []) False = Completed 0 out err"
  shows "run_plain rt cmd = Inr \<lparr>cp_args = cmd, cp_returncode = 0, cp_stdout = out, cp_stderr = err\<rparr>"
  using assms by (simp add: run_plain_def executor_run_def plain_opts_def checked_spawn_def)

section \<open>Properties\<close>


text \<open>Claim C5: the preflight works end to end across the boundary. When the dispatcher frames the bundle with
  a nonce and each query prints its segment in clean lines that do not contain that nonce, the probe
  succeeds, whatever the native exit status, and parsing it gives every query its own verdict.\<close>

theorem preflight_crossing_verdicts:
  assumes "\<not> is_operator_rootless h" and "docker_unprivileged_user h = Some user"
    and "rt_spawn rt (sudo_pipe_cmd user @ [''/bin/bash'', ''-c'', dispatch_payload ''preflight'' []])
      (sterile_env (rt_path rt) []) False =
      Completed native (Some (begin_line n @ query_bundle n qs @ exit_line n 0)) err"
    and "is_nonce n" and "list_all (query_ok n) qs" and "map fst qs = map fst preflight_query_segments"
    and "normalize_captured_output (newline # query_bundle n qs) = newline # query_bundle n qs"
  shows "\<exists>out. probe rt h PREFLIGHT [] = Inr out \<and> po_ok out \<and> preflight_nonce out = Some n \<and>
    map (\<lambda>(name, r). (name, po_ok r, po_stdout r)) (parse_preflight_outcome out) =
      map (\<lambda>(name, body, rc). (name, rc = 0, if rc = 0 then py_strip body else [])) qs"
proof -
  have qs: "qs \<noteq> []" using assms(6) by (auto simp: preflight_query_segments_def)
  define argv where "argv = sudo_pipe_cmd user @ [''/bin/bash'', ''-c'', dispatch_payload ''preflight'' []]"
  define result where "result = \<lparr>cp_args = argv, cp_returncode = native,
      cp_stdout = Some (begin_line n @ query_bundle n qs @ exit_line n 0), cp_stderr = err\<rparr>"
  have ex: "executor_run (rt_spawn rt) (rt_path rt) (rt_token rt) crossing_opts argv None =
      recover_inner_exit True (rt_token rt) result None"
    unfolding result_def
    by (rule executor_run_framed) (use assms(3) in \<open>simp_all add: crossing_opts_def argv_def\<close>)
  obtain j where rec: "recover_inner_exit True (rt_token rt) result None =
      (Inr (result\<lparr>cp_returncode := 0,
        cp_stdout := Some (normalize_captured_output (drop j (newline # query_bundle n qs)))\<rparr>), Some n)"
    and j: "j = 0"
    using recover_framed [OF assms(4), of "query_bundle n qs" result 0 "rt_token rt" None]
      ends_bundle [OF qs] starts_bundle [OF qs]
    by (auto simp: stdout_of_def result_def)
  have run: "executor_run (rt_spawn rt) (rt_path rt) (rt_token rt) crossing_opts argv None =
      (Inr (result\<lparr>cp_returncode := 0, cp_stdout := Some (newline # query_bundle n qs)\<rparr>), Some n)"
    using assms(7) j ex rec by simp
  define out where "out = \<lparr>po_ok = True, po_timed_out = False, po_stdout = [newline] @ query_bundle n qs,
      po_message = NoMessage, preflight_nonce = Some n\<rparr>"
  have build: "build_invocation (rt_env rt) h PREFLIGHT [] = Inr argv"
    using assms(1,2) by (simp add: build_preflight argv_def)
  have probe: "probe rt h PREFLIGHT [] = Inr out"
    using run build assms(1)
    by (simp add: probe_def invoke_with_nonce_def require_preflight_framed stdout_of_def out_def)
  note lead = newline_lead [OF assms(4)]
  have "parse_queries ([newline] @ query_bundle n qs) n False 0 (map fst qs) = map (query_outcome False) qs"
    by (rule parse_queries_bundle [where pre = "[]"])
      (use assms(4-6) lead in \<open>simp_all add: preflight_query_segments_def\<close>)
  moreover have "n \<noteq> []" using assms(4) by (simp add: is_nonce_def)
  ultimately have "parse_preflight_outcome out = map (query_outcome False) qs"
    by (simp add: parse_preflight_outcome_def out_def Let_def flip: assms(6))
  then show ?thesis
    using probe by (auto simp: out_def query_outcome_def)
qed

definition sample_runtime :: "spawn \<Rightarrow> op_runtime" where
  "sample_runtime sp = \<lparr>rt_env =
     \<lparr>d_host = \<lparr>getuser = ''dev'', getpwnam = (\<lambda>_. None), getgrnam = (\<lambda>_. None), getgrall_gids = [],
        subuid_file = None, subgid_file = None\<rparr>,
      d_registry = Absent, d_toml = (\<lambda>_. None), d_validate_fields = (\<lambda>_. None),
      d_ipam = \<lparr>ipam_file = Absent, ipam_lock = None\<rparr>\<rparr>,
     rt_spawn = sp, rt_path = None, rt_token = ''0f''\<rparr>"

definition sample_host :: "docker_execution_mode \<Rightarrow> host_settings" where
  "sample_host m = \<lparr>docker_unprivileged_user = Some ''sb'', docker_execution_mode = m, workspace_bridge_group = ''sb-ws''\<rparr>"

theorem preflight_crossing_verdicts_witness:
  "\<exists>out. probe (sample_runtime (\<lambda>_ _ _. Completed 1
       (Some (begin_line ''a1'' @ query_bundle ''a1'' sample_queries @ exit_line ''a1'' 0)) None))
       (sample_host SEPARATE_USER) PREFLIGHT [] = Inr out \<and> po_ok out \<and>
     map (\<lambda>(name, r). po_ok r) (parse_preflight_outcome out) = [True, False, False, False, False]"
proof -
  let ?rt = "sample_runtime (\<lambda>_ _ _. Completed 1
       (Some (begin_line ''a1'' @ query_bundle ''a1'' sample_queries @ exit_line ''a1'' 0)) None)"
  have *: "is_nonce ''a1''" "list_all (query_ok ''a1'') sample_queries"
    "map fst sample_queries = map fst preflight_query_segments"
    "normalize_captured_output (newline # query_bundle ''a1'' sample_queries) = newline # query_bundle ''a1'' sample_queries"
    by code_simp+
  have sp: "rt_spawn ?rt (sudo_pipe_cmd ''sb'' @ [''/bin/bash'', ''-c'', dispatch_payload ''preflight'' []])
      (sterile_env (rt_path ?rt) []) False =
      Completed 1 (Some (begin_line ''a1'' @ query_bundle ''a1'' sample_queries @ exit_line ''a1'' 0)) None"
    by (simp add: sample_runtime_def)
  have h: "\<not> is_operator_rootless (sample_host SEPARATE_USER)"
    "docker_unprivileged_user (sample_host SEPARATE_USER) = Some ''sb''"
    by (simp_all add: sample_host_def is_operator_rootless_def)
  obtain out where out: "probe ?rt (sample_host SEPARATE_USER) PREFLIGHT [] = Inr out" "po_ok out"
    "map (\<lambda>(name, r). (name, po_ok r, po_stdout r)) (parse_preflight_outcome out) =
      map (\<lambda>(name, body, rc). (name, rc = 0, if rc = 0 then py_strip body else [])) sample_queries"
    using preflight_crossing_verdicts [OF h sp *] by auto
  have "map (\<lambda>(name, r). po_ok r) (parse_preflight_outcome out) =
      map (\<lambda>(name, ok, body). ok) (map (\<lambda>(name, r). (name, po_ok r, po_stdout r)) (parse_preflight_outcome out))"
    by (simp add: case_prod_beta)
  also have "\<dots> = [True, False, False, False, False]" unfolding out(3) by (simp add: sample_queries_def)
  finally have "map (\<lambda>(name, r). po_ok r) (parse_preflight_outcome out) = [True, False, False, False, False]" .
  then show ?thesis by (intro exI conjI) (rule out(1), rule out(2))
qed

text \<open>On the local path the minted nonce reaches the shell and the parser but not the audit. A local
  preflight runs the static bundle behind the assignment of the nonce, sends exactly one audit record
  that names the static bundle and does not depend on the nonce, and hands the nonce to the caller.\<close>

theorem local_preflight_nonce_private:
  assumes "is_operator_rootless h"
    and "rt_spawn rt [''/bin/bash'', ''-c'', ''__PFNONCE='' @ rt_token rt @ ''; '' @ preflight_inner]
      (sterile_env (rt_path rt) []) False = Completed 0 (Some out) err"
  shows "\<exists>cp. invoke_with_nonce rt h PREFLIGHT [] =
      (Inr (cp, Some (rt_token rt)),
       [emit_op_audit ''preflight'' [] [''/bin/bash'', ''-c'', preflight_inner] []]) \<and>
    cp_stdout cp = Some (normalize_captured_output out) \<and> cp_returncode cp = 0"
proof -
  define argv where "argv = [''/bin/bash'', ''-c'', preflight_inner]"
  define run where "run = with_pfnonce (rt_token rt) argv"
  have "run = [''/bin/bash'', ''-c'', ''__PFNONCE='' @ rt_token rt @ ''; '' @ preflight_inner]"
    by (simp add: run_def argv_def with_pfnonce_def)
  then have plain: "run_plain rt run = Inr \<lparr>cp_args = run, cp_returncode = 0, cp_stdout = Some out, cp_stderr = err\<rparr>"
    using assms(2) by (intro run_plain_completed) simp
  have build: "build_invocation (rt_env rt) h PREFLIGHT [] = Inr argv"
    using assms(1) by (simp add: build_preflight argv_def)
  have inst: "audit_instance PREFLIGHT [] = []" "op_value PREFLIGHT = ''preflight''"
    by (simp_all add: audit_instance_def is_compose_op_def)
  have "invoke_with_nonce rt h PREFLIGHT [] =
      (Inr (\<lparr>cp_args = run, cp_returncode = 0, cp_stdout = Some (normalize_captured_output out), cp_stderr = err\<rparr>,
        Some (rt_token rt)), [emit_op_audit ''preflight'' [] argv []])"
    unfolding invoke_with_nonce_def require_preflight_framed bindE_simps build sum.case Let_def inst
    using assms(1) plain by (simp add: stdout_of_def flip: run_def)
  then show ?thesis by (auto simp: argv_def)
qed

theorem local_preflight_nonce_private_witness:
  "snd (invoke_with_nonce (sample_runtime (\<lambda>_ _ _. Completed 0 (Some []) None)) (sample_host OPERATOR_ROOTLESS)
     PREFLIGHT []) = [emit_op_audit ''preflight'' [] [''/bin/bash'', ''-c'', preflight_inner] []]"
proof -
  have h: "is_operator_rootless (sample_host OPERATOR_ROOTLESS)"
    by (simp add: sample_host_def is_operator_rootless_def)
  show ?thesis
    using local_preflight_nonce_private [OF h, of "sample_runtime (\<lambda>_ _ _. Completed 0 (Some []) None)" "[]" None]
    by (auto simp: sample_runtime_def)
qed

text \<open>The compiled dispatcher is written only after a clean run. When the compile recipe does not
  complete with exit status 0, or its output does not decode, nothing is written and an error is raised.\<close>

theorem compile_writes_only_on_success:
  "(case compile_dispatcher rt src b64decode h of
      (Inr _, written) \<Rightarrow> \<exists>binary user out err. written = Some binary \<and>
        resolve_daemon_owner_settings (d_host (rt_env rt)) h = Inr user \<and>
        rt_spawn rt (pipe_cmd user @ [''/bin/bash'', ''-c'',
            compile_payload (pinned (the (map_of IMAGE_REGISTRY ''golang_alpine''))) src])
          (sterile_env (rt_path rt) []) False = Completed 0 out err \<and>
        b64decode (py_strip (case out of None \<Rightarrow> [] | Some s \<Rightarrow> s)) = Some binary
    | (Inl _, written) \<Rightarrow> written = None)"
proof -
  have ok: "\<exists>out err. rt_spawn rt cmd (sterile_env (rt_path rt) []) False = Completed 0 out err \<and>
      stdout_of cp = (case out of None \<Rightarrow> [] | Some s \<Rightarrow> s)"
    if "run_plain rt cmd = Inr cp" for cmd cp
    using that
    by (auto simp: run_plain_def executor_run_def plain_opts_def checked_spawn_def stdout_of_def
        split: sum.splits spawn_result.splits if_splits)
  show ?thesis
    unfolding compile_dispatcher_def Let_def
    by (auto split: sum.splits option.splits dest!: ok)
qed

end
