(* ===== verification/Dep_Order.thy ===== *)
theory Dep_Order
  imports Prelude
begin

text \<open>
  The interface between a dependency scheduler and a pass over its result. Both the setup phases and the
  doctor checks are ordered by their \<open>depends_on\<close> edges and then swept once, each item seeing which
  of its dependencies have gone wrong. \<open>sweep\<close> is that loop; the locale states what a scheduler promises,
  and proves what the pass therefore guarantees.
\<close>

section \<open>The pass\<close>

fun sweep ::
  "('a \<Rightarrow> 'k) \<Rightarrow> ('o \<Rightarrow> bool) \<Rightarrow> ('k list \<Rightarrow> 'a \<Rightarrow> 's \<Rightarrow> 'o \<times> 's) \<Rightarrow> 'k list \<Rightarrow> 'a list \<Rightarrow> 's \<Rightarrow> 'o list \<times> 's" where
  "sweep key bad step failed [] s = ([], s)"
| "sweep key bad step failed (x # xs) s =
     (let (out, s') = step failed x s;
          (outs, s'') = sweep key bad step (if bad out then key x # failed else failed) xs s'
      in (out # outs, s''))"

lemma length_sweep [simp]: "length (fst (sweep key bad step failed xs s)) = length xs"
  by (induction key bad step failed xs s rule: sweep.induct) (auto split: prod.splits)

text \<open>Every outcome is the result of one step, whose failed set is the keys that went wrong before, taken
  in a state that satisfies whatever every step preserves.\<close>

lemma sweep_nth_invariant:
  assumes "i < length xs" and "sweep key bad step failed xs s = (outs, s'')"
    and "\<And>failed x s. x \<in> set xs \<Longrightarrow> P s \<Longrightarrow> P (snd (step failed x s))" and "P s"
  shows "\<exists>t. P t \<and> outs ! i = fst (step
     (rev (map fst (filter (\<lambda>p. bad (snd p)) (zip (map key (take i xs)) outs))) @ failed) (xs ! i) t)"
  using assms
proof (induction xs arbitrary: i failed s outs s'')
  case (Cons x xs)
  obtain out s1 where st: "step failed x s = (out, s1)" by (cases "step failed x s")
  obtain outs' where sw: "sweep key bad step (if bad out then key x # failed else failed) xs s1 = (outs', s'')"
    and outs: "outs = out # outs'"
    using Cons.prems(2) st by (auto split: prod.splits)
  show ?case
  proof (cases i)
    case 0
    have "outs ! i = fst (step failed x s)" using 0 outs st by simp
    then show ?thesis using 0 Cons.prems(4) by (intro exI [of _ s]) simp
  next
    case (Suc j)
    with Cons.prems(1) have j: "j < length xs" by simp
    have "P s1" using Cons.prems(3) [of x s failed] Cons.prems(4) st by simp
    from Cons.IH [OF j sw _ this] Cons.prems(3) Suc outs show ?thesis by auto
  qed
qed simp

lemma sweep_nth:
  assumes "i < length xs" and "sweep key bad step failed xs s = (outs, s'')"
  shows "\<exists>t. outs ! i = fst (step
     (rev (map fst (filter (\<lambda>p. bad (snd p)) (zip (map key (take i xs)) outs))) @ failed) (xs ! i) t)"
  using sweep_nth_invariant [OF assms, of "\<lambda>_. True"] by simp

lemma sweep_invariant:
  assumes "\<And>failed x s. x \<in> set xs \<Longrightarrow> P s \<Longrightarrow> P (snd (step failed x s))" and "P s"
  shows "P (snd (sweep key bad step failed xs s))"
  using assms
proof (induction xs arbitrary: failed s)
  case (Cons x xs)
  have "P (snd (step failed x s))" using Cons.prems by simp
  then show ?case
    using Cons.IH [of "snd (step failed x s)"] Cons.prems(1) by (simp add: case_prod_beta)
qed simp

section \<open>The contract of a scheduler\<close>

locale dep_schedule =
  fixes key :: "'a \<Rightarrow> 'k"
    and deps :: "'a \<Rightarrow> 'k list"
    and schedule :: "'a list \<Rightarrow> 'e + 'a list"
  assumes distinct_keys: "schedule xs = Inr ys \<Longrightarrow> distinct (map key ys)"
    and deps_first: "schedule xs = Inr ys \<Longrightarrow> i < length ys \<Longrightarrow> d \<in> set (deps (ys ! i)) \<Longrightarrow>
          d \<in> key ` set ys \<Longrightarrow> d \<in> key ` set (take i ys)"
begin

text \<open>A dependency stands strictly before whatever depends on it.\<close>

lemma dep_index:
  assumes "schedule xs = Inr ys" and "i < length ys" and "j < length ys" and "key (ys ! j) \<in> set (deps (ys ! i))"
  shows "j < i"
proof -
  have "key (ys ! j) \<in> key ` set (take i ys)"
    using deps_first [OF assms(1,2,4)] assms(3) by auto
  then obtain k where k: "k < i" "k < length ys" "key (ys ! k) = key (ys ! j)"
    by (auto simp: in_set_conv_nth)
  have "distinct (map key ys)" by (rule distinct_keys [OF assms(1)])
  then have "k = j" using k assms(3) nth_eq_iff_index_eq [of "map key ys" k j] by simp
  with k show ?thesis by simp
qed

lemma no_self_dependency:
  "schedule xs = Inr ys \<Longrightarrow> y \<in> set ys \<Longrightarrow> key y \<notin> set (deps y)"
  using dep_index by (metis in_set_conv_nth less_irrefl)

text \<open>What an item sees as failed among its dependencies is what really failed in the whole pass.\<close>

lemma failed_deps_complete:
  assumes s: "schedule xs = Inr ys" and sw: "sweep key bad step [] ys st = (outs, st')"
    and i: "i < length ys" and d: "d \<in> set (deps (ys ! i))"
  shows "d \<in> set (rev (map fst (filter (\<lambda>p. bad (snd p)) (zip (map key (take i ys)) outs)))) \<longleftrightarrow>
    (\<exists>j < length ys. key (ys ! j) = d \<and> bad (outs ! j))"
proof -
  have len: "length outs = length ys" using sw length_sweep [of key bad step "[]" ys st] by simp
  have "d \<in> set (rev (map fst (filter (\<lambda>p. bad (snd p)) (zip (map key (take i ys)) outs)))) \<longleftrightarrow>
    (\<exists>j < i. key (ys ! j) = d \<and> bad (outs ! j))"
    using i len by (force simp: in_set_zip image_iff)
  also have "\<dots> \<longleftrightarrow> (\<exists>j < length ys. key (ys ! j) = d \<and> bad (outs ! j))"
    using dep_index [OF s i] d i by (metis order.strict_trans)
  finally show ?thesis .
qed

lemma sweep_outcome:
  assumes s: "schedule xs = Inr ys" and sw: "sweep key bad step [] ys st = (outs, st')" and i: "i < length ys"
  shows "\<exists>failed t. outs ! i = fst (step failed (ys ! i) t) \<and>
    (\<forall>d \<in> set (deps (ys ! i)). d \<in> set failed \<longleftrightarrow> (\<exists>j < length ys. key (ys ! j) = d \<and> bad (outs ! j)))"
  using sweep_nth [OF i sw] failed_deps_complete [OF s sw i] by fastforce

end

end
