(* ===== verification/Effects.thy ===== *)
theory Effects
  imports Prelude
begin

text \<open>
  Code that acts on the host: a function from the host to a result and the host after it. A raised
  exception is \<open>Inl\<close> with its text; what was changed before the exception stays changed.
\<close>

type_synonym ('w, 'a) effect = "'w \<Rightarrow> (string + 'a) \<times> 'w"

definition eret :: "'a \<Rightarrow> ('w, 'a) effect" where
  "eret a w = (Inr a, w)"

definition ethrow :: "string \<Rightarrow> ('w, 'a) effect" where
  "ethrow exc w = (Inl exc, w)"

definition ebind :: "('w, 'a) effect \<Rightarrow> ('a \<Rightarrow> ('w, 'b) effect) \<Rightarrow> ('w, 'b) effect" where
  "ebind m f w = (case m w of (Inl exc, w') \<Rightarrow> (Inl exc, w') | (Inr a, w') \<Rightarrow> f a w')"

definition eget :: "('w \<Rightarrow> 'a) \<Rightarrow> ('w, 'a) effect" where
  "eget g w = (Inr (g w), w)"

definition eput :: "('w \<Rightarrow> 'w) \<Rightarrow> ('w, unit) effect" where
  "eput g w = (Inr (), g w)"

text \<open>A pure call that may raise.\<close>

definition elift :: "string + 'a \<Rightarrow> ('w, 'a) effect" where
  "elift r w = (r, w)"

text \<open>\<open>try\<close> with a handler for every exception of the body.\<close>

definition ecatch :: "('w, 'a) effect \<Rightarrow> (string \<Rightarrow> ('w, 'a) effect) \<Rightarrow> ('w, 'a) effect" where
  "ecatch m h w = (case m w of (Inl exc, w') \<Rightarrow> h exc w' | (Inr a, w') \<Rightarrow> (Inr a, w'))"

text \<open>\<open>try\<close> with \<open>finally\<close>: the last step runs either way, and its own exception wins.\<close>

definition efinally :: "('w, 'a) effect \<Rightarrow> ('w, unit) effect \<Rightarrow> ('w, 'a) effect" where
  "efinally m c w =
     (case m w of (r, w') \<Rightarrow> (case c w' of (Inl exc, w'') \<Rightarrow> (Inl exc, w'') | (Inr _, w'') \<Rightarrow> (r, w'')))"

definition ewhen :: "bool \<Rightarrow> ('w, unit) effect \<Rightarrow> ('w, unit) effect" where
  "ewhen b m = (if b then m else eret ())"

fun efor :: "('a \<Rightarrow> ('w, unit) effect) \<Rightarrow> 'a list \<Rightarrow> ('w, unit) effect" where
  "efor f [] = eret ()"
| "efor f (x # xs) = ebind (f x) (\<lambda>_. efor f xs)"

section \<open>Lemmas\<close>

lemma eret_apply [simp]: "eret a w = (Inr a, w)"
  by (simp add: eret_def)

lemma ethrow_apply [simp]: "ethrow exc w = (Inl exc, w)"
  by (simp add: ethrow_def)

lemma eget_apply [simp]: "eget g w = (Inr (g w), w)"
  by (simp add: eget_def)

lemma eput_apply [simp]: "eput g w = (Inr (), g w)"
  by (simp add: eput_def)

lemma elift_apply [simp]: "elift r w = (r, w)"
  by (simp add: elift_def)

lemma ewhen_simps [simp]: "ewhen True m = m" "ewhen False m = eret ()"
  by (simp_all add: ewhen_def)

lemma ebind_apply: "m w = (Inr a, w') \<Longrightarrow> ebind m f w = f a w'"
  by (simp add: ebind_def)

lemma ebind_raises: "m w = (Inl exc, w') \<Longrightarrow> ebind m f w = (Inl exc, w')"
  by (simp add: ebind_def)

lemma ebind_simps [simp]:
  "ebind (eret a) f = f a"
  "ebind (ethrow exc) f = ethrow exc"
  "ebind (eget g) f w = f (g w) w"
  "ebind (eput h) f w = f () (h w)"
  "ebind (elift (Inr a)) f = f a"
  "ebind (elift (Inl exc)) f = ethrow exc"
  by (simp_all add: ebind_def fun_eq_iff)

lemma ebind_Inr_iff:
  "ebind m f w = (Inr b, w'') \<longleftrightarrow> (\<exists>a w'. m w = (Inr a, w') \<and> f a w' = (Inr b, w''))"
  by (auto simp: ebind_def split: prod.splits sum.splits)

lemma ebind_Inl_iff:
  "ebind m f w = (Inl exc, w'') \<longleftrightarrow>
     m w = (Inl exc, w'') \<or> (\<exists>a w'. m w = (Inr a, w') \<and> f a w' = (Inl exc, w''))"
  by (auto simp: ebind_def split: prod.splits sum.splits)

text \<open>Read-only code.\<close>

definition reads :: "('w, 'a) effect \<Rightarrow> 'w \<Rightarrow> bool" where
  "reads m w = (snd (m w) = w)"

lemma reads_intros [simp, intro]:
  "reads (eret a) w" "reads (ethrow exc) w" "reads (eget g) w" "reads (elift r) w"
  by (simp_all add: reads_def)

lemma reads_ebind [intro]: "reads m w \<Longrightarrow> (\<And>a. reads (f a) w) \<Longrightarrow> reads (ebind m f) w"
  by (auto simp: reads_def ebind_def split: prod.splits sum.splits)

lemma reads_ecatch [intro]: "reads m w \<Longrightarrow> (\<And>exc. reads (h exc) w) \<Longrightarrow> reads (ecatch m h) w"
  by (auto simp: reads_def ecatch_def split: prod.splits sum.splits)

lemma reads_efor [intro]: "(\<And>x. x \<in> set xs \<Longrightarrow> reads (f x) w) \<Longrightarrow> reads (efor f xs) w"
  by (induction xs) auto

text \<open>What every step of a composed effect preserves, the composition preserves.\<close>

definition keeps :: "('w \<Rightarrow> bool) \<Rightarrow> ('w, 'a) effect \<Rightarrow> bool" where
  "keeps P m = (\<forall>w. P w \<longrightarrow> P (snd (m w)))"

lemma keeps_intros [simp, intro]:
  "keeps P (eret a)" "keeps P (ethrow exc)" "keeps P (eget g)" "keeps P (elift r)"
  by (simp_all add: keeps_def)

lemma keeps_ebind [intro]: "keeps P m \<Longrightarrow> (\<And>a. keeps P (f a)) \<Longrightarrow> keeps P (ebind m f)"
  unfolding keeps_def ebind_def by (auto split: prod.splits sum.splits)

lemma keeps_ecatch [intro]: "keeps P m \<Longrightarrow> (\<And>exc. keeps P (h exc)) \<Longrightarrow> keeps P (ecatch m h)"
  unfolding keeps_def ecatch_def by (auto split: prod.splits sum.splits)

lemma keeps_efor [intro]: "(\<And>x. x \<in> set xs \<Longrightarrow> keeps P (f x)) \<Longrightarrow> keeps P (efor f xs)"
  by (induction xs) auto

lemma keeps_ewhen [intro]: "keeps P m \<Longrightarrow> keeps P (ewhen b m)"
  by (simp add: ewhen_def)

text \<open>Triples: from a state satisfying the first predicate, a returned value satisfies the second and an
  exception leaves the third.\<close>

definition triple :: "('w \<Rightarrow> bool) \<Rightarrow> ('w, 'a) effect \<Rightarrow> ('a \<Rightarrow> 'w \<Rightarrow> bool) \<Rightarrow> ('w \<Rightarrow> bool) \<Rightarrow> bool" where
  "triple P m Q E =
     (\<forall>w. P w \<longrightarrow> (case m w of (Inr a, w') \<Rightarrow> Q a w' | (Inl exc, w') \<Rightarrow> E w'))"

lemma tripleI: "(\<And>w. P w \<Longrightarrow> case m w of (Inr a, w') \<Rightarrow> Q a w' | (Inl exc, w') \<Rightarrow> E w') \<Longrightarrow> triple P m Q E"
  by (simp add: triple_def)

lemma triple_Inr: "triple P m Q E \<Longrightarrow> P w \<Longrightarrow> m w = (Inr a, w') \<Longrightarrow> Q a w'"
  unfolding triple_def by (metis (no_types, lifting) old.prod.case sum.case(2))

lemma triple_Inl: "triple P m Q E \<Longrightarrow> P w \<Longrightarrow> m w = (Inl exc, w') \<Longrightarrow> E w'"
  unfolding triple_def by (metis (no_types, lifting) old.prod.case sum.case(1))

lemma triple_end: "triple P m (\<lambda>_. Q) Q \<Longrightarrow> P w \<Longrightarrow> Q (snd (m w))"
  unfolding triple_def by (cases "m w") (metis (no_types, lifting) old.prod.case snd_conv sum.case sumE)

text \<open>A triple, case by case.\<close>

lemma triple_cases:
  "(\<And>w a w'. P w \<Longrightarrow> m w = (Inr a, w') \<Longrightarrow> Q a w') \<Longrightarrow> (\<And>w exc w'. P w \<Longrightarrow> m w = (Inl exc, w') \<Longrightarrow> E w') \<Longrightarrow>
     triple P m Q E"
  by (auto simp: triple_def split: prod.split sum.split)

lemma triple_conseq:
  assumes m: "triple P' m Q' E'" and "\<And>w. P w \<Longrightarrow> P' w" and "\<And>a w. Q' a w \<Longrightarrow> Q a w" and "\<And>w. E' w \<Longrightarrow> E w"
  shows "triple P m Q E"
  by (rule triple_cases) (use assms(2-4) triple_Inr [OF m] triple_Inl [OF m] in blast)+

lemma triple_eret: "(\<And>w. P w \<Longrightarrow> Q a w) \<Longrightarrow> triple P (eret a) Q E"
  by (simp add: triple_def)

lemma triple_ethrow: "(\<And>w. P w \<Longrightarrow> E w) \<Longrightarrow> triple P (ethrow exc) Q E"
  by (simp add: triple_def)

lemma triple_eget: "(\<And>w. P w \<Longrightarrow> Q (g w) w) \<Longrightarrow> triple P (eget g) Q E"
  by (simp add: triple_def)

lemma triple_elift: "(\<And>w a. P w \<Longrightarrow> r = Inr a \<Longrightarrow> Q a w) \<Longrightarrow> (\<And>w. P w \<Longrightarrow> E w) \<Longrightarrow> triple P (elift r) Q E"
  by (cases r) (auto simp: triple_def)

lemma triple_ebind:
  assumes m: "triple P m R E" and f: "\<And>a. triple (R a) (f a) Q E"
  shows "triple P (ebind m f) Q E"
proof (rule tripleI)
  fix w assume w: "P w"
  obtain r w' where r: "m w = (r, w')" by (cases "m w")
  show "case ebind m f w of (Inr a, w') \<Rightarrow> Q a w' | (Inl exc, w') \<Rightarrow> E w'"
  proof (cases r)
    case (Inl exc)
    then show ?thesis using triple_Inl [OF m w] r by (simp add: ebind_def)
  next
    case (Inr a)
    then show ?thesis using triple_Inr [OF m w] r f [of a] by (simp add: ebind_def triple_def)
  qed
qed

lemma triple_ewhen:
  "triple P m (\<lambda>_. Q) E \<Longrightarrow> (\<And>w. P w \<Longrightarrow> Q w) \<Longrightarrow> triple P (ewhen b m) (\<lambda>_. Q) E"
  by (cases b) (auto simp: ewhen_def intro: triple_eret)

lemma triple_efinally:
  assumes m: "triple P m R F" and c: "\<And>a. triple (R a) c (\<lambda>_. Q a) E" and d: "triple F c (\<lambda>_. E) E"
  shows "triple P (efinally m c) Q E"
proof (rule tripleI)
  fix w assume w: "P w"
  obtain r w1 where r: "m w = (r, w1)" by (cases "m w")
  obtain r' w2 where r': "c w1 = (r', w2)" by (cases "c w1")
  show "case efinally m c w of (Inr a, w') \<Rightarrow> Q a w' | (Inl exc, w') \<Rightarrow> E w'"
  proof (cases r)
    case (Inl exc)
    then have "F w1" using triple_Inl [OF m w] r by blast
    then show ?thesis using d Inl r r' by (cases r') (auto simp: efinally_def triple_def)
  next
    case (Inr a)
    then have "R a w1" using triple_Inr [OF m w] r by blast
    then show ?thesis using c [of a] Inr r r' by (cases r') (auto simp: efinally_def triple_def)
  qed
qed

lemma triple_ecatch:
  assumes m: "triple P m Q F" and h: "\<And>exc. triple F (h exc) Q E"
  shows "triple P (ecatch m h) Q E"
proof (rule tripleI)
  fix w assume w: "P w"
  obtain r w' where r: "m w = (r, w')" by (cases "m w")
  show "case ecatch m h w of (Inr a, w') \<Rightarrow> Q a w' | (Inl exc, w') \<Rightarrow> E w'"
  proof (cases r)
    case (Inl exc)
    then have "F w'" using triple_Inl [OF m w] r by blast
    then show ?thesis using Inl r h [of exc] by (auto simp: ecatch_def triple_def)
  next
    case (Inr a)
    then show ?thesis using triple_Inr [OF m w] r by (simp add: ecatch_def)
  qed
qed

lemma triple_keeps: "keeps P m \<Longrightarrow> triple P m (\<lambda>_. P) P"
  unfolding keeps_def by (rule triple_cases) (metis snd_conv)+

end
