(* ===== verification/Phase_Runner.thy ===== *)
theory Phase_Runner
  imports Dep_Order Effects Host_Config Py_Dict "HOL-Library.List_Lexorder" "HOL-Library.Char_ord"
begin

text \<open>
  The probe-act-reverify ceremony of \<open>src/src/core/setup/phase_runner.py\<close>: ordering the phases by their
  dependencies, the plan pass, the apply pass with blocking and rollback, and the identity routing.
  The host that phases act on is a type variable: a callback takes it and returns a value or the
  message of an exception, with the host after it.
\<close>

section \<open>Phases\<close>

record setup_context =
  ctx_host :: host_settings
  ctx_operator :: string

datatype identity = ROOT | OPERATOR | SANDBOX

datatype phase_result = ALREADY_CORRECT | MISSING | DRIFT | CONFLICT | FAIL | BLOCKED_BY | SKIPPED

record 'w phase =
  ph_id :: string
  ph_name :: string
  ph_identity :: identity
  ph_probe :: "setup_context \<Rightarrow> ('w, phase_result \<times> string) effect"
  ph_act :: "setup_context \<Rightarrow> ('w, string) effect"
  ph_reverify :: "setup_context \<Rightarrow> ('w, bool) effect"
  ph_depends_on :: "string list"
  ph_rollback :: "(setup_context \<Rightarrow> ('w, unit) effect) option"
  ph_applies_in :: "docker_execution_mode list"

record phase_plan_outcome =
  pp_id :: string
  pp_result :: phase_result
  pp_detail :: string

record phase_apply_outcome =
  pa_id :: string
  pa_result :: phase_result
  pa_detail :: string
  pa_reverified :: bool

section \<open>Discovery\<close>

text \<open>\<open>_PHASE_MODULE_RE.match\<close>, for \<open>^l\d+a?_.+$\<close>: after the optional \<open>a\<close> an underscore and at least one
  character other than a newline.\<close>

definition is_phase_module_name :: "string \<Rightarrow> bool" where
  "is_phase_module_name name =
     (case re_dollar_body name of
        c # r \<Rightarrow>
          let ds = takeWhile is_decimal r; t = dropWhile is_decimal r;
              u = (if prefix ''a'' t then drop 1 t else t)
          in c = CHR ''l'' \<and> ds \<noteq> [] \<and> prefix ''_'' u \<and> 1 < length u \<and> newline \<notin> set u
      | [] \<Rightarrow> False)"

text \<open>Submodules with their \<open>PHASE\<close> attribute, \<open>None\<close> when it is no phase; the error names the module.\<close>

fun discover_phases :: "(string \<times> 'w phase option) list \<Rightarrow> string + 'w phase list" where
  "discover_phases [] = Inr []"
| "discover_phases ((name, attr) # ms) =
     (if \<not> is_phase_module_name name then discover_phases ms
      else case attr of
             None \<Rightarrow> Inl name
           | Some phase \<Rightarrow> bindE (discover_phases ms) (\<lambda>phases. Inr (phase # phases)))"

section \<open>Ordering\<close>

datatype dependency_error = UnknownDependency string string | DependencyCycle "string list"

definition phases_by_id :: "'w phase list \<Rightarrow> (string, 'w phase) dict" where
  "phases_by_id phases = fold (\<lambda>p d. dict_set (ph_id p) p d) phases []"

definition unknown_dependency :: "string list \<Rightarrow> 'w phase list \<Rightarrow> (string \<times> string) option" where
  "unknown_dependency ids phases =
     find (\<lambda>(_, dep). dep \<notin> set ids)
       (concat (map (\<lambda>p. map (\<lambda>dep. (ph_id p, dep)) (ph_depends_on p)) phases))"

definition phase_ready :: "string list \<Rightarrow> string list \<Rightarrow> 'w phase \<Rightarrow> bool" where
  "phase_ready ids placed p = list_all (\<lambda>d. d \<in> set placed \<or> d \<notin> set ids) (ph_depends_on p)"

function place_phases ::
  "string list \<Rightarrow> string list \<Rightarrow> 'w phase list \<Rightarrow> dependency_error + 'w phase list" where
  "place_phases ids placed remaining =
     (if remaining = [] then Inr []
      else case find (phase_ready ids placed) remaining of
             None \<Rightarrow> Inl (DependencyCycle (sort (map ph_id remaining)))
           | Some nxt \<Rightarrow>
               bindE (place_phases ids (ph_id nxt # placed) (filter (\<lambda>p. ph_id p \<noteq> ph_id nxt) remaining))
                 (\<lambda>rest. Inr (nxt # rest)))"
  by pat_completeness auto
termination
  by (relation "measure (\<lambda>(_, _, remaining). length remaining)")
    (auto dest!: find_Some_in_set intro!: length_filter_less)

declare place_phases.simps [simp del]

definition order_phases :: "bool \<Rightarrow> 'w phase list \<Rightarrow> dependency_error + 'w phase list" where
  "order_phases allow_external_deps phases =
     (let by_id = phases_by_id phases; ids = dict_keys by_id in
      case (if allow_external_deps then None else unknown_dependency ids phases) of
        Some (p, dep) \<Rightarrow> Inl (UnknownDependency p dep)
      | None \<Rightarrow> place_phases ids [] (sort_key ph_id (dict_values by_id)))"

section \<open>Routing\<close>

datatype routing_error = NoSandboxUser | NoSuchUser

definition route :: "identity \<Rightarrow> setup_context \<Rightarrow> routing_error + string list" where
  "route idt ctx =
     (case idt of
        ROOT \<Rightarrow> Inr []
      | OPERATOR \<Rightarrow> Inr (pipe_cmd (ctx_operator ctx))
      | SANDBOX \<Rightarrow>
          (case docker_unprivileged_user (ctx_host ctx) of
             None \<Rightarrow> Inl NoSandboxUser
           | Some user \<Rightarrow> Inr (machinectl_cmd user)))"

definition daemon_owner_user :: "setup_context \<Rightarrow> routing_error + string" where
  "daemon_owner_user ctx =
     (if is_operator_rootless (ctx_host ctx) then Inr (ctx_operator ctx)
      else case docker_unprivileged_user (ctx_host ctx) of
             None \<Rightarrow> Inl NoSandboxUser
           | Some user \<Rightarrow> Inr user)"

definition daemon_owner_crossing :: "host_env \<Rightarrow> setup_context \<Rightarrow> routing_error + string list" where
  "daemon_owner_crossing env ctx =
     (if is_operator_rootless (ctx_host ctx) then
        (case getpwnam env (ctx_operator ctx) of
           None \<Rightarrow> Inl NoSuchUser
         | Some pw \<Rightarrow>
             (let run_dir = ''/run/user/'' @ int_str (pw_uid pw) in
              Inr [''env'', ''HOME='' @ pw_dir pw, ''XDG_RUNTIME_DIR='' @ run_dir,
                   ''DBUS_SESSION_BUS_ADDRESS=unix:path='' @ run_dir @ ''/bus'',
                   ''DOCKER_HOST=unix://'' @ run_dir @ ''/docker.sock'']))
      else case docker_unprivileged_user (ctx_host ctx) of
             None \<Rightarrow> Inl NoSandboxUser
           | Some user \<Rightarrow> Inr (machinectl_cmd user))"

definition resolve_sandbox_pw :: "host_env \<Rightarrow> host_settings \<Rightarrow> string + passwd" where
  "resolve_sandbox_pw env h =
     (case docker_unprivileged_user h of
        None \<Rightarrow> Inl ''separate-user host config is missing docker_unprivileged_user''
      | Some user \<Rightarrow>
          (case getpwnam env user of
             None \<Rightarrow> Inl (''sandbox user '' @ py_repr user @
               '' does not exist yet (created by an earlier phase L2); treat as MISSING'')
           | Some pw \<Rightarrow> Inr pw))"

text \<open>\<open>str(exc)\<close> of a \<open>KeyError\<close> is the repr of its message.\<close>

definition probe_sandbox_pw_or_missing ::
  "host_env \<Rightarrow> host_settings \<Rightarrow> (phase_result \<times> string) + passwd" where
  "probe_sandbox_pw_or_missing env h =
     (case resolve_sandbox_pw env h of Inl msg \<Rightarrow> Inl (MISSING, py_repr msg) | Inr pw \<Rightarrow> Inr pw)"

section \<open>The passes\<close>

definition mode_skip_detail :: "setup_context \<Rightarrow> string" where
  "mode_skip_detail ctx = ''skipped ('' @ mode_value (docker_execution_mode (ctx_host ctx)) @ '')''"

definition mode_excluded :: "setup_context \<Rightarrow> 'w phase \<Rightarrow> bool" where
  "mode_excluded ctx p = (docker_execution_mode (ctx_host ctx) \<notin> set (ph_applies_in p))"

definition plan_one :: "setup_context \<Rightarrow> 'w phase \<Rightarrow> 'w \<Rightarrow> phase_plan_outcome \<times> 'w" where
  "plan_one ctx p w =
     (if mode_excluded ctx p then (\<lparr>pp_id = ph_id p, pp_result = SKIPPED, pp_detail = mode_skip_detail ctx\<rparr>, w)
      else case ph_probe p ctx w of
             (Inl exc, w') \<Rightarrow> (\<lparr>pp_id = ph_id p, pp_result = FAIL, pp_detail = ''probe raised: '' @ exc\<rparr>, w')
           | (Inr (result, detail), w') \<Rightarrow> (\<lparr>pp_id = ph_id p, pp_result = result, pp_detail = detail\<rparr>, w'))"

definition run_plan_pass ::
  "bool \<Rightarrow> setup_context \<Rightarrow> 'w phase list \<Rightarrow> 'w \<Rightarrow> dependency_error + phase_plan_outcome list \<times> 'w" where
  "run_plan_pass allow_external_deps ctx phases w =
     bindE (order_phases allow_external_deps phases) (\<lambda>ordered.
       Inr (sweep ph_id (\<lambda>_. False) (\<lambda>_. plan_one ctx) [] ordered w))"

definition failed_outcome :: "setup_context \<Rightarrow> 'w phase \<Rightarrow> string \<Rightarrow> 'w \<Rightarrow> phase_apply_outcome \<times> 'w" where
  "failed_outcome ctx p detail w =
     (case ph_rollback p of
        None \<Rightarrow> (\<lparr>pa_id = ph_id p, pa_result = FAIL, pa_detail = detail, pa_reverified = False\<rparr>, w)
      | Some rollback \<Rightarrow>
          (let (r, w') = rollback ctx w;
               note = (case r of Inr _ \<Rightarrow> ''rolled back'' | Inl exc \<Rightarrow> ''rollback also failed: '' @ exc)
           in (\<lparr>pa_id = ph_id p, pa_result = FAIL, pa_detail = detail @ '' ('' @ note @ '')'',
                pa_reverified = False\<rparr>, w')))"

definition apply_one :: "setup_context \<Rightarrow> 'w phase \<Rightarrow> 'w \<Rightarrow> phase_apply_outcome \<times> 'w" where
  "apply_one ctx p w =
     (case ph_act p ctx w of
        (Inl exc, w1) \<Rightarrow> failed_outcome ctx p (''act/reverify raised: '' @ exc) w1
      | (Inr act_detail, w1) \<Rightarrow>
          (case ph_reverify p ctx w1 of
             (Inl exc, w2) \<Rightarrow> failed_outcome ctx p (''act/reverify raised: '' @ exc) w2
           | (Inr True, w2) \<Rightarrow>
               (\<lparr>pa_id = ph_id p, pa_result = ALREADY_CORRECT, pa_detail = act_detail, pa_reverified = True\<rparr>, w2)
           | (Inr False, w2) \<Rightarrow> failed_outcome ctx p ''reverify did not confirm convergence'' w2))"

text \<open>The loop body of the apply pass, given the ids that have failed so far.\<close>

definition apply_phase ::
  "setup_context \<Rightarrow> string list \<Rightarrow> 'w phase \<Rightarrow> 'w \<Rightarrow> phase_apply_outcome \<times> 'w" where
  "apply_phase ctx failed p w =
     (if mode_excluded ctx p then
        (\<lparr>pa_id = ph_id p, pa_result = SKIPPED, pa_detail = mode_skip_detail ctx, pa_reverified = False\<rparr>, w)
      else case find (\<lambda>dep. dep \<in> set failed) (ph_depends_on p) of
        Some blocker \<Rightarrow>
          (\<lparr>pa_id = ph_id p, pa_result = BLOCKED_BY,
            pa_detail = ''blocked by failed phase '' @ py_repr blocker,
            pa_reverified = False\<rparr>, w)
      | None \<Rightarrow>
          (case ph_probe p ctx w of
             (Inl exc, w') \<Rightarrow>
               (\<lparr>pa_id = ph_id p, pa_result = FAIL, pa_detail = ''probe raised: '' @ exc, pa_reverified = False\<rparr>, w')
           | (Inr (result, detail), w') \<Rightarrow>
               if result = ALREADY_CORRECT \<or> result = SKIPPED then
                 (\<lparr>pa_id = ph_id p, pa_result = result, pa_detail = detail, pa_reverified = False\<rparr>, w')
               else if result = CONFLICT then
                 (\<lparr>pa_id = ph_id p, pa_result = CONFLICT, pa_detail = detail, pa_reverified = False\<rparr>, w')
               else apply_one ctx p w'))"

text \<open>The outcomes that put a phase into \<open>failed_ids\<close>.\<close>

definition outcome_failed :: "phase_apply_outcome \<Rightarrow> bool" where
  "outcome_failed r = (pa_result r \<in> {FAIL, CONFLICT, BLOCKED_BY})"

definition run_apply_pass ::
  "bool \<Rightarrow> setup_context \<Rightarrow> 'w phase list \<Rightarrow> 'w \<Rightarrow> dependency_error + phase_apply_outcome list \<times> 'w" where
  "run_apply_pass allow_external_deps ctx phases w =
     bindE (order_phases allow_external_deps phases) (\<lambda>ordered.
       Inr (sweep ph_id outcome_failed (apply_phase ctx) [] ordered w))"

section \<open>Lemmas: ordering\<close>

lemma phases_by_id_step:
  "set qs \<subseteq> S \<Longrightarrow> dict_wf d \<Longrightarrow> \<forall>e \<in> set d. fst e = ph_id (snd e) \<and> snd e \<in> S \<Longrightarrow>
     dict_wf (fold (\<lambda>p d. dict_set (ph_id p) p d) qs d) \<and>
     (\<forall>e \<in> set (fold (\<lambda>p d. dict_set (ph_id p) p d) qs d). fst e = ph_id (snd e) \<and> snd e \<in> S) \<and>
     set (dict_keys (fold (\<lambda>p d. dict_set (ph_id p) p d) qs d)) = set (dict_keys d) \<union> ph_id ` set qs"
proof (induction qs arbitrary: d)
  case (Cons q qs)
  have "\<forall>e \<in> set (dict_set (ph_id q) q d). fst e = ph_id (snd e) \<and> snd e \<in> S"
    using set_dict_set [of "ph_id q" q d] Cons.prems by fastforce
  with Cons.IH [of "dict_set (ph_id q) q d"] Cons.prems show ?case by simp
qed simp

lemma phases_by_id_facts:
  "dict_wf (phases_by_id phases)"
  "\<forall>e \<in> set (phases_by_id phases). fst e = ph_id (snd e) \<and> snd e \<in> set phases"
  "set (dict_keys (phases_by_id phases)) = ph_id ` set phases"
proof -
  from phases_by_id_step [of phases "set phases" "[]"] show "dict_wf (phases_by_id phases)"
    "\<forall>e \<in> set (phases_by_id phases). fst e = ph_id (snd e) \<and> snd e \<in> set phases"
    "set (dict_keys (phases_by_id phases)) = ph_id ` set phases"
    unfolding phases_by_id_def by simp_all
qed

lemma place_phases_Inr:
  "place_phases ids placed remaining = Inr ys \<Longrightarrow> distinct (map ph_id remaining) \<Longrightarrow>
     set ys = set remaining \<and> distinct (map ph_id ys) \<and>
     (\<forall>i < length ys. \<forall>d \<in> set (ph_depends_on (ys ! i)). d \<in> set ids \<longrightarrow>
        d \<in> set placed \<or> d \<in> ph_id ` set (take i ys))"
proof (induction ids placed remaining arbitrary: ys rule: place_phases.induct)
  case (1 ids placed remaining)
  show ?case
  proof (cases "remaining = []")
    case True
    with 1(2) show ?thesis by (simp add: place_phases.simps)
  next
    case False
    with 1(2) obtain nxt rest where nxt: "find (phase_ready ids placed) remaining = Some nxt"
      and rest: "place_phases ids (ph_id nxt # placed) (filter (\<lambda>p. ph_id p \<noteq> ph_id nxt) remaining) = Inr rest"
      and ys: "ys = nxt # rest"
      by (subst (asm) place_phases.simps) (auto simp: bindE_Inr_iff split: option.splits)
    have mem: "nxt \<in> set remaining" "phase_ready ids placed nxt" using find_Some_in_set [OF nxt] by auto
    have flt: "set (filter (\<lambda>p. ph_id p \<noteq> ph_id nxt) remaining) = set remaining - {nxt}"
      using 1(3) mem(1) by (auto simp: distinct_map inj_on_def)
    have "distinct (map ph_id (filter (\<lambda>p. ph_id p \<noteq> ph_id nxt) remaining))"
      using 1(3) by (rule distinct_map_filter)
    note ih0 = 1(1) [OF False nxt rest this]
    have ih: "set rest = set remaining - {nxt}" "distinct (map ph_id rest)"
      "\<forall>i < length rest. \<forall>d \<in> set (ph_depends_on (rest ! i)). d \<in> set ids \<longrightarrow>
        d = ph_id nxt \<or> d \<in> set placed \<or> d \<in> ph_id ` set (take i rest)"
      using ih0 unfolding flt by (blast, blast, simp)
    have "ph_id nxt \<notin> ph_id ` set rest"
      using 1(3) mem(1) unfolding ih(1) by (auto simp: distinct_map inj_on_def)
    moreover have "\<forall>i < length ys. \<forall>d \<in> set (ph_depends_on (ys ! i)). d \<in> set ids \<longrightarrow>
        d \<in> set placed \<or> d \<in> ph_id ` set (take i ys)"
    proof (intro allI impI ballI)
      fix i d assume "i < length ys" "d \<in> set (ph_depends_on (ys ! i))" "d \<in> set ids"
      then show "d \<in> set placed \<or> d \<in> ph_id ` set (take i ys)"
        using ih(3) mem(2) by (cases i) (auto simp: ys phase_ready_def list_all_iff)
    qed
    ultimately show ?thesis using ih mem(1) ys by auto
  qed
qed

text \<open>A cycle report names phases each of which waits for another one it names.\<close>

lemma place_phases_Inl:
  "place_phases ids placed remaining = Inl e \<Longrightarrow> set ids \<subseteq> set placed \<union> ph_id ` set remaining \<Longrightarrow>
     \<exists>cyc. e = DependencyCycle cyc \<and> cyc \<noteq> [] \<and>
       (\<forall>k \<in> set cyc. \<exists>p \<in> set remaining. ph_id p = k \<and> (\<exists>d \<in> set (ph_depends_on p). d \<in> set cyc))"
proof (induction ids placed remaining rule: place_phases.induct)
  case (1 ids placed remaining)
  have ne: "remaining \<noteq> []" using 1(2) by (auto simp: place_phases.simps)
  show ?case
  proof (cases "find (phase_ready ids placed) remaining")
    case None
    with 1(2) ne have e: "e = DependencyCycle (sort (map ph_id remaining))" by (simp add: place_phases.simps)
    have "\<exists>d \<in> set (ph_depends_on p). d \<in> ph_id ` set remaining" if "p \<in> set remaining" for p
    proof -
      have "\<not> phase_ready ids placed p" using None that by (simp add: find_None_all)
      then obtain d where "d \<in> set (ph_depends_on p)" "d \<notin> set placed" "d \<in> set ids"
        by (auto simp: phase_ready_def list_all_iff)
      moreover have "d \<in> ph_id ` set remaining" using 1(3) calculation by blast
      ultimately show ?thesis by blast
    qed
    moreover have "sort (map ph_id remaining) \<noteq> []"
      using ne by (metis set_sort set_empty map_is_Nil_conv)
    ultimately show ?thesis using e by auto
  next
    case (Some nxt)
    with 1(2) ne have rest: "place_phases ids (ph_id nxt # placed) (filter (\<lambda>p. ph_id p \<noteq> ph_id nxt) remaining) = Inl e"
      by (subst (asm) place_phases.simps) (simp add: bindE_Inl_iff)
    have "set ids \<subseteq> set (ph_id nxt # placed) \<union> ph_id ` set (filter (\<lambda>p. ph_id p \<noteq> ph_id nxt) remaining)"
      using 1(3) by auto
    from 1(1) [OF ne Some rest this] show ?thesis by fastforce
  qed
qed

lemma order_phases_place:
  "order_phases ext phases = Inr ys \<Longrightarrow>
     place_phases (dict_keys (phases_by_id phases)) [] (sort_key ph_id (dict_values (phases_by_id phases))) = Inr ys"
  by (auto simp: order_phases_def Let_def split: option.splits if_splits)

lemma values_ids: "map ph_id (dict_values (phases_by_id phases)) = dict_keys (phases_by_id phases)"
  using phases_by_id_facts [of phases] by (auto simp: dict_values_def dict_keys_def)

lemma sorted_values_distinct: "distinct (map ph_id (sort_key ph_id (dict_values (phases_by_id phases))))"
proof -
  have "distinct (map ph_id (dict_values (phases_by_id phases)))"
    using phases_by_id_facts [of phases] by (simp add: dict_wf_def values_ids)
  then show ?thesis by (simp add: distinct_map)
qed

lemma order_phases_Inr:
  assumes "order_phases ext phases = Inr ys"
  shows "distinct (map ph_id ys)" and "ph_id ` set ys = ph_id ` set phases" and "set ys \<subseteq> set phases"
    and "i < length ys \<Longrightarrow> d \<in> set (ph_depends_on (ys ! i)) \<Longrightarrow> d \<in> ph_id ` set ys \<Longrightarrow> d \<in> ph_id ` set (take i ys)"
proof -
  note f = phases_by_id_facts [of phases]
  note p = place_phases_Inr [OF order_phases_place [OF assms] sorted_values_distinct]
  show "distinct (map ph_id ys)" using p by simp
  have vals: "set ys = set (dict_values (phases_by_id phases))" using p by simp
  then show "set ys \<subseteq> set phases" using f by (auto simp: dict_values_def)
  have "ph_id ` set (dict_values (phases_by_id phases)) = set (dict_keys (phases_by_id phases))"
    by (metis values_ids list.set_map)
  with vals f show ids: "ph_id ` set ys = ph_id ` set phases" by simp
  show "i < length ys \<Longrightarrow> d \<in> set (ph_depends_on (ys ! i)) \<Longrightarrow> d \<in> ph_id ` set ys \<Longrightarrow> d \<in> ph_id ` set (take i ys)"
    using p f ids by auto
qed

interpretation phase_order: dep_schedule ph_id ph_depends_on "order_phases ext" for ext
  using order_phases_Inr by unfold_locales blast+

section \<open>Lemmas: one phase\<close>

lemma failed_outcome_result:
  "pa_id (fst (failed_outcome ctx p detail w)) = ph_id p \<and> pa_result (fst (failed_outcome ctx p detail w)) = FAIL \<and>
   \<not> pa_reverified (fst (failed_outcome ctx p detail w))"
  by (auto simp: failed_outcome_def Let_def split: option.splits prod.splits)

lemma apply_one_result:
  "pa_id (fst (apply_one ctx p w)) = ph_id p \<and>
   (pa_result (fst (apply_one ctx p w)) = ALREADY_CORRECT \<and> pa_reverified (fst (apply_one ctx p w)) \<or>
    pa_result (fst (apply_one ctx p w)) = FAIL \<and> \<not> pa_reverified (fst (apply_one ctx p w)))"
  by (auto simp: apply_one_def failed_outcome_result split: prod.splits sum.splits bool.splits)

lemma apply_phase_id: "pa_id (fst (apply_phase ctx failed p w)) = ph_id p"
  using apply_one_result [of ctx p] by (auto simp: apply_phase_def split: option.splits prod.splits sum.splits)

lemma apply_phase_excluded:
  "mode_excluded ctx p \<Longrightarrow> pa_result (fst (apply_phase ctx failed p w)) = SKIPPED"
  by (simp add: apply_phase_def)

lemma apply_phase_blocked:
  "\<not> mode_excluded ctx p \<Longrightarrow>
     pa_result (fst (apply_phase ctx failed p w)) = BLOCKED_BY \<longleftrightarrow> (\<exists>d \<in> set (ph_depends_on p). d \<in> set failed)"
proof (cases "find (\<lambda>dep. dep \<in> set failed) (ph_depends_on p)")
  case None
  then have "\<forall>d \<in> set (ph_depends_on p). d \<notin> set failed" by (simp add: find_None_all)
  moreover note None
  moreover assume "\<not> mode_excluded ctx p"
  moreover have "pa_result (fst (apply_one ctx p w')) \<noteq> BLOCKED_BY" for w'
    using apply_one_result [of ctx p w'] by auto
  ultimately show ?thesis
    by (auto simp: apply_phase_def split: prod.splits sum.splits)
next
  case (Some d)
  moreover assume "\<not> mode_excluded ctx p"
  ultimately show ?thesis
    using find_Some_in_set [OF Some] by (auto simp: apply_phase_def)
qed

lemma apply_phase_not_blocked_quiet:
  assumes "mode_excluded ctx p \<or>
    (case ph_probe p ctx w of
       (Inl exc, w') \<Rightarrow> w' = w
     | (Inr (r, d), w') \<Rightarrow> w' = w \<and> r \<in> {ALREADY_CORRECT, SKIPPED, CONFLICT})"
  shows "snd (apply_phase ctx failed p w) = w"
  using assms by (auto simp: apply_phase_def split: option.splits prod.splits sum.splits)

lemma order_phases_Inl:
  assumes "order_phases ext phases = Inl e"
  shows "case e of
      UnknownDependency k d \<Rightarrow> \<not> ext \<and> d \<notin> ph_id ` set phases \<and>
        (\<exists>p \<in> set phases. ph_id p = k \<and> d \<in> set (ph_depends_on p))
    | DependencyCycle cyc \<Rightarrow> cyc \<noteq> [] \<and>
        (\<forall>k \<in> set cyc. \<exists>p \<in> set phases. ph_id p = k \<and> (\<exists>d \<in> set (ph_depends_on p). d \<in> set cyc))"
proof (cases "if ext then None else unknown_dependency (dict_keys (phases_by_id phases)) phases")
  case None
  with assms have "place_phases (dict_keys (phases_by_id phases)) []
      (sort_key ph_id (dict_values (phases_by_id phases))) = Inl e"
    by (simp add: order_phases_def Let_def)
  moreover have "set (dict_keys (phases_by_id phases)) \<subseteq>
      set [] \<union> ph_id ` set (sort_key ph_id (dict_values (phases_by_id phases)))"
    using values_ids [of phases] by (metis Un_upper2 list.set_map set_sort)
  ultimately obtain cyc where e: "e = DependencyCycle cyc" "cyc \<noteq> []"
    "\<forall>k \<in> set cyc. \<exists>p \<in> set (sort_key ph_id (dict_values (phases_by_id phases))).
       ph_id p = k \<and> (\<exists>d \<in> set (ph_depends_on p). d \<in> set cyc)"
    using place_phases_Inl by blast
  have "set (dict_values (phases_by_id phases)) \<subseteq> set phases"
    using phases_by_id_facts(2) [of phases] by (auto simp: dict_values_def)
  with e show ?thesis by fastforce
next
  case (Some kd)
  obtain k d where kd: "kd = (k, d)" by (cases kd)
  with Some have ext: "\<not> ext" and u: "unknown_dependency (dict_keys (phases_by_id phases)) phases = Some (k, d)"
    by (auto split: if_splits)
  with assms have e: "e = UnknownDependency k d" by (simp add: order_phases_def Let_def)
  from find_Some_in_set [OF u [unfolded unknown_dependency_def]] phases_by_id_facts(3) [of phases]
  have "d \<notin> ph_id ` set phases \<and> (\<exists>p \<in> set phases. ph_id p = k \<and> d \<in> set (ph_depends_on p))"
    by auto
  with e ext show ?thesis by simp
qed

section \<open>Properties\<close>

text \<open>Claim C8: ordering the phases is correct and complete. A successful order holds every phase id exactly
  once with each dependency before its dependents; it is refused only for an unknown dependency in strict
  mode, naming it, or for a cycle, naming phases that each wait for one another.\<close>

theorem order_phases_correct:
  "case order_phases ext phases of
     Inr ys \<Rightarrow> set ys \<subseteq> set phases \<and> ph_id ` set ys = ph_id ` set phases \<and> distinct (map ph_id ys) \<and>
       (\<forall>i < length ys. \<forall>j < length ys. ph_id (ys ! j) \<in> set (ph_depends_on (ys ! i)) \<longrightarrow> j < i)
   | Inl (UnknownDependency k d) \<Rightarrow> \<not> ext \<and> d \<notin> ph_id ` set phases \<and>
       (\<exists>p \<in> set phases. ph_id p = k \<and> d \<in> set (ph_depends_on p))
   | Inl (DependencyCycle cyc) \<Rightarrow> cyc \<noteq> [] \<and>
       (\<forall>k \<in> set cyc. \<exists>p \<in> set phases. ph_id p = k \<and> (\<exists>d \<in> set (ph_depends_on p). d \<in> set cyc))"
proof (cases "order_phases ext phases")
  case (Inl e)
  with order_phases_Inl [OF Inl] show ?thesis by (cases e) auto
next
  case (Inr ys)
  then show ?thesis
    using order_phases_Inr(1-3) [OF Inr] phase_order.dep_index [OF Inr] by simp
qed

text \<open>Claim C7: the apply pass blocks exactly the dependents of what failed. It reports one outcome per phase in
  order; a phase the mode excludes is skipped; any other is blocked just when one of its dependencies failed,
  conflicted or was itself blocked anywhere in the pass.\<close>

theorem apply_pass_blocking:
  assumes "run_apply_pass ext ctx phases w = Inr (outs, w')"
  shows "\<exists>ys. order_phases ext phases = Inr ys \<and> map pa_id outs = map ph_id ys \<and>
    (\<forall>i < length ys.
       if mode_excluded ctx (ys ! i) then pa_result (outs ! i) = SKIPPED
       else pa_result (outs ! i) = BLOCKED_BY \<longleftrightarrow>
         (\<exists>j < length ys. ph_id (ys ! j) \<in> set (ph_depends_on (ys ! i)) \<and>
            pa_result (outs ! j) \<in> {FAIL, CONFLICT, BLOCKED_BY}))"
proof -
  from assms obtain ys where ys: "order_phases ext phases = Inr ys"
    and sw: "sweep ph_id outcome_failed (apply_phase ctx) [] ys w = (outs, w')"
    by (auto simp: run_apply_pass_def bindE_Inr_iff)
  have len: "length outs = length ys"
    using sw length_sweep [of ph_id outcome_failed "apply_phase ctx" "[]" ys w] by simp
  have one: "pa_id (outs ! i) = ph_id (ys ! i) \<and>
      (if mode_excluded ctx (ys ! i) then pa_result (outs ! i) = SKIPPED
       else pa_result (outs ! i) = BLOCKED_BY \<longleftrightarrow>
         (\<exists>j < length ys. ph_id (ys ! j) \<in> set (ph_depends_on (ys ! i)) \<and>
            pa_result (outs ! j) \<in> {FAIL, CONFLICT, BLOCKED_BY}))" if i: "i < length ys" for i
  proof -
    obtain failed t where o: "outs ! i = fst (apply_phase ctx failed (ys ! i) t)"
      "\<forall>d \<in> set (ph_depends_on (ys ! i)). d \<in> set failed \<longleftrightarrow>
         (\<exists>j < length ys. ph_id (ys ! j) = d \<and> outcome_failed (outs ! j))"
      using phase_order.sweep_outcome [OF ys sw i] by blast
    show ?thesis
      using o(2) apply_phase_id [of ctx failed "ys ! i" t] apply_phase_excluded [of ctx "ys ! i" failed t]
        apply_phase_blocked [of ctx "ys ! i" failed t]
      unfolding o(1) [symmetric] outcome_failed_def by (auto split: if_splits)
  qed
  have "map pa_id outs = map ph_id ys"
    using one len by (intro nth_equalityI) simp_all
  with ys one show ?thesis by blast
qed

definition sample_ctx :: setup_context where
  "sample_ctx = \<lparr>ctx_host = \<lparr>docker_unprivileged_user = None, docker_execution_mode = OPERATOR_ROOTLESS,
     workspace_bridge_group = ''sb-ws''\<rparr>, ctx_operator = ''ann''\<rparr>"

definition sample_phase :: "string \<Rightarrow> string list \<Rightarrow> docker_execution_mode list \<Rightarrow> phase_result \<Rightarrow> bool \<Rightarrow> nat phase" where
  "sample_phase k deps modes r confirms =
     \<lparr>ph_id = k, ph_name = k, ph_identity = ROOT, ph_probe = (\<lambda>_ w. (Inr (r, []), w)),
      ph_act = (\<lambda>_ w. (Inr [], Suc w)), ph_reverify = (\<lambda>_ w. (Inr confirms, w)),
      ph_depends_on = deps, ph_rollback = None, ph_applies_in = modes\<rparr>"

definition both_modes :: "docker_execution_mode list" where
  "both_modes = [SEPARATE_USER, OPERATOR_ROOTLESS]"

definition sample_phases :: "nat phase list" where
  "sample_phases =
     [sample_phase ''c'' [''b''] both_modes MISSING True, sample_phase ''b'' [''a''] both_modes DRIFT True,
      sample_phase ''a'' [] both_modes MISSING False, sample_phase ''d'' [''a''] [SEPARATE_USER] MISSING True]"

lemmas sample_phase_defs = sample_phases_def sample_phase_def both_modes_def sample_ctx_def


lemma sample_order: "map_sum id (map ph_id) (order_phases False sample_phases) = Inr [''a'', ''b'', ''c'', ''d'']"
  by code_simp

theorem order_phases_correct_witness:
  "\<exists>ys. order_phases False sample_phases = Inr ys \<and> map ph_id ys = [''a'', ''b'', ''c'', ''d''] \<and>
     set ys \<subseteq> set sample_phases \<and> distinct (map ph_id ys)"
proof -
  obtain ys where ys: "order_phases False sample_phases = Inr ys" "map ph_id ys = [''a'', ''b'', ''c'', ''d'']"
    using sample_order by (cases "order_phases False sample_phases") auto
  with order_phases_correct [of False sample_phases] show ?thesis by simp
qed

lemma sample_apply:
  "map_sum id (\<lambda>p. map (\<lambda>r. (pa_id r, pa_result r)) (fst p)) (run_apply_pass False sample_ctx sample_phases 0) =
     Inr [(''a'', FAIL), (''b'', BLOCKED_BY), (''c'', BLOCKED_BY), (''d'', SKIPPED)]"
  by code_simp

theorem apply_pass_blocking_witness:
  "\<exists>outs w' ys. run_apply_pass False sample_ctx sample_phases 0 = Inr (outs, w') \<and>
     map (\<lambda>r. (pa_id r, pa_result r)) outs =
       [(''a'', FAIL), (''b'', BLOCKED_BY), (''c'', BLOCKED_BY), (''d'', SKIPPED)] \<and>
     order_phases False sample_phases = Inr ys \<and> map pa_id outs = map ph_id ys"
proof -
  obtain outs w' where r: "run_apply_pass False sample_ctx sample_phases 0 = Inr (outs, w')"
    "map (\<lambda>r. (pa_id r, pa_result r)) outs =
       [(''a'', FAIL), (''b'', BLOCKED_BY), (''c'', BLOCKED_BY), (''d'', SKIPPED)]"
    using sample_apply by (cases "run_apply_pass False sample_ctx sample_phases 0") auto
  moreover obtain ys where "order_phases False sample_phases = Inr ys" "map pa_id outs = map ph_id ys"
    using apply_pass_blocking [OF r(1)] by blast
  ultimately show ?thesis by (intro exI conjI)
qed

section \<open>A settled host\<close>

text \<open>A phase whose probe, on this host, reads only and finds nothing to do or to touch.\<close>

definition settled_here :: "setup_context \<Rightarrow> 'w \<Rightarrow> 'w phase \<Rightarrow> bool" where
  "settled_here ctx w p =
     (mode_excluded ctx p \<or>
      (case ph_probe p ctx w of
         (Inl exc, w') \<Rightarrow> w' = w
       | (Inr (r, d), w') \<Rightarrow> w' = w \<and> r \<in> {ALREADY_CORRECT, SKIPPED, CONFLICT}))"

lemma order_phases_indep:
  "run_plan_pass ext ctx phases w = Inr (plan, w') \<Longrightarrow> run_apply_pass ext ctx phases w1 = Inr (outs, w1') \<Longrightarrow>
     \<exists>ys. order_phases ext phases = Inr ys \<and>
       sweep ph_id (\<lambda>_. False) (\<lambda>_. plan_one ctx) [] ys w = (plan, w') \<and>
       sweep ph_id outcome_failed (apply_phase ctx) [] ys w1 = (outs, w1')"
  by (auto simp: run_plan_pass_def run_apply_pass_def bindE_Inr_iff)

lemma settled_apply_one:
  "settled_here ctx w p \<Longrightarrow> snd (apply_phase ctx failed p w) = w \<and> snd (plan_one ctx p w) = w \<and>
     (pa_result (fst (apply_phase ctx failed p w)) = BLOCKED_BY \<or>
      pa_result (fst (apply_phase ctx failed p w)) = pp_result (fst (plan_one ctx p w)) \<and>
      pa_detail (fst (apply_phase ctx failed p w)) = pp_detail (fst (plan_one ctx p w)))"
  by (auto simp: settled_here_def apply_phase_def plan_one_def split: option.splits prod.splits sum.splits if_splits)

text \<open>on a host where every applicable probe only reads and reports nothing to change, neither pass
  mutates anything, and the apply pass reports for each phase what the plan announced unless the phase is
  blocked.\<close>

theorem settled_host_untouched:
  assumes settled: "\<forall>p \<in> set phases. settled_here ctx w p"
    and plan: "run_plan_pass ext ctx phases w = Inr (plan, w1)"
    and app: "run_apply_pass ext ctx phases w = Inr (outs, w2)"
  shows "w1 = w \<and> w2 = w \<and> length outs = length plan \<and>
    (\<forall>i < length plan. pa_result (outs ! i) = BLOCKED_BY \<or>
       pa_result (outs ! i) = pp_result (plan ! i) \<and> pa_detail (outs ! i) = pp_detail (plan ! i))"
proof -
  obtain ys where ys: "order_phases ext phases = Inr ys"
    and sp: "sweep ph_id (\<lambda>_. False) (\<lambda>_. plan_one ctx) [] ys w = (plan, w1)"
    and sa: "sweep ph_id outcome_failed (apply_phase ctx) [] ys w = (outs, w2)"
    using order_phases_indep [OF plan app] by blast
  have s: "settled_here ctx w y" if "y \<in> set ys" for y
    using order_phases_Inr(3) [OF ys] settled that by blast
  have keepp: "snd (plan_one ctx y t) = w" if "y \<in> set ys" "t = w" for y t
    using settled_apply_one [OF s [OF that(1)]] that(2) by simp
  have keepa: "snd (apply_phase ctx failed y t) = w" if "y \<in> set ys" "t = w" for failed y t
    using settled_apply_one [OF s [OF that(1)]] that(2) by simp
  have "w1 = w"
    using sweep_invariant [of ys "\<lambda>t. t = w" "\<lambda>_. plan_one ctx" w ph_id "\<lambda>_. False" "[]"] keepp sp by simp
  moreover have "w2 = w"
    using sweep_invariant [of ys "\<lambda>t. t = w" "apply_phase ctx" w ph_id outcome_failed "[]"] keepa sa by simp
  moreover have len: "length outs = length ys" "length plan = length ys"
    using length_sweep [of ph_id outcome_failed "apply_phase ctx" "[]" ys w]
      length_sweep [of ph_id "\<lambda>_. False" "\<lambda>_. plan_one ctx" "[]" ys w] sp sa by simp_all
  moreover have "pa_result (outs ! i) = BLOCKED_BY \<or>
       pa_result (outs ! i) = pp_result (plan ! i) \<and> pa_detail (outs ! i) = pp_detail (plan ! i)"
    if i: "i < length ys" for i
  proof -
    obtain failed where o1: "outs ! i = fst (apply_phase ctx failed (ys ! i) w)"
      using sweep_nth_invariant [OF i sa, of "\<lambda>t. t = w"] keepa by metis
    have "plan ! i = fst (plan_one ctx (ys ! i) w)"
      using sweep_nth_invariant [OF i sp, of "\<lambda>t. t = w"] keepp by metis
    with o1 settled_apply_one [OF s [OF nth_mem [OF i]], of failed] show ?thesis by simp
  qed
  ultimately show ?thesis by simp
qed
definition settled_phases :: "nat phase list" where
  "settled_phases =
     [sample_phase ''b'' [''a''] both_modes ALREADY_CORRECT True, sample_phase ''a'' [] both_modes CONFLICT True]"

theorem settled_host_untouched_witness:
  "\<exists>plan w1 outs w2. run_plan_pass False sample_ctx settled_phases 7 = Inr (plan, w1) \<and>
     run_apply_pass False sample_ctx settled_phases 7 = Inr (outs, w2) \<and> w1 = 7 \<and> w2 = 7 \<and>
     length outs = length plan"
proof -
  have ok: "is_ok (run_plan_pass False sample_ctx settled_phases 7)"
    "is_ok (run_apply_pass False sample_ctx settled_phases 7)"
    by code_simp+
  then obtain plan w1 outs w2 where r: "run_plan_pass False sample_ctx settled_phases 7 = Inr (plan, w1)"
    "run_apply_pass False sample_ctx settled_phases 7 = Inr (outs, w2)"
    by (auto simp: is_ok_iff)
  have "\<forall>p \<in> set settled_phases. settled_here sample_ctx 7 p"
    by (simp add: settled_phases_def sample_phase_def settled_here_def)
  from settled_host_untouched [OF this r] r show ?thesis by blast
qed

end
