(* ===== verification/Host_World.thy ===== *)
theory Host_World
  imports Phase_Runner Executor
begin

text \<open>
  The host that setup provisions, as the phases of \<open>src/src/core/setup\<close> see it: account databases, files
  with their owner and mode, and executables. Programs that setup runs, the network and the hash function
  are not part of the repository: they are the fields of \<open>os_iface\<close>, which every phase takes as argument.
  File contents and texts outside ASCII are kept in their UTF-8 encoding, one character per byte.
\<close>

section \<open>Host state\<close>

datatype file_state = FAbsent | FDenied string | FText (f_body: string) (f_mode: nat) (f_uid: int) (f_gid: int)

record host_world =
  w_env :: host_env
  w_gr_mem :: "string \<Rightarrow> string list"
  w_files :: "string \<Rightarrow> file_state"
  w_exec :: "string \<Rightarrow> bool"
  w_stat :: "string \<Rightarrow> (nat \<times> nat) option"

type_synonym 'a host_effect = "(host_world, 'a) effect"

record proc =
  p_rc :: int
  p_out :: string
  p_err :: string

record os_iface =
  os_run :: "string list \<Rightarrow> proc host_effect"
  os_spawn :: "string list \<Rightarrow> (string, string) dict \<Rightarrow> bool \<Rightarrow> host_world \<Rightarrow> spawn_result \<times> host_world"
  os_path :: "string option"
  os_token :: string
  os_fault_text :: "exec_error \<Rightarrow> string"
  os_call_error :: "string list \<Rightarrow> int \<Rightarrow> string"
  os_write_denied :: "string \<Rightarrow> host_world \<Rightarrow> string option"
  os_hostname :: string
  os_machine :: string
  os_download :: "string \<Rightarrow> string + string"
  os_sha512 :: "string \<Rightarrow> string"
  os_json_loads :: "string \<Rightarrow> string + json"
  os_json_dumps :: "json \<Rightarrow> string"
  os_now :: string

section \<open>Files\<close>

text \<open>\<open>path.read_text()\<close> with \<open>FileNotFoundError\<close> turned into \<open>None\<close>; any other failure propagates.\<close>

definition read_file :: "string \<Rightarrow> string option host_effect" where
  "read_file path w =
     (case w_files w path of
        FAbsent \<Rightarrow> (Inr None, w)
      | FDenied exc \<Rightarrow> (Inl exc, w)
      | FText body _ _ _ \<Rightarrow> (Inr (Some body), w))"

definition put_file :: "string \<Rightarrow> file_state \<Rightarrow> host_world \<Rightarrow> host_world" where
  "put_file path f w = w\<lparr>w_files := (w_files w)(path := f)\<rparr>"

text \<open>Writing, then owner and mode: as root the \<open>chmod\<close> and \<open>chown\<close> succeed once the write has.\<close>

definition write_root_file :: "os_iface \<Rightarrow> string \<Rightarrow> string \<Rightarrow> nat \<Rightarrow> unit host_effect" where
  "write_root_file os path body mode w =
     (case os_write_denied os path w of
        Some exc \<Rightarrow> (Inl exc, w)
      | None \<Rightarrow> (Inr (), put_file path (FText body mode 0 0) w))"

text \<open>\<open>path.unlink(missing_ok=True)\<close>\<close>

definition unlink_missing_ok :: "os_iface \<Rightarrow> string \<Rightarrow> unit host_effect" where
  "unlink_missing_ok os path w =
     (if w_files w path = FAbsent then (Inr (), w)
      else case os_write_denied os path w of
             Some exc \<Rightarrow> (Inl exc, w)
           | None \<Rightarrow> (Inr (), put_file path FAbsent w))"

section \<open>Programs\<close>

text \<open>\<open>subprocess.run(argv, check=True)\<close>\<close>

definition run_checked :: "os_iface \<Rightarrow> string list \<Rightarrow> unit host_effect" where
  "run_checked os argv = ebind (os_run os argv) (\<lambda>p.
     if p_rc p \<noteq> 0 then ethrow (os_call_error os argv (p_rc p)) else eret ())"

text \<open>A query whose \<open>OSError\<close> or \<open>SubprocessError\<close> means no.\<close>

definition run_query :: "os_iface \<Rightarrow> string list \<Rightarrow> (proc \<Rightarrow> bool) \<Rightarrow> bool host_effect" where
  "run_query os argv ok = ecatch (ebind (os_run os argv) (\<lambda>p. eret (ok p))) (\<lambda>_. eret False)"

text \<open>The message of a \<open>SandboxExecutionError\<close>; the operating system's part of it is \<open>os_fault_text\<close>.\<close>

definition trace_text :: "string \<Rightarrow> string option \<Rightarrow> string" where
  "trace_text label e =
     (case e of None \<Rightarrow> [] | Some s \<Rightarrow> if s = [] then [] else newline # label @ [newline] @ s)"

definition exec_error_message :: "os_iface \<Rightarrow> exec_error \<Rightarrow> string" where
  "exec_error_message os e =
     (case e of
        MutuallyExclusive \<Rightarrow> ''sentinel and framed are mutually exclusive''
      | ExitStatus cmd rc err \<Rightarrow>
          ''[FATAL] Sandbox Execution Fault: Command '' @ [CHR 0x27] @ py_join '' '' cmd @ [CHR 0x27] @
          '' failed with exit status '' @ int_str rc @ ''.'' @ trace_text ''Error Trace:'' err
      | TimeoutExpired cmd \<Rightarrow>
          ''[FATAL] Sandbox Execution Fault: Command '' @ [CHR 0x27] @ py_join '' '' cmd @ [CHR 0x27] @
          '' timed out after '' @ os_fault_text os e
      | OsFault cmd \<Rightarrow>
          ''[FATAL] Sandbox Execution Fault: OS Error during execution of '' @ [CHR 0x27] @ py_join '' '' cmd @
          [CHR 0x27] @ '': '' @ os_fault_text os e
      | SentinelNotFound out err \<Rightarrow>
          ''[FATAL] Exit sentinel not found in command output. '' @
          ''The command may have crashed or produced corrupted output.'' @ [newline] @ ''Output:'' @ [newline] @
          out @ trace_text ''Error Trace:'' (map_option normalize_captured_output err)
      | InnerFailed code out err \<Rightarrow>
          ''[FATAL] Sandbox Execution Fault: Inner command failed with exit status '' @ nat_str code @ ''.'' @
          trace_text ''Error Trace:'' err @ trace_text ''Output:'' (Some out))"

text \<open>\<open>Executor().run\<close> on the host: the result, or the fault, with the host after the program ran.\<close>

definition run_opts :: "bool \<Rightarrow> bool \<Rightarrow> run_options" where
  "run_opts snt frm = \<lparr>interactive = False, extra_env = [], sentinel = snt, framed = frm\<rparr>"

definition exec_on_host ::
  "os_iface \<Rightarrow> run_options \<Rightarrow> string list \<Rightarrow> host_world \<Rightarrow> (exec_error + completed) \<times> host_world" where
  "exec_on_host os opts cmd w =
     (let cmd' = (if sentinel opts \<and> \<not> interactive opts \<and> wrappable cmd then wrap_sentinel (os_token os) cmd else cmd);
          (r, w') = os_spawn os cmd' (sterile_env (os_path os) (extra_env opts)) (interactive opts) w
      in if sentinel opts \<and> framed opts then (Inl MutuallyExclusive, w)
         else (fst (executor_run (\<lambda>_ _ _. r) (os_path os) (os_token os) opts cmd None), w'))"

definition exec_run :: "os_iface \<Rightarrow> run_options \<Rightarrow> string list \<Rightarrow> completed host_effect" where
  "exec_run os opts cmd w =
     (case exec_on_host os opts cmd w of
        (Inl e, w') \<Rightarrow> (Inl (exec_error_message os e), w')
      | (Inr cp, w') \<Rightarrow> (Inr cp, w'))"

definition exec_ok :: "os_iface \<Rightarrow> run_options \<Rightarrow> string list \<Rightarrow> (completed \<Rightarrow> bool) \<Rightarrow> bool host_effect" where
  "exec_ok os opts cmd ok = ecatch (ebind (exec_run os opts cmd) (\<lambda>cp. eret (ok cp))) (\<lambda>_. eret False)"

section \<open>The distribution\<close>

definition os_release_fields :: "string \<Rightarrow> (string, string) dict" where
  "os_release_fields content =
     fold (\<lambda>line d.
        if CHR ''='' \<in> set line then
          (let (key, val) = py_partition CHR ''='' line
           in dict_set (py_strip key) (py_strip_chars [CHR 0x22] (py_strip val)) d)
        else d)
       (py_splitlines content) []"

definition field_or :: "string \<Rightarrow> (string, string) dict \<Rightarrow> string \<Rightarrow> string" where
  "field_or dflt d k = (case map_of d k of None \<Rightarrow> dflt | Some v \<Rightarrow> v)"

definition DISTRO_MAP :: "(string, string) dict" where
  "DISTRO_MAP =
     [(''debian'', ''debian''), (''ubuntu'', ''debian''), (''fedora'', ''fedora''), (''rhel'', ''fedora''),
      (''centos'', ''fedora''), (''arch'', ''arch''), (''manjaro'', ''arch'')]"

definition INSTALL_CMD :: "(string, string) dict" where
  "INSTALL_CMD =
     [(''debian'', ''sudo apt install''), (''fedora'', ''sudo dnf install''), (''arch'', ''sudo pacman -S'')]"

definition distro_of_fields :: "(string, string) dict \<Rightarrow> string option" where
  "distro_of_fields d =
     (case map_of DISTRO_MAP (field_or [] d ''ID'') of
        Some family \<Rightarrow> Some family
      | None \<Rightarrow>
          (case find (\<lambda>like. map_of DISTRO_MAP like \<noteq> None) (py_words (field_or [] d ''ID_LIKE'')) of
             Some like \<Rightarrow> map_of DISTRO_MAP like
           | None \<Rightarrow> None))"

definition detect_distro :: "string option host_effect" where
  "detect_distro = ebind (read_file ''/etc/os-release'') (\<lambda>content.
     eret (case content of None \<Rightarrow> None | Some c \<Rightarrow> distro_of_fields (os_release_fields c)))"

definition get_install_cmd :: "string option \<Rightarrow> string \<Rightarrow> string" where
  "get_install_cmd distro package =
     (case (case distro of None \<Rightarrow> None | Some d \<Rightarrow> map_of INSTALL_CMD d) of
        Some cmd \<Rightarrow> cmd @ '' '' @ package
      | None \<Rightarrow> ''Install the '' @ [CHR 0x27] @ package @ [CHR 0x27] @
          '' package using your system package manager'')"

section \<open>Lemmas\<close>

lemma read_file_reads [simp, intro]: "reads (read_file path) w"
  by (simp add: reads_def read_file_def split: file_state.splits)

lemma read_file_put [simp]: "read_file path (put_file path (FText body m u g) w) = (Inr (Some body), put_file path (FText body m u g) w)"
  by (simp add: read_file_def put_file_def)

lemma put_file_files [simp]: "w_files (put_file path f w) = (w_files w)(path := f)"
  by (simp add: put_file_def)

lemma put_file_rest [simp]:
  "w_env (put_file path f w) = w_env w" "w_gr_mem (put_file path f w) = w_gr_mem w"
  "w_exec (put_file path f w) = w_exec w" "w_stat (put_file path f w) = w_stat w"
  by (simp_all add: put_file_def)

lemma read_file_eq: "w_files w path = FText body m u g \<Longrightarrow> read_file path w = (Inr (Some body), w)"
  by (simp add: read_file_def)

lemma detect_distro_reads [simp, intro]: "reads detect_distro w"
  unfolding detect_distro_def by (intro reads_ebind) auto

lemma detect_distro_cong:
  "w_files w ''/etc/os-release'' = w_files w' ''/etc/os-release'' \<Longrightarrow> fst (detect_distro w) = fst (detect_distro w')"
  by (simp add: detect_distro_def ebind_def read_file_def split: file_state.splits)

text \<open>A program that leaves one file alone, whatever it does.\<close>

definition spares :: "os_iface \<Rightarrow> string list \<Rightarrow> string \<Rightarrow> bool" where
  "spares os argv path = (\<forall>w. w_files (snd (os_run os argv w)) path = w_files w path)"

lemma run_checked_spares:
  "spares os argv path \<Longrightarrow> keeps (\<lambda>w. w_files w path = f) (run_checked os argv)"
  unfolding run_checked_def by (intro keeps_ebind) (auto simp: spares_def keeps_def)

end
