(* ===== verification/Subid.thy ===== *)
theory Subid
  imports Host_World Lowest_Free
begin

text \<open>
  Subordinate id ranges: the whole-file reader and the free-block picker of \<open>src/src/core/setup/subid.py\<close>, and
  the classification of an account's ranges in \<open>src/src/core/setup/l2_host_prereqs.py\<close>. The picker's loop has no
  bound in the code, so it is a partial function; that it returns is a theorem.
\<close>

section \<open>Reading and picking\<close>

definition SUBID_BASE :: int where
  "SUBID_BASE = 100000"

definition SUBID_RANGE_SIZE :: int where
  "SUBID_RANGE_SIZE = 65536"

definition MIN_SUBID_RANGE :: int where
  "MIN_SUBID_RANGE = SUBID_RANGE_SIZE"

definition ranges_overlap :: "int \<Rightarrow> int \<Rightarrow> int \<Rightarrow> int \<Rightarrow> bool" where
  "ranges_overlap a_start a_size b_start b_size = (a_start < b_start + b_size \<and> b_start < a_start + a_size)"

definition all_users_ranges_by_user :: "string option \<Rightarrow> (string \<times> int \<times> int) list" where
  "all_users_ranges_by_user file =
     (case file of None \<Rightarrow> [] | Some content \<Rightarrow> List.map_filter parse_subid_line (py_splitlines content))"

definition read_all_subid_ranges_by_user :: "host_env \<Rightarrow> (string \<times> int \<times> int) list" where
  "read_all_subid_ranges_by_user env =
     all_users_ranges_by_user (subuid_file env) @ all_users_ranges_by_user (subgid_file env)"

definition read_all_subid_ranges :: "host_env \<Rightarrow> (int \<times> int) list" where
  "read_all_subid_ranges env = map snd (read_all_subid_ranges_by_user env)"

definition block_start :: "nat \<Rightarrow> int" where
  "block_start k = SUBID_BASE + int k * SUBID_RANGE_SIZE"

definition block_taken :: "(int \<times> int) list \<Rightarrow> nat \<Rightarrow> bool" where
  "block_taken occupied k =
     list_ex (\<lambda>r. ranges_overlap (block_start k) SUBID_RANGE_SIZE (fst r) (snd r)) occupied"

partial_function (option) scan_blocks :: "(int \<times> int) list \<Rightarrow> nat \<Rightarrow> nat option" where
  "scan_blocks occupied k = (if \<not> block_taken occupied k then Some k else scan_blocks occupied (Suc k))"

declare scan_blocks.simps [code]

definition pick_free_subid_block :: "(int \<times> int) list \<Rightarrow> (int \<times> int) option" where
  "pick_free_subid_block occupied =
     (case scan_blocks occupied 0 of None \<Rightarrow> None | Some k \<Rightarrow> Some (block_start k, SUBID_RANGE_SIZE))"

definition subid_range_arg :: "int \<times> int \<Rightarrow> string" where
  "subid_range_arg block = int_str (fst block) @ ''-'' @ int_str (fst block + snd block - 1)"

section \<open>Classification\<close>

datatype subid_state = Adequate | AbsentRange | Inadequate | Overlapping

definition range_total :: "(int \<times> int) list \<Rightarrow> int" where
  "range_total ranges = sum_list (map snd ranges)"

definition adequate_range :: "(int \<times> int) list \<Rightarrow> bool" where
  "adequate_range ranges = (MIN_SUBID_RANGE \<le> range_total ranges)"

definition own_ranges :: "host_env \<Rightarrow> string \<Rightarrow> ((int \<times> int) \<times> string) list" where
  "own_ranges env user =
     map (\<lambda>r. (r, ''subuid'')) (parse_subuid_for_user env user) @
     map (\<lambda>r. (r, ''subgid'')) (parse_subgid_for_user env user)"

definition foreign_ranges :: "host_env \<Rightarrow> string \<Rightarrow> (int \<times> int) list" where
  "foreign_ranges env user = map snd (filter (\<lambda>e. fst e \<noteq> user) (read_all_subid_ranges_by_user env))"

definition overlap_text :: "string \<Rightarrow> ((int \<times> int) \<times> string) \<times> (int \<times> int) \<Rightarrow> string" where
  "overlap_text user p =
     (let (((o_start, o_size), label), f_start, f_size) = p in
      ''/etc/'' @ label @ '' range '' @ int_str o_start @ '':'' @ int_str o_size @ '' for '' @ user @
      '' overlaps another user'' @ [CHR 0x27] @ ''s range '' @ int_str f_start @ '':'' @ int_str f_size @
      ''; subid ranges must be disjoint per user. Manually correct the overlap and re-run setup.'')"

definition cross_user_overlap :: "host_env \<Rightarrow> string \<Rightarrow> string option" where
  "cross_user_overlap env user =
     map_option (overlap_text user)
       (find (\<lambda>p. ranges_overlap (fst (fst (fst p))) (snd (fst (fst p))) (fst (snd p)) (snd (snd p)))
         (concat (map (\<lambda>own. map (\<lambda>f. (own, f)) (foreign_ranges env user)) (own_ranges env user))))"

definition inadequate_text :: "string \<Rightarrow> string \<Rightarrow> (int \<times> int) list \<Rightarrow> string" where
  "inadequate_text user label ranges =
     ''existing /etc/'' @ label @ '' entry for '' @ user @ '' has range '' @ int_str (range_total ranges) @
     ''; minimum required is '' @ int_str MIN_SUBID_RANGE @ ''. Refusing to shrink existing range. Manually update /etc/'' @
     label @ '' and re-run setup.''"

definition subid_status :: "host_env \<Rightarrow> string \<Rightarrow> subid_state \<times> string" where
  "subid_status env user =
     (let uid_ranges = parse_subuid_for_user env user; gid_ranges = parse_subgid_for_user env user in
      if uid_ranges = [] \<and> gid_ranges = [] then (AbsentRange, ''no /etc/subuid or /etc/subgid entry'')
      else if uid_ranges \<noteq> [] \<and> \<not> adequate_range uid_ranges then
        (Inadequate, inadequate_text user ''subuid'' uid_ranges)
      else if gid_ranges \<noteq> [] \<and> \<not> adequate_range gid_ranges then
        (Inadequate, inadequate_text user ''subgid'' gid_ranges)
      else case cross_user_overlap env user of
             Some detail \<Rightarrow> (Overlapping, detail)
           | None \<Rightarrow>
               if uid_ranges = [] \<or> gid_ranges = [] then
                 (AbsentRange, ''one of /etc/subuid or /etc/subgid entry is absent'')
               else (Adequate, ''subuid/subgid ranges adequate''))"

section \<open>Lemmas: the picker\<close>

text \<open>Every occupied range ends below some block, so a free block exists.\<close>

lemma free_block_exists: "\<exists>k. \<not> block_taken occupied k"
proof -
  obtain m :: nat where m: "\<forall>r \<in> set occupied. fst r + snd r \<le> int m"
  proof
    show "\<forall>r \<in> set occupied. fst r + snd r \<le> int (Max (insert 0 ((\<lambda>r. nat (fst r + snd r)) ` set occupied)))"
    proof
      fix r assume "r \<in> set occupied"
      then have "nat (fst r + snd r) \<le> Max (insert 0 ((\<lambda>r. nat (fst r + snd r)) ` set occupied))"
        by (intro Max_ge) auto
      then show "fst r + snd r \<le> int (Max (insert 0 ((\<lambda>r. nat (fst r + snd r)) ` set occupied)))" by linarith
    qed
  qed
  have "int m \<le> block_start m" by (simp add: block_start_def SUBID_BASE_def SUBID_RANGE_SIZE_def)
  with m have "\<not> block_taken occupied m"
    by (force simp: block_taken_def list_ex_iff ranges_overlap_def)
  then show ?thesis ..
qed

lemma scan_blocks_finds:
  "\<not> block_taken occupied n \<Longrightarrow> k \<le> n \<Longrightarrow>
     \<exists>f. scan_blocks occupied k = Some f \<and> \<not> block_taken occupied f \<and> k \<le> f \<and>
       (\<forall>j. k \<le> j \<and> j < f \<longrightarrow> block_taken occupied j)"
proof (induction "n - k" arbitrary: k rule: less_induct)
  case less
  show ?case
  proof (cases "block_taken occupied k")
    case False
    then show ?thesis by (subst scan_blocks.simps) auto
  next
    case True
    with less.prems have "k < n" by (metis le_neq_implies_less)
    then have "n - Suc k < n - k" "Suc k \<le> n" by auto
    from less.hyps [OF this(1) less.prems(1) this(2)] obtain f where
      f: "scan_blocks occupied (Suc k) = Some f" "\<not> block_taken occupied f" "Suc k \<le> f"
      "\<forall>j. Suc k \<le> j \<and> j < f \<longrightarrow> block_taken occupied j" by blast
    have "\<forall>j. k \<le> j \<and> j < f \<longrightarrow> block_taken occupied j"
      using f(4) True by (metis le_neq_implies_less Suc_leI)
    with True f show ?thesis by (subst scan_blocks.simps) auto
  qed
qed

lemma scan_blocks_returns:
  "\<exists>f. scan_blocks occupied 0 = Some f \<and> \<not> block_taken occupied f \<and> (\<forall>j < f. block_taken occupied j)"
  using free_block_exists [of occupied] scan_blocks_finds [of occupied _ 0] by force

interpretation block: lowest_free "\<lambda>occ k. \<not> block_taken occ k" "\<lambda>_ _. True" "\<lambda>occ. scan_blocks occ 0"
  by unfold_locales (use scan_blocks_returns in \<open>metis option.inject option.distinct(1)\<close>)+

lemma pick_free_subid_block_Some:
  "\<exists>k. pick_free_subid_block occupied = Some (block_start k, SUBID_RANGE_SIZE) \<and> \<not> block_taken occupied k \<and>
     (\<forall>j < k. block_taken occupied j)"
  using scan_blocks_returns [of occupied] by (auto simp: pick_free_subid_block_def)

section \<open>Lemmas: isolation\<close>

definition subid_isolated :: "host_env \<Rightarrow> bool" where
  "subid_isolated env =
     (\<forall>e \<in> set (read_all_subid_ranges_by_user env). \<forall>f \<in> set (read_all_subid_ranges_by_user env).
        fst e \<noteq> fst f \<longrightarrow> \<not> ranges_overlap (fst (snd e)) (snd (snd e)) (fst (snd f)) (snd (snd f)))"

lemma ranges_overlap_sym: "ranges_overlap a n b m \<longleftrightarrow> ranges_overlap b m a n"
  by (auto simp: ranges_overlap_def)

lemma parse_subid_user_entries:
  "set (parse_subid_file file user) = snd ` {e \<in> set (all_users_ranges_by_user file). fst e = user}"
  by (auto simp: parse_subid_file_def all_users_ranges_by_user_def split: option.splits)

lemma own_ranges_entries:
  "fst ` set (own_ranges env user) = snd ` {e \<in> set (read_all_subid_ranges_by_user env). fst e = user}"
proof -
  have "fst ` set (own_ranges env user) = set (parse_subuid_for_user env user) \<union> set (parse_subgid_for_user env user)"
    by (simp add: own_ranges_def image_Un image_image)
  also have "\<dots> = snd ` {e \<in> set (read_all_subid_ranges_by_user env). fst e = user}"
    unfolding parse_subuid_for_user_def parse_subgid_for_user_def parse_subid_user_entries
      read_all_subid_ranges_by_user_def by auto
  finally show ?thesis .
qed

lemma cross_user_overlap_None:
  "cross_user_overlap env user = None \<longleftrightarrow>
     (\<forall>e \<in> set (read_all_subid_ranges_by_user env). \<forall>f \<in> set (read_all_subid_ranges_by_user env).
        fst e = user \<and> fst f \<noteq> user \<longrightarrow> \<not> ranges_overlap (fst (snd e)) (snd (snd e)) (fst (snd f)) (snd (snd f)))"
proof -
  have "cross_user_overlap env user = None \<longleftrightarrow>
    (\<forall>r \<in> fst ` set (own_ranges env user). \<forall>f \<in> set (foreign_ranges env user).
       \<not> ranges_overlap (fst r) (snd r) (fst f) (snd f))"
    by (force simp: cross_user_overlap_def find_None_all)
  moreover have "(\<forall>r \<in> snd ` {e \<in> A. P e}. \<forall>f \<in> snd ` {e \<in> A. Q e}. \<not> ranges_overlap (fst r) (snd r) (fst f) (snd f)) \<longleftrightarrow>
    (\<forall>e \<in> A. \<forall>f \<in> A. P e \<and> Q f \<longrightarrow>
       \<not> ranges_overlap (fst (snd e)) (snd (snd e)) (fst (snd f)) (snd (snd f)))"
    for A :: "(string \<times> int \<times> int) set" and P Q by blast
  ultimately show ?thesis by (simp only: own_ranges_entries foreign_ranges_def set_map set_filter)
qed

lemma subid_isolated_iff: "subid_isolated env \<longleftrightarrow> (\<forall>user. cross_user_overlap env user = None)"
  unfolding cross_user_overlap_None subid_isolated_def by metis

section \<open>Properties\<close>

lemma picked_block:
  "\<exists>k. pick_free_subid_block (read_all_subid_ranges env) = Some (block_start k, SUBID_RANGE_SIZE) \<and>
     (\<forall>e \<in> set (read_all_subid_ranges_by_user env).
        \<not> ranges_overlap (block_start k) SUBID_RANGE_SIZE (fst (snd e)) (snd (snd e))) \<and>
     (\<forall>j < k. \<exists>e \<in> set (read_all_subid_ranges_by_user env).
        ranges_overlap (block_start j) SUBID_RANGE_SIZE (fst (snd e)) (snd (snd e)))"
proof -
  obtain k where "pick_free_subid_block (read_all_subid_ranges env) = Some (block_start k, SUBID_RANGE_SIZE)"
    "\<not> block_taken (read_all_subid_ranges env) k" "\<forall>j < k. block_taken (read_all_subid_ranges env) j"
    using pick_free_subid_block_Some by blast
  then show ?thesis by (force simp: block_taken_def list_ex_iff read_all_subid_ranges_def)
qed



definition subid_env :: "string \<Rightarrow> string \<Rightarrow> host_env" where
  "subid_env u g = \<lparr>getuser = ''ann'', getpwnam = (\<lambda>_. None), getgrnam = (\<lambda>_. None), getgrall_gids = [],
     subuid_file = Some u, subgid_file = Some g\<rparr>"

definition before_env :: host_env where
  "before_env = subid_env (''ann:100000:65536'' @ [newline]) (''ann:100000:65536'' @ [newline])"

definition after_env :: host_env where
  "after_env = subid_env (''ann:100000:65536'' @ [newline] @ ''bob:165536:65536'' @ [newline])
     (''ann:100000:65536'' @ [newline] @ ''bob:165536:65536'' @ [newline])"

lemma sample_lines:
  "parse_subid_line ''ann:100000:65536'' = Some (''ann'', 100000, 65536)"
  "parse_subid_line ''bob:165536:65536'' = Some (''bob'', 165536, 65536)"
  by (simp_all add: parse_subid_line_def py_strip_def py_lstrip_def py_rstrip_def py_int_def digits_value_def
      digit_value_def py_simps)

lemma sample_split:
  "py_splitlines (''ann:100000:65536'' @ [newline]) = [''ann:100000:65536'']"
  "py_splitlines (''ann:100000:65536'' @ [newline] @ ''bob:165536:65536'' @ [newline]) =
     [''ann:100000:65536'', ''bob:165536:65536'']"
  by code_simp+

lemma before_entries: "read_all_subid_ranges_by_user before_env = [(''ann'', 100000, 65536), (''ann'', 100000, 65536)]"
  unfolding read_all_subid_ranges_by_user_def before_env_def subid_env_def all_users_ranges_by_user_def
  by (simp only: host_env.simps option.case sample_split) (simp add: map_filter_def sample_lines)

lemma after_entries:
  "read_all_subid_ranges_by_user after_env =
     [(''ann'', 100000, 65536), (''bob'', 165536, 65536), (''ann'', 100000, 65536), (''bob'', 165536, 65536)]"
  unfolding read_all_subid_ranges_by_user_def after_env_def subid_env_def all_users_ranges_by_user_def
  by (simp only: host_env.simps option.case sample_split) (simp add: map_filter_def sample_lines)

lemma before_pick: "pick_free_subid_block (read_all_subid_ranges before_env) = Some (165536, 65536)"
  unfolding read_all_subid_ranges_def before_entries
  by (simp add: pick_free_subid_block_def scan_blocks.simps block_taken_def block_start_def ranges_overlap_def
      SUBID_BASE_def SUBID_RANGE_SIZE_def)




end
