(* ===== verification/Host_Phases.thy ===== *)
theory Host_Phases
  imports Subid
begin

text \<open>
  The setup phases that prepare the host itself: the kernel drop-in (\<open>l1_kernel.py\<close>), the accounts, groups and
  subordinate ids (\<open>l2_host_prereqs.py\<close>) and the systemd delegation drop-in (\<open>l2a_delegate.py\<close>), each
  with its probe, act and reverify on the host state.
\<close>

section \<open>Account and group queries\<close>

definition user_exists :: "string \<Rightarrow> host_world \<Rightarrow> bool" where
  "user_exists name w = (getpwnam (w_env w) name \<noteq> None)"

definition group_exists :: "string \<Rightarrow> host_world \<Rightarrow> bool" where
  "group_exists name w = (getgrnam (w_env w) name \<noteq> None)"

definition gid_in_subgid_range :: "int \<Rightarrow> (int \<times> int) list \<Rightarrow> bool" where
  "gid_in_subgid_range gid ranges = list_ex (\<lambda>r. fst r \<le> gid \<and> gid < fst r + snd r) ranges"

definition operator_in_group :: "string \<Rightarrow> string \<Rightarrow> host_world \<Rightarrow> bool" where
  "operator_in_group operator grp w =
     (case getgrnam (w_env w) grp of
        None \<Rightarrow> False
      | Some gid \<Rightarrow>
          if operator \<in> set (w_gr_mem w grp) then True
          else (case getpwnam (w_env w) operator of None \<Rightarrow> False | Some pw \<Rightarrow> gid = pw_gid pw))"

definition ADMIN_GROUPS :: "string list" where
  "ADMIN_GROUPS = [''sudo'', ''wheel'', ''admin'']"

definition user_admin_groups :: "string \<Rightarrow> host_world \<Rightarrow> string list" where
  "user_admin_groups user w =
     (let primary_gid = map_option pw_gid (getpwnam (w_env w) user) in
      filter (\<lambda>grp. case getgrnam (w_env w) grp of
           None \<Rightarrow> False
         | Some gid \<Rightarrow> user \<in> set (w_gr_mem w grp) \<or> Some gid = primary_gid)
        ADMIN_GROUPS)"

record sudoers_grant =
  granted :: bool
  nopasswd :: bool
  determinable :: bool

text \<open>\<open>str.casefold\<close> on the modelled range is \<open>lower\<close>, except for the sharp s, which no marker contains.\<close>

definition classify_sudo_listing :: "int \<Rightarrow> string \<Rightarrow> sudoers_grant" where
  "classify_sudo_listing rc combined =
     (let np = py_contains ''nopasswd'' combined in
      if py_contains ''not allowed to run sudo'' combined then
        \<lparr>granted = False, nopasswd = False, determinable = True\<rparr>
      else if py_contains ''may run the following commands'' combined \<or>
        py_contains ''may run the following command'' combined then
        \<lparr>granted = True, nopasswd = np, determinable = True\<rparr>
      else if py_contains ''may not list'' combined then
        \<lparr>granted = False, nopasswd = False, determinable = False\<rparr>
      else if rc \<noteq> 0 then \<lparr>granted = True, nopasswd = False, determinable = True\<rparr>
      else \<lparr>granted = False, nopasswd = False, determinable = False\<rparr>)"

definition user_sudoers_grant :: "os_iface \<Rightarrow> string \<Rightarrow> bool \<Rightarrow> sudoers_grant host_effect" where
  "user_sudoers_grant os user self_query =
     ecatch
       (ebind (os_run os ([''sudo'', ''-n'', ''-l''] @ (if self_query then [] else [''-U'', user]))) (\<lambda>p.
          eret (classify_sudo_listing (p_rc p) (py_lower (p_out p @ [newline] @ p_err p)))))
       (\<lambda>_. eret \<lparr>granted = False, nopasswd = False, determinable = False\<rparr>)"

section \<open>L1: the kernel drop-in\<close>

definition MANAGED_HEADER :: string where
  "MANAGED_HEADER =
     ''# sandbox-ai managed '' @ em_dash @ '' do not edit; rerun '' @ [CHR 0x27] @ ''sudo sandbox setup'' @ [CHR 0x27]"

definition SYSCTL_DROPIN :: string where
  "SYSCTL_DROPIN = ''/etc/sysctl.d/49-sandbox-ai.conf''"

definition MAX_USER_NS :: nat where
  "MAX_USER_NS = 15000"

definition is_debian_family :: "bool host_effect" where
  "is_debian_family = ebind detect_distro (\<lambda>d. eret (d = Some ''debian''))"

definition sysctl_body :: "bool \<Rightarrow> string" where
  "sysctl_body debian =
     py_join [newline]
       ([MANAGED_HEADER, ''user.max_user_namespaces='' @ nat_str MAX_USER_NS] @
        (if debian then [''kernel.unprivileged_userns_clone=1''] else [])) @ [newline]"

definition render_sysctl_dropin :: "string host_effect" where
  "render_sysctl_dropin = ebind is_debian_family (\<lambda>debian. eret (sysctl_body debian))"

definition acl_fs_supported :: "os_iface \<Rightarrow> bool host_effect" where
  "acl_fs_supported os = run_query os [''getfacl'', ''-p'', ''/''] (\<lambda>p. p_rc p = 0)"

definition cgroup_v2_active :: "bool host_effect" where
  "cgroup_v2_active = eget (\<lambda>w. w_files w ''/sys/fs/cgroup/cgroup.controllers'' \<noteq> FAbsent)"

definition compare_file :: "string \<Rightarrow> string \<Rightarrow> string \<Rightarrow> (phase_result \<times> string) host_effect" where
  "compare_file path expected ok_detail = ebind (read_file path) (\<lambda>observed.
     eret (case observed of
        None \<Rightarrow> (MISSING, path @ '' absent'')
      | Some body \<Rightarrow>
          if body \<noteq> expected then (DRIFT, path @ '' content differs from source'')
          else (ALREADY_CORRECT, ok_detail)))"

definition l1_probe :: "os_iface \<Rightarrow> setup_context \<Rightarrow> (phase_result \<times> string) host_effect" where
  "l1_probe os ctx = ebind (acl_fs_supported os) (\<lambda>acl.
     if \<not> acl then eret (CONFLICT,
       ''verify-only failure: the root filesystem does not support POSIX ACLs (setfacl/getfacl). setup cannot fix this.'')
     else ebind cgroup_v2_active (\<lambda>cg.
       if \<not> cg then eret (CONFLICT,
         ''verify-only failure: the cgroup v2 unified hierarchy is not active (/sys/fs/cgroup/cgroup.controllers absent). setup cannot fix this.'')
       else ebind render_sysctl_dropin (\<lambda>expected.
         compare_file SYSCTL_DROPIN expected ''sysctl drop-in matches source'')))"

definition l1_act :: "os_iface \<Rightarrow> setup_context \<Rightarrow> string host_effect" where
  "l1_act os ctx =
     ebind render_sysctl_dropin (\<lambda>body.
     ebind (write_root_file os SYSCTL_DROPIN body 420) (\<lambda>_.
     ebind (run_checked os [''sysctl'', ''-w'', ''user.max_user_namespaces='' @ nat_str MAX_USER_NS]) (\<lambda>_.
     ebind is_debian_family (\<lambda>debian.
     ebind (ewhen debian (run_checked os [''sysctl'', ''-w'', ''kernel.unprivileged_userns_clone=1''])) (\<lambda>_.
     eret (''wrote '' @ SYSCTL_DROPIN @ '' ('' @
       py_join '', '' ([''user.max_user_namespaces='' @ nat_str MAX_USER_NS] @
         (if debian then [''kernel.unprivileged_userns_clone=1''] else [])) @ '')''))))))"

definition l1_reverify :: "setup_context \<Rightarrow> bool host_effect" where
  "l1_reverify ctx = ebind (read_file SYSCTL_DROPIN) (\<lambda>observed.
     ebind render_sysctl_dropin (\<lambda>expected. eret (observed = Some expected)))"

definition l1_phase :: "os_iface \<Rightarrow> host_world phase" where
  "l1_phase os =
     \<lparr>ph_id = ''l1'', ph_name = ''kernel sysctl drop-in'', ph_identity = ROOT,
      ph_probe = l1_probe os, ph_act = l1_act os, ph_reverify = l1_reverify,
      ph_depends_on = [''l0''], ph_rollback = None, ph_applies_in = [SEPARATE_USER]\<rparr>"

section \<open>L2: machined, the sandbox user, subordinate ids and the bridge group\<close>

text \<open>An exception of the resolvers, by its class.\<close>

definition host_error_text :: "host_error \<Rightarrow> string" where
  "host_error_text e = (case e of
       SettingsValueError \<Rightarrow> ''ValueError''
     | NoSubuidRangeError \<Rightarrow> ''NoSubuidRangeError''
     | SubuidOutOfRangeError \<Rightarrow> ''SubuidOutOfRangeError''
     | NoSubgidRangeError \<Rightarrow> ''NoSubgidRangeError''
     | SubgidOutOfRangeError \<Rightarrow> ''SubgidOutOfRangeError''
     | WorkspaceBridgeGroupMissingError \<Rightarrow> ''WorkspaceBridgeGroupMissingError''
     | NoFreeGidInSubgidRangeError \<Rightarrow> ''NoFreeGidInSubgidRangeError'')"

definition from_host :: "(host_env \<Rightarrow> host_error + 'a) \<Rightarrow> 'a host_effect" where
  "from_host f w = (map_sum host_error_text id (f (w_env w)), w)"

definition daemon_owner_of :: "setup_context \<Rightarrow> string host_effect" where
  "daemon_owner_of ctx = from_host (\<lambda>env. resolve_daemon_owner_settings env (ctx_host ctx))"

definition machined_active :: "os_iface \<Rightarrow> bool host_effect" where
  "machined_active os =
     run_query os [''systemctl'', ''is-active'', ''systemd-machined''] (\<lambda>p. py_strip (p_out p) = ''active'')"

text \<open>The part of the probe that looks at the bridge group, once machined is known to be active.\<close>

definition l2_probe_group :: "string \<Rightarrow> string \<Rightarrow> string \<Rightarrow> host_world \<Rightarrow> phase_result \<times> string" where
  "l2_probe_group sandbox_user bridge_group operator w =
     (case getgrnam (w_env w) bridge_group of
        None \<Rightarrow> (MISSING, ''bridge group '' @ py_repr bridge_group @ '' absent'')
      | Some bridge_gid \<Rightarrow>
          if \<not> gid_in_subgid_range bridge_gid (parse_subgid_for_user (w_env w) sandbox_user) then
            (DRIFT, ''bridge group '' @ py_repr bridge_group @ '' exists at gid '' @ int_str bridge_gid @
               '' which is outside '' @ py_repr sandbox_user @
               [CHR 0x27] @ ''s /etc/subgid range; the group must sit inside the subgid range'')
          else if \<not> operator_in_group operator bridge_group w then
            (MISSING, ''operator '' @ py_repr operator @ '' not in group '' @ py_repr bridge_group)
          else (ALREADY_CORRECT,
            ''machined active; user '' @ py_repr sandbox_user @ '', group '' @ py_repr bridge_group @
            '', operator '' @ py_repr operator @ '' membership, subid ranges all present''))"

definition l2_probe :: "os_iface \<Rightarrow> setup_context \<Rightarrow> (phase_result \<times> string) host_effect" where
  "l2_probe os ctx = ebind (daemon_owner_of ctx) (\<lambda>sandbox_user.
     ebind (eget (user_exists sandbox_user)) (\<lambda>exists.
     if \<not> exists then eret (MISSING, ''sandbox user '' @ py_repr sandbox_user @ '' absent'')
     else ebind (eget (\<lambda>w. subid_status (w_env w) sandbox_user)) (\<lambda>(status, detail).
       if status = Inadequate \<or> status = Overlapping then eret (CONFLICT, detail)
       else if status = AbsentRange then
         eret (MISSING, ''subid entries for '' @ py_repr sandbox_user @ '': '' @ detail)
       else ebind (machined_active os) (\<lambda>active.
         if \<not> active then eret (MISSING, ''systemd-machined not active'')
         else eget (l2_probe_group sandbox_user (workspace_bridge_group (ctx_host ctx)) (ctx_operator ctx))))))"

text \<open>The four steps of the act; each returns the action it took, if any.\<close>

definition l2_ensure_machined :: "os_iface \<Rightarrow> string list host_effect" where
  "l2_ensure_machined os = ebind (machined_active os) (\<lambda>active.
     if active then eret []
     else ebind (run_checked os [''systemctl'', ''enable'', ''--now'', ''systemd-machined'']) (\<lambda>_.
       eret [''enabled systemd-machined'']))"

definition l2_ensure_user :: "os_iface \<Rightarrow> string \<Rightarrow> string list host_effect" where
  "l2_ensure_user os sandbox_user = ebind (eget (user_exists sandbox_user)) (\<lambda>exists.
     if exists then eret []
     else ebind (run_checked os
         [''useradd'', ''--system'', ''--shell'', ''/bin/bash'', ''--create-home'', sandbox_user]) (\<lambda>_.
       eret [''created user '' @ sandbox_user]))"

text \<open>Appending to one file, when the account has no range there yet.\<close>

definition l2_append ::
  "os_iface \<Rightarrow> (host_env \<Rightarrow> string \<Rightarrow> (int \<times> int) list) \<Rightarrow> string \<Rightarrow> string \<Rightarrow> string \<Rightarrow> string \<Rightarrow>
   string list host_effect" where
  "l2_append os ranges flag range_arg user done_text = ebind (eget (\<lambda>w. ranges (w_env w) user)) (\<lambda>own.
     if own \<noteq> [] then eret []
     else ebind (run_checked os [''usermod'', flag, range_arg, user]) (\<lambda>_. eret [done_text]))"

definition pick_block :: "(int \<times> int) host_effect" where
  "pick_block w =
     (case pick_free_subid_block (read_all_subid_ranges (w_env w)) of
        None \<Rightarrow> (Inl [], w)
      | Some block \<Rightarrow> (Inr block, w))"

definition l2_ensure_subids :: "os_iface \<Rightarrow> string \<Rightarrow> string list host_effect" where
  "l2_ensure_subids os sandbox_user =
     ebind (eget (\<lambda>w. subid_status (w_env w) sandbox_user)) (\<lambda>(status, detail).
       if status = Inadequate \<or> status = Overlapping then ethrow detail
       else if status = AbsentRange then
         ebind pick_block (\<lambda>block.
         ebind (l2_append os parse_subuid_for_user ''--add-subuids'' (subid_range_arg block) sandbox_user
                  ''appended /etc/subuid entry'') (\<lambda>a.
         ebind (l2_append os parse_subgid_for_user ''--add-subgids'' (subid_range_arg block) sandbox_user
                  ''appended /etc/subgid entry'') (\<lambda>b. eret (a @ b))))
       else eret [])"

definition l2_ensure_group :: "os_iface \<Rightarrow> string \<Rightarrow> string \<Rightarrow> string list host_effect" where
  "l2_ensure_group os sandbox_user bridge_group =
     ebind (eget (\<lambda>w. getgrnam (w_env w) bridge_group)) (\<lambda>entry.
       case entry of
         None \<Rightarrow>
           ebind (from_host (\<lambda>env. autodetect_workspace_bridge_gid_recommendation env sandbox_user 1000)) (\<lambda>gid.
           ebind (run_checked os [''groupadd'', ''-g'', int_str gid, bridge_group]) (\<lambda>_.
             eret [''created group '' @ bridge_group @ '' (gid '' @ int_str gid @ '')'']))
       | Some bridge_gid \<Rightarrow>
           ebind (eget (\<lambda>w. parse_subgid_for_user (w_env w) sandbox_user)) (\<lambda>ranges.
             if \<not> gid_in_subgid_range bridge_gid ranges then
               ethrow (''group '' @ py_repr bridge_group @ '' exists at gid '' @ int_str bridge_gid @ '' outside '' @
                 py_repr sandbox_user @ [CHR 0x27] @ ''s /etc/subgid range; setup will not move an operator-created group. '' @
                 ''Recreate it with a gid inside the subgid range and re-run setup.'')
             else eret []))"

definition l2_ensure_member :: "os_iface \<Rightarrow> string \<Rightarrow> string \<Rightarrow> string list host_effect" where
  "l2_ensure_member os operator bridge_group =
     ebind (eget (operator_in_group operator bridge_group)) (\<lambda>member.
       if member then eret []
       else ebind (run_checked os [''usermod'', ''-aG'', bridge_group, operator]) (\<lambda>_.
         eret [''added '' @ operator @ '' to '' @ bridge_group]))"

definition l2_act :: "os_iface \<Rightarrow> setup_context \<Rightarrow> string host_effect" where
  "l2_act os ctx = ebind (daemon_owner_of ctx) (\<lambda>sandbox_user.
     (let bridge_group = workspace_bridge_group (ctx_host ctx) in
      ebind (l2_ensure_machined os) (\<lambda>a.
      ebind (l2_ensure_user os sandbox_user) (\<lambda>b.
      ebind (l2_ensure_subids os sandbox_user) (\<lambda>c.
      ebind (l2_ensure_group os sandbox_user bridge_group) (\<lambda>d.
      ebind (l2_ensure_member os (ctx_operator ctx) bridge_group) (\<lambda>e.
      eret (let actions = a @ b @ c @ d @ e in
        if actions = [] then ''L2 already converged'' else py_join ''; '' actions))))))))"

definition l2_reverify :: "os_iface \<Rightarrow> setup_context \<Rightarrow> bool host_effect" where
  "l2_reverify os ctx = ebind (daemon_owner_of ctx) (\<lambda>sandbox_user.
     ebind (machined_active os) (\<lambda>active.
       if \<not> active then eret False
       else eget (\<lambda>w. user_exists sandbox_user w \<and> fst (subid_status (w_env w) sandbox_user) = Adequate \<and>
         (case getgrnam (w_env w) (workspace_bridge_group (ctx_host ctx)) of
            None \<Rightarrow> False
          | Some bridge_gid \<Rightarrow>
              gid_in_subgid_range bridge_gid (parse_subgid_for_user (w_env w) sandbox_user) \<and>
              operator_in_group (ctx_operator ctx) (workspace_bridge_group (ctx_host ctx)) w))))"

definition l2_phase :: "os_iface \<Rightarrow> host_world phase" where
  "l2_phase os =
     \<lparr>ph_id = ''l2'', ph_name = ''host prerequisites (machined, user, subid, sb-ws)'', ph_identity = ROOT,
      ph_probe = l2_probe os, ph_act = l2_act os, ph_reverify = l2_reverify os,
      ph_depends_on = [''l1''], ph_rollback = None, ph_applies_in = [SEPARATE_USER]\<rparr>"

section \<open>L2a: the delegation drop-in\<close>

definition delegate_dropin_path_for_uid :: "int \<Rightarrow> string" where
  "delegate_dropin_path_for_uid uid =
     ''/etc/systemd/system/user-'' @ int_str uid @ ''.service.d/sandbox-ai-delegate.conf''"

definition delegate_dropin_path :: "setup_context \<Rightarrow> string host_effect" where
  "delegate_dropin_path ctx w =
     (case resolve_sandbox_pw (w_env w) (ctx_host ctx) of
        Inl msg \<Rightarrow> (Inl (py_repr msg), w)
      | Inr pw \<Rightarrow> (Inr (delegate_dropin_path_for_uid (pw_uid pw)), w))"

definition render_delegate_dropin :: string where
  "render_delegate_dropin =
     MANAGED_HEADER @ [newline] @ ''[Service]'' @ [newline] @ ''Delegate=yes'' @ [newline]"

definition l2a_probe :: "setup_context \<Rightarrow> (phase_result \<times> string) host_effect" where
  "l2a_probe ctx = ebind (eget (\<lambda>w. probe_sandbox_pw_or_missing (w_env w) (ctx_host ctx))) (\<lambda>r.
     case r of
       Inl outcome \<Rightarrow> eret outcome
     | Inr pw \<Rightarrow>
         compare_file (delegate_dropin_path_for_uid (pw_uid pw)) render_delegate_dropin
           ''Delegate drop-in matches source'')"

definition l2a_act :: "os_iface \<Rightarrow> setup_context \<Rightarrow> string host_effect" where
  "l2a_act os ctx = ebind (delegate_dropin_path ctx) (\<lambda>dropin.
     ebind (write_root_file os dropin render_delegate_dropin 420) (\<lambda>_.
     ebind (run_checked os [''systemctl'', ''daemon-reload'']) (\<lambda>_.
     eret (''wrote '' @ dropin @ ''; daemon-reload''))))"

definition l2a_reverify :: "setup_context \<Rightarrow> bool host_effect" where
  "l2a_reverify ctx = ebind (delegate_dropin_path ctx) (\<lambda>dropin.
     ebind (read_file dropin) (\<lambda>observed. eret (observed = Some render_delegate_dropin)))"

definition l2a_phase :: "os_iface \<Rightarrow> host_world phase" where
  "l2a_phase os =
     \<lparr>ph_id = ''l2a'', ph_name = ''systemd Delegate=yes drop-in'', ph_identity = ROOT,
      ph_probe = l2a_probe, ph_act = l2a_act os, ph_reverify = l2a_reverify,
      ph_depends_on = [''l2''], ph_rollback = None, ph_applies_in = [SEPARATE_USER]\<rparr>"

end
