(* ===== verification/Binary_Install.thy ===== *)
theory Binary_Install
  imports Host_Phases
begin

text \<open>
  The pinned binary of \<open>src/src/core/binary_install.py\<close>, its pin in \<open>src/src/core/hydration.py\<close>, and the phase
  \<open>l6a_runsc.py\<close> that installs it. The download and the hash are fields of \<open>os_iface\<close>. A rename may be refused,
  as it is for a sealed target.
\<close>

section \<open>The pin\<close>

datatype fetch_method = GVISOR_TARBALL

record binary_pin =
  url_template :: string
  bp_version :: string
  bp_sha512 :: string
  bp_fetch_method :: fetch_method

definition BINARY_REGISTRY :: "(string, binary_pin) dict" where
  "BINARY_REGISTRY =
     [(''runsc'', \<lparr>url_template = ''https://storage.googleapis.com/gvisor/releases/release/20260511/$(arch)/runsc'',
        bp_version = ''20260511'',
        bp_sha512 = ''e227a71c95e794119f6648a44083df945392c6cd457f36abbc49c2b6e0b87c7f01b94e6bf4632f4cb22ee34fbec7a2c34ca03d30efa9c689db76a6215a6e44e1'',
        bp_fetch_method = GVISOR_TARBALL\<rparr>)]"

definition RESERVED_DIR :: string where
  "RESERVED_DIR = ''/usr/local/libexec/sandbox-ai''"

definition target_path :: "string \<Rightarrow> string" where
  "target_path name = RESERVED_DIR @ ''/'' @ name"

definition staging_path :: "string \<Rightarrow> string" where
  "staging_path name = RESERVED_DIR @ ''/.'' @ name @ ''.staging''"

definition pinned_sha :: "string \<Rightarrow> string" where
  "pinned_sha name = bp_sha512 (the (map_of BINARY_REGISTRY name))"

definition resolved_url :: "os_iface \<Rightarrow> string \<Rightarrow> string" where
  "resolved_url os name =
     py_replace ''$(arch)'' (os_machine os) (url_template (the (map_of BINARY_REGISTRY name)))"

section \<open>Drift\<close>

datatype drift_status = DriftAbsent | DriftMatch | Drifted

record drift_result =
  dr_status :: drift_status
  dr_installed :: "string option"
  dr_pinned :: string

definition classify_sha :: "string option \<Rightarrow> string \<Rightarrow> drift_status" where
  "classify_sha installed pinned =
     (case installed of None \<Rightarrow> DriftAbsent | Some s \<Rightarrow> if s = pinned then DriftMatch else Drifted)"

text \<open>The hash of a file, \<open>None\<close> when there is none.\<close>

definition file_sha512 :: "os_iface \<Rightarrow> string \<Rightarrow> string option host_effect" where
  "file_sha512 os path = ebind (read_file path) (\<lambda>content. eret (map_option (os_sha512 os) content))"

definition detect_drift :: "os_iface \<Rightarrow> string \<Rightarrow> drift_result host_effect" where
  "detect_drift os name = ebind (file_sha512 os (target_path name)) (\<lambda>installed.
     eret \<lparr>dr_status = classify_sha installed (pinned_sha name), dr_installed = installed, dr_pinned = pinned_sha name\<rparr>)"

definition verify_only :: "os_iface \<Rightarrow> string \<Rightarrow> drift_result host_effect" where
  "verify_only os name = detect_drift os name"

section \<open>Installing\<close>

text \<open>Writing, renaming, and the owner and mode of an existing file.\<close>

definition write_bytes :: "os_iface \<Rightarrow> string \<Rightarrow> string \<Rightarrow> unit host_effect" where
  "write_bytes os path body w =
     (case os_write_denied os path w of
        Some exc \<Rightarrow> (Inl exc, w)
      | None \<Rightarrow> (Inr (), put_file path
          (case w_files w path of FText _ m u g \<Rightarrow> FText body m u g | _ \<Rightarrow> FText body 384 0 0) w))"

definition rename_file :: "os_iface \<Rightarrow> string \<Rightarrow> string \<Rightarrow> unit host_effect" where
  "rename_file os src dst w =
     (case os_write_denied os dst w of
        Some exc \<Rightarrow> (Inl exc, w)
      | None \<Rightarrow>
          if w_files w src = FAbsent then (Inl ''No such file or directory'', w)
          else (Inr (), put_file src FAbsent (put_file dst (w_files w src) w)))"

definition chmod_chown_root :: "string \<Rightarrow> nat \<Rightarrow> unit host_effect" where
  "chmod_chown_root path mode w =
     (case w_files w path of
        FText body _ _ _ \<Rightarrow> (Inr (), put_file path (FText body mode 0 0) w)
      | _ \<Rightarrow> (Inl ''No such file or directory'', w))"

definition download_tmp :: "os_iface \<Rightarrow> string \<Rightarrow> string" where
  "download_tmp os name = RESERVED_DIR @ ''/.'' @ name @ ''.dl.'' @ os_token os"

definition sha_mismatch_text :: "string \<Rightarrow> string \<Rightarrow> string" where
  "sha_mismatch_text name actual =
     ''[FATAL] Sandbox Execution Fault: pinned binary '' @ [CHR 0x27] @ name @ [CHR 0x27] @ '' sha512 mismatch (expected '' @
     pinned_sha name @ '', got '' @ actual @ ''); refusing to install.''"

definition download_and_verify :: "os_iface \<Rightarrow> string \<Rightarrow> string \<Rightarrow> unit host_effect" where
  "download_and_verify os name dest =
     ebind (elift (os_download os (resolved_url os name))) (\<lambda>data.
     ebind (write_bytes os dest data) (\<lambda>_.
     ebind (file_sha512 os dest) (\<lambda>actual.
       if actual \<noteq> Some (pinned_sha name) then ethrow (sha_mismatch_text name (case actual of None \<Rightarrow> [] | Some a \<Rightarrow> a))
       else eret ())))"

definition chattr :: "os_iface \<Rightarrow> string \<Rightarrow> string \<Rightarrow> unit host_effect" where
  "chattr os flag path = run_checked os [''chattr'', flag, path]"

definition path_present :: "string \<Rightarrow> host_world \<Rightarrow> bool" where
  "path_present path w = (w_files w path \<noteq> FAbsent)"

text \<open>The two protected halves: fetch through a fresh temporary file (\<open>mkstemp\<close>, mode 0600) into the staging file,
  then seal it into place.\<close>

definition fetch_staged :: "os_iface \<Rightarrow> string \<Rightarrow> unit host_effect" where
  "fetch_staged os name =
     (let tmp = download_tmp os name in
      ebind (write_root_file os tmp [] 384) (\<lambda>_.
      efinally (ebind (download_and_verify os name tmp) (\<lambda>_. rename_file os tmp (staging_path name)))
        (unlink_missing_ok os tmp)))"

definition seal_staged :: "os_iface \<Rightarrow> string \<Rightarrow> bool \<Rightarrow> unit host_effect" where
  "seal_staged os name force =
     (let target = target_path name; staging = staging_path name in
      efinally
        (ebind (chmod_chown_root staging 493) (\<lambda>_.
         ebind (eget (path_present target)) (\<lambda>present.
         ebind (ewhen (force \<and> present) (chattr os ''-i'' target)) (\<lambda>_.
         ebind (rename_file os staging target) (\<lambda>_. chattr os ''+i'' target)))))
        (unlink_missing_ok os staging))"

definition install_pinned :: "os_iface \<Rightarrow> string \<Rightarrow> bool \<Rightarrow> unit host_effect" where
  "install_pinned os name force = ebind (fetch_staged os name) (\<lambda>_. seal_staged os name force)"

section \<open>The L6a phase\<close>

text \<open>The force toggle is process state in the code; here it is an argument.\<close>

definition sha_prefix :: "string \<Rightarrow> string" where
  "sha_prefix s = take 16 s"

definition ellipsis :: string where
  "ellipsis = [CHR 0xE2, CHR 0x80, CHR 0xA6]"

definition l6a_probe :: "os_iface \<Rightarrow> bool \<Rightarrow> setup_context \<Rightarrow> (phase_result \<times> string) host_effect" where
  "l6a_probe os force ctx = ebind (detect_drift os ''runsc'') (\<lambda>drift. eret
     (case dr_status drift of
        DriftAbsent \<Rightarrow> (MISSING, ''runsc absent at /usr/local/libexec/sandbox-ai/runsc; will install'')
      | DriftMatch \<Rightarrow> (ALREADY_CORRECT, ''runsc present and matches the pinned sha512'')
      | Drifted \<Rightarrow>
          (DRIFT, ''runsc version drift: installed sha '' @
             sha_prefix (case dr_installed drift of None \<Rightarrow> ''?'' | Some s \<Rightarrow> if s = [] then ''?'' else s) @ ellipsis @
             '', pinned sha '' @ sha_prefix (dr_pinned drift) @ ellipsis @
             ''. To update: sudo sandbox setup --update-runsc'' @
             (if force then '' (--update-runsc: will overwrite)'' else []))))"

definition l6a_act :: "os_iface \<Rightarrow> bool \<Rightarrow> setup_context \<Rightarrow> string host_effect" where
  "l6a_act os force ctx = ebind (detect_drift os ''runsc'') (\<lambda>drift.
     if dr_status drift = Drifted \<and> \<not> force then
       eret (''runsc drift left in place (installed sha '' @ (case dr_installed drift of None \<Rightarrow> ''None'' | Some s \<Rightarrow> s) @
         '', pinned sha '' @ dr_pinned drift @ ''); run --update-runsc to overwrite'')
     else ebind (install_pinned os ''runsc'' force) (\<lambda>_.
       eret ''runsc installed at /usr/local/libexec/sandbox-ai/runsc''))"

definition l6a_reverify :: "os_iface \<Rightarrow> setup_context \<Rightarrow> bool host_effect" where
  "l6a_reverify os ctx = ebind (detect_drift os ''runsc'') (\<lambda>drift. eret (dr_status drift = DriftMatch))"

definition l6a_phase :: "os_iface \<Rightarrow> bool \<Rightarrow> host_world phase" where
  "l6a_phase os force =
     \<lparr>ph_id = ''l6a'', ph_name = ''runsc install (gVisor pinned binary)'', ph_identity = ROOT,
      ph_probe = l6a_probe os force, ph_act = l6a_act os force, ph_reverify = l6a_reverify os,
      ph_depends_on = [''l6''], ph_rollback = None, ph_applies_in = [SEPARATE_USER]\<rparr>"

section \<open>Lemmas\<close>

text \<open>The content of a file passes the pin.\<close>

definition verified :: "os_iface \<Rightarrow> string \<Rightarrow> file_state \<Rightarrow> bool" where
  "verified os name f = (case f of FText body _ _ _ \<Rightarrow> os_sha512 os body = pinned_sha name | _ \<Rightarrow> False)"

lemma paths_distinct:
  assumes "name \<noteq> []" and "hd name \<noteq> CHR ''.''"
  shows "target_path name \<noteq> staging_path name" and "download_tmp os name \<noteq> staging_path name"
    and "target_path name \<noteq> download_tmp os name"
  using assms by (cases name; simp add: target_path_def staging_path_def download_tmp_def)+

lemma file_sha512_Inr:
  "file_sha512 os path w = (Inr (Some h), w') \<longleftrightarrow>
     w' = w \<and> (\<exists>body m u g. w_files w path = FText body m u g \<and> h = os_sha512 os body)"
  by (auto simp: file_sha512_def ebind_Inr_iff read_file_def split: file_state.splits)

lemma file_sha512_reads [simp]: "reads (file_sha512 os path) w"
  unfolding file_sha512_def by (intro reads_ebind) auto

lemma put_other: "p \<noteq> path \<Longrightarrow> w_files (put_file path f w) p = w_files w p"
  by simp

lemma triple_write_bytes:
  assumes "\<And>w f. P w \<Longrightarrow> P (put_file path f w)"
  shows "triple P (write_bytes os path body) (\<lambda>_. P) P"
  using assms by (auto simp: triple_def write_bytes_def split: option.splits)

lemma triple_unlink:
  assumes "\<And>w f. P w \<Longrightarrow> P (put_file path f w)"
  shows "triple P (unlink_missing_ok os path) (\<lambda>_. P) P"
  using assms by (auto simp: triple_def unlink_missing_ok_def split: option.splits)

text \<open>What a file held before and after.\<close>

definition holds :: "string \<Rightarrow> file_state \<Rightarrow> host_world \<Rightarrow> bool" where
  "holds path f w = (w_files w path = f)"

definition staged_ok :: "os_iface \<Rightarrow> string \<Rightarrow> host_world \<Rightarrow> bool" where
  "staged_ok os name w = verified os name (w_files w (staging_path name))"

definition target_ok :: "os_iface \<Rightarrow> string \<Rightarrow> host_world \<Rightarrow> bool" where
  "target_ok os name w = verified os name (w_files w (target_path name))"

lemma triple_download:
  assumes "path \<noteq> dest"
  shows "triple (holds path f) (download_and_verify os name dest)
    (\<lambda>_ w. holds path f w \<and> verified os name (w_files w dest)) (holds path f)"
  unfolding download_and_verify_def
proof (intro triple_ebind)
  show "triple (holds path f) (elift (os_download os (resolved_url os name))) (\<lambda>_. holds path f) (holds path f)"
    by (rule triple_elift) auto
  show "triple (holds path f) (write_bytes os dest data) (\<lambda>_. holds path f) (holds path f)" for data
    using assms by (intro triple_write_bytes) (simp add: holds_def)
  show "triple (holds path f) (file_sha512 os dest)
      (\<lambda>actual w. holds path f w \<and> (actual = Some (pinned_sha name) \<longrightarrow> verified os name (w_files w dest))) (holds path f)"
  proof (rule tripleI)
    fix w assume "holds path f w"
    then show "case file_sha512 os dest w of
        (Inr a, w') \<Rightarrow> holds path f w' \<and> (a = Some (pinned_sha name) \<longrightarrow> verified os name (w_files w' dest))
      | (Inl exc, w') \<Rightarrow> holds path f w'"
      by (auto simp: file_sha512_def ebind_def read_file_def verified_def split: file_state.splits)
  qed
  show "triple (\<lambda>w. holds path f w \<and> (actual = Some (pinned_sha name) \<longrightarrow> verified os name (w_files w dest)))
     (if actual \<noteq> Some (pinned_sha name) then ethrow exc else eret ())
     (\<lambda>_ w. holds path f w \<and> verified os name (w_files w dest)) (holds path f)" for actual exc
    by (simp add: triple_def)
qed

lemma triple_fetch_staged:
  assumes "name \<noteq> []" and "hd name \<noteq> CHR ''.''"
  shows "triple (holds (target_path name) f) (fetch_staged os name)
    (\<lambda>_ w. holds (target_path name) f w \<and> staged_ok os name w) (holds (target_path name) f)"
proof -
  let ?t = "target_path name" and ?s = "staging_path name" and ?d = "download_tmp os name"
  note d = paths_distinct(1) [OF assms] paths_distinct(3) [OF assms, of os] paths_distinct(2) [OF assms, of os]
  have rename: "triple (\<lambda>w. holds ?t f w \<and> verified os name (w_files w ?d)) (rename_file os ?d ?s)
      (\<lambda>_ w. holds ?t f w \<and> staged_ok os name w) (holds ?t f)"
    using d by (auto simp: triple_def holds_def staged_ok_def rename_file_def split: option.splits)
  have unlink: "triple (\<lambda>w. holds ?t f w \<and> staged_ok os name w) (unlink_missing_ok os ?d)
      (\<lambda>_ w. holds ?t f w \<and> staged_ok os name w) (\<lambda>w. holds ?t f w \<and> staged_ok os name w)"
    using d by (intro triple_unlink) (auto simp: holds_def staged_ok_def)
  have create: "triple (holds ?t f) (write_root_file os ?d [] 384) (\<lambda>_. holds ?t f) (holds ?t f)"
    using d by (auto simp: triple_def holds_def write_root_file_def split: option.splits)
  have unlink': "triple (holds ?t f) (unlink_missing_ok os ?d) (\<lambda>_. holds ?t f) (holds ?t f)"
    using d by (intro triple_unlink) (auto simp: holds_def)
  show ?thesis
    unfolding fetch_staged_def Let_def
  proof (rule triple_ebind [OF create], rule triple_efinally [OF triple_ebind [OF triple_download [OF d(2)] rename]])
    show "triple (\<lambda>w. holds ?t f w \<and> staged_ok os name w) (unlink_missing_ok os ?d)
        (\<lambda>_ w. holds ?t f w \<and> staged_ok os name w) (holds ?t f)"
      by (rule triple_conseq [OF unlink]) auto
  qed (rule unlink')
qed

lemma triple_seal_staged:
  assumes name: "name \<noteq> []" "hd name \<noteq> CHR ''.''"
    and tool: "\<And>flag. spares os [''chattr'', flag, target_path name] (target_path name)"
      "\<And>flag. spares os [''chattr'', flag, target_path name] (staging_path name)"
  shows "triple (\<lambda>w. holds (target_path name) f w \<and> staged_ok os name w) (seal_staged os name force)
    (\<lambda>_. target_ok os name) (\<lambda>w. holds (target_path name) f w \<or> target_ok os name w)"
proof -
  let ?t = "target_path name" and ?s = "staging_path name"
  let ?A = "\<lambda>w. holds ?t f w \<and> staged_ok os name w" and ?E = "\<lambda>w. holds ?t f w \<or> target_ok os name w"
  note d = paths_distinct(1) [OF name]
  have chmod: "triple ?A (chmod_chown_root ?s 493) (\<lambda>_. ?A) ?E"
    using d by (auto simp: triple_def holds_def staged_ok_def chmod_chown_root_def verified_def split: file_state.splits)
  have probe: "triple ?A (eget (path_present ?t)) (\<lambda>_. ?A) ?E" by (rule triple_eget) auto
  have keep: "w_files (snd (chattr os flag ?t w)) p = w_files w p" if "p = ?t \<or> p = ?s" for flag w p
    using that run_checked_spares [OF tool(1), of "w_files w p" flag] run_checked_spares [OF tool(2), of "w_files w p" flag]
    unfolding chattr_def keeps_def by blast
  have unseal: "triple ?A (ewhen b (chattr os ''-i'' ?t)) (\<lambda>_. ?A) ?E" for b
  proof (rule triple_ewhen)
    show "triple ?A (chattr os ''-i'' ?t) (\<lambda>_. ?A) ?E"
      using keep [of ?t "''-i''"] keep [of ?s "''-i''"]
      by (intro triple_conseq [OF triple_keeps [of ?A]]) (auto simp: keeps_def holds_def staged_ok_def)
  qed
  have move: "triple ?A (rename_file os ?s ?t) (\<lambda>_. target_ok os name) ?E"
    using d by (auto simp: triple_def holds_def staged_ok_def target_ok_def rename_file_def verified_def split: option.splits)
  have seal: "triple (target_ok os name) (chattr os ''+i'' ?t) (\<lambda>_. target_ok os name) ?E"
    using keep [of ?t "''+i''"]
    by (intro triple_conseq [OF triple_keeps [of "target_ok os name"]]) (auto simp: keeps_def target_ok_def)
  have unlink: "triple P (unlink_missing_ok os ?s) (\<lambda>_. P) P" if "P = target_ok os name \<or> P = ?E" for P
    using that d by (intro triple_unlink) (auto simp: holds_def target_ok_def)
  show ?thesis
    unfolding seal_staged_def Let_def
    by (rule triple_efinally
        [OF triple_ebind [OF chmod triple_ebind [OF probe triple_ebind [OF unseal triple_ebind [OF move seal]]]]])
      (auto intro: triple_conseq [OF unlink [of "target_ok os name"]] unlink [of ?E])
qed

section \<open>Properties\<close>

definition silent_os :: os_iface where
  "silent_os = \<lparr>os_run = (\<lambda>_ w. (Inr \<lparr>p_rc = 0, p_out = [], p_err = []\<rparr>, w)),
     os_spawn = (\<lambda>_ _ _ w. (OsError, w)),
     os_path = None, os_token = ''tok'', os_fault_text = (\<lambda>_. []), os_call_error = (\<lambda>_ _. ''failed''),
     os_write_denied = (\<lambda>_ _. None), os_hostname = ''host'', os_machine = ''x86_64'',
     os_download = (\<lambda>_. Inr ''elf''), os_sha512 = (\<lambda>_. bp_sha512 (the (map_of BINARY_REGISTRY ''runsc''))),
     os_json_loads = (\<lambda>_. Inl ''bad''), os_json_dumps = (\<lambda>_. []), os_now = ''2026''\<rparr>"

lemma registry_names:
  assumes "map_of BINARY_REGISTRY name = Some pin"
  shows "name \<noteq> []" and "hd name \<noteq> CHR ''.''" and "pinned_sha name = bp_sha512 pin"
  using assms by (auto simp: BINARY_REGISTRY_def pinned_sha_def split: if_splits)

definition empty_host :: host_world where
  "empty_host = \<lparr>w_env = sample_env, w_gr_mem = (\<lambda>_. []), w_files = (\<lambda>_. FAbsent), w_exec = (\<lambda>_. False),
     w_stat = (\<lambda>_. None)\<rparr>"

text \<open>Claim C17: nothing but the pinned binary is ever put in place. Whatever the network delivers and whichever
  step fails, the installed file is afterwards the one that was there before or one whose hash is the pinned
  one, and after a run without exception it is the latter. The tool that seals files is assumed to leave their
  contents alone.\<close>

theorem install_pinned_verified:
  assumes pin: "map_of BINARY_REGISTRY name = Some pin"
    and sealing: "\<And>flag. spares os [''chattr'', flag, target_path name] (target_path name)"
      "\<And>flag. spares os [''chattr'', flag, target_path name] (staging_path name)"
  shows "(w_files (snd (install_pinned os name force w)) (target_path name) = w_files w (target_path name) \<or>
      verified os name (w_files (snd (install_pinned os name force w)) (target_path name))) \<and>
    (fst (install_pinned os name force w) = Inr () \<longrightarrow>
      verified os name (w_files (snd (install_pinned os name force w)) (target_path name)))"
proof -
  let ?f = "w_files w (target_path name)"
  note n = registry_names(1,2) [OF pin]
  have t: "triple (holds (target_path name) ?f) (install_pinned os name force) (\<lambda>_. target_ok os name)
      (\<lambda>w. holds (target_path name) ?f w \<or> target_ok os name w)"
    unfolding install_pinned_def
    by (rule triple_ebind [OF triple_conseq [OF triple_fetch_staged [OF n]] triple_seal_staged [OF n sealing]]) auto
  have h: "holds (target_path name) ?f w" by (simp add: holds_def)
  obtain r w' where r: "install_pinned os name force w = (r, w')" by (cases "install_pinned os name force w")
  show ?thesis
  proof (cases r)
    case (Inl exc)
    then show ?thesis using triple_Inl [OF t h] r by (simp add: holds_def target_ok_def)
  next
    case (Inr u)
    then show ?thesis using triple_Inr [OF t h] r by (simp add: target_ok_def)
  qed
qed

lemma install_pinned_verified_witness:
  "fst (install_pinned silent_os ''runsc'' False empty_host) = Inr () \<and>
   verified silent_os ''runsc'' (w_files (snd (install_pinned silent_os ''runsc'' False empty_host)) (target_path ''runsc''))"
proof -
  obtain pin where pin: "map_of BINARY_REGISTRY ''runsc'' = Some pin" by (simp add: BINARY_REGISTRY_def)
  have sp: "spares silent_os argv path" for argv path by (simp add: spares_def silent_os_def)
  have r: "fst (install_pinned silent_os ''runsc'' False empty_host) = Inr ()"
    by code_simp
  then show ?thesis
    using install_pinned_verified [OF pin sp sp, of False empty_host] by blast
qed

end
