(* ===== verification/Py_Path.thy ===== *)
theory Py_Path
  imports Py_Strings
begin

text \<open>
  The part of \<open>os.path\<close> and \<open>pathlib\<close> the sources use, on POSIX: \<open>dirname\<close>, \<open>normpath\<close>, \<open>abspath\<close>, and a \<open>Path\<close> as
  the list of its parts below the root. The climb from a path to the root is the loop the sources share.
\<close>

section \<open>Paths as text\<close>

text \<open>\<open>os.path.dirname\<close>\<close>

definition dirname :: "string \<Rightarrow> string" where
  "dirname p =
     (let h = rev (dropWhile (\<lambda>c. c \<noteq> CHR ''/'') (rev p));
          t = rev (dropWhile (\<lambda>c. c = CHR ''/'') (rev h))
      in if t = [] then h else t)"

fun norm_comps :: "bool \<Rightarrow> string list \<Rightarrow> string list \<Rightarrow> string list" where
  "norm_comps rooted acc [] = rev acc"
| "norm_comps rooted acc (c # cs) =
     (if c = [] \<or> c = ''.'' then norm_comps rooted acc cs
      else if c \<noteq> ''..'' \<or> (\<not> rooted \<and> acc = []) \<or> (acc \<noteq> [] \<and> hd acc = ''..'') then norm_comps rooted (c # acc) cs
      else norm_comps rooted (tl acc) cs)"

text \<open>Exactly two leading slashes are kept, any other number is one.\<close>

definition normpath :: "string \<Rightarrow> string" where
  "normpath p =
     (let root = (if prefix ''//'' p \<and> \<not> prefix ''///'' p then ''//'' else if prefix ''/'' p then ''/'' else []);
          q = root @ py_join ''/'' (norm_comps (root \<noteq> []) [] (py_split CHR ''/'' p))
      in if q = [] then ''.'' else q)"

definition abspath :: "string \<Rightarrow> string \<Rightarrow> string" where
  "abspath cwd p = normpath (path_join cwd p)"

section \<open>Paths as parts\<close>

definition path_parts :: "string \<Rightarrow> string list" where
  "path_parts s = filter (\<lambda>c. c \<noteq> [] \<and> c \<noteq> ''.'') (py_split CHR ''/'' s)"

definition parts_str :: "string list \<Rightarrow> string" where
  "parts_str parts = CHR ''/'' # py_join ''/'' parts"

section \<open>The climb\<close>

text \<open>From a directory upwards, collecting until the root or a directory where it has to stop; the result is top-down.
  Above a path with two leading slashes there is no end.\<close>

partial_function (option) climb :: "(string \<Rightarrow> bool) \<Rightarrow> string \<Rightarrow> string list \<Rightarrow> string list option" where
  "climb halt d acc = (if d = ''/'' then Some acc else if halt d then Some acc else climb halt (dirname d) (d # acc))"

declare climb.simps [code]

section \<open>Lemmas\<close>

lemma path_parts_Nil [simp]: "path_parts [] = []"
  by (simp add: path_parts_def)

lemma path_parts_slash: "path_parts (a @ CHR ''/'' # b) = path_parts a @ path_parts b"
  by (simp add: path_parts_def py_split_append_sep)

lemma path_parts_join:
  assumes "\<not> prefix ''/'' b"
  shows "path_parts (path_join a b) = path_parts a @ path_parts b"
proof (cases "a = []")
  case False
  show ?thesis
  proof (cases "last a = CHR ''/''")
    case True
    with False obtain a' where a: "a = a' @ [CHR ''/'']" by (metis append_butlast_last_id)
    with assms show ?thesis
      using path_parts_slash [of a' b] path_parts_slash [of a' "[]"] by (simp add: path_join_def)
  next
    case False': False
    with assms False show ?thesis by (simp add: path_join_def path_parts_slash)
  qed
qed (use assms in \<open>simp add: path_join_def\<close>)

lemma path_parts_single: "CHR ''/'' \<notin> set s \<Longrightarrow> s \<noteq> [] \<Longrightarrow> s \<noteq> ''.'' \<Longrightarrow> path_parts s = [s]"
  by (simp add: path_parts_def py_split_free)

definition clean_parts :: "string list \<Rightarrow> bool" where
  "clean_parts ps = list_all (\<lambda>p. p \<noteq> [] \<and> CHR ''/'' \<notin> set p) ps"

lemma parts_str_snoc: "parts_str (ps @ [p]) = (if ps = [] then CHR ''/'' # p else parts_str ps @ CHR ''/'' # p)"
  by (induction ps rule: py_join.induct [of _ "''/''"]) (auto simp: parts_str_def)

lemma parts_str_root: "clean_parts ps \<Longrightarrow> parts_str ps = ''/'' \<longleftrightarrow> ps = []"
proof (cases ps rule: rev_cases)
  case (snoc ys y)
  moreover assume "clean_parts ps"
  ultimately show ?thesis using parts_str_snoc [of ys y] by (auto simp: clean_parts_def parts_str_def)
qed (simp add: parts_str_def)

lemma last_parts_str: "clean_parts ps \<Longrightarrow> ps \<noteq> [] \<Longrightarrow> last (parts_str ps) \<noteq> CHR ''/''"
  by (cases ps rule: rev_cases) (auto simp: parts_str_snoc clean_parts_def dest: last_in_set)

lemma dirname_parts:
  assumes "clean_parts (ps @ [p])"
  shows "dirname (parts_str (ps @ [p])) = parts_str ps"
proof -
  have p: "p \<noteq> []" "CHR ''/'' \<notin> set p" and ps: "clean_parts ps" using assms by (auto simp: clean_parts_def)
  have base: "rev (dropWhile (\<lambda>c. c \<noteq> CHR ''/'') (rev (r @ CHR ''/'' # p))) = r @ [CHR ''/'']" for r
    using p(2) by (auto simp: dropWhile_append)
  show ?thesis
  proof (cases "ps = []")
    case True
    then show ?thesis using base [of "[]"] by (simp add: dirname_def parts_str_snoc Let_def parts_str_def)
  next
    case False
    have "rev (dropWhile (\<lambda>c. c = CHR ''/'') (rev (parts_str ps @ [CHR ''/'']))) = parts_str ps"
      using last_parts_str [OF ps False] by (cases "parts_str ps" rule: rev_cases) auto
    moreover have "parts_str ps \<noteq> []" by (simp add: parts_str_def)
    moreover have "rev (dropWhile (\<lambda>c. c \<noteq> CHR ''/'') (rev (parts_str (ps @ [p])))) = parts_str ps @ [CHR ''/'']"
      using False base [of "parts_str ps"] by (simp add: parts_str_snoc)
    ultimately show ?thesis unfolding dirname_def Let_def by metis
  qed
qed

text \<open>On a clean path the climb ends, with the longest run of ancestors it does not have to stop at.\<close>

lemma climb_parts:
  assumes "clean_parts ps"
  shows "climb halt (parts_str ps) acc =
    Some (rev (takeWhile (\<lambda>d. \<not> halt d) (map (\<lambda>n. parts_str (take n ps)) (rev [1..<Suc (length ps)]))) @ acc)"
  using assms
proof (induction ps arbitrary: acc rule: rev_induct)
  case Nil
  then show ?case by (subst climb.simps) (simp add: parts_str_def)
next
  case (snoc p ps)
  have ne: "parts_str (ps @ [p]) \<noteq> ''/''" using parts_str_root [OF snoc.prems] by simp
  have "clean_parts ps" using snoc.prems by (simp add: clean_parts_def)
  moreover have "map (\<lambda>n. parts_str (take n (ps @ [p]))) (rev [1..<Suc (length (ps @ [p]))]) =
      parts_str (ps @ [p]) # map (\<lambda>n. parts_str (take n ps)) (rev [1..<Suc (length ps)])"
    by (auto simp: rev_map)
  ultimately show ?case
    using ne snoc.IH [of "parts_str (ps @ [p]) # acc"]
    by (subst climb.simps) (simp add: dirname_parts [OF snoc.prems] del: upt_Suc)
qed

end
