(* ===== verification/Secure_Path.thy ===== *)
theory Secure_Path
  imports Host_Phases Py_Path
begin

text \<open>
  L0 of setup (\<open>src/src/core/setup/l0_identity.py\<close>): who the operator is, whether the distribution is
  supported, which binaries are missing, and which file sudo would resolve a launcher name to.
\<close>

section \<open>Resolving the operator\<close>

text \<open>The refusals, with the names they quote.\<close>

datatype operator_error =
    FlagUserUnknown string
  | SudoUserUnknown string
  | SudoUidMismatch string string int
  | SudoUidNotInt string
  | NoOperator

text \<open>\<open>environ\<close> holds \<open>SUDO_USER\<close> and \<open>SUDO_UID\<close>; an unparseable uid raises the \<open>ValueError\<close> of \<open>int\<close>.\<close>

definition resolve_operator ::
  "host_env \<Rightarrow> (string, string) dict \<Rightarrow> string option \<Rightarrow> operator_error + string" where
  "resolve_operator env environ operator_flag =
     (case operator_flag of
        Some flag \<Rightarrow> (case getpwnam env flag of None \<Rightarrow> Inl (FlagUserUnknown flag) | Some _ \<Rightarrow> Inr flag)
      | None \<Rightarrow>
          (let sudo_user = field_or [] environ ''SUDO_USER''; sudo_uid = field_or [] environ ''SUDO_UID'' in
           if sudo_user \<noteq> [] \<and> sudo_uid \<noteq> [] then
             (case getpwnam env sudo_user of
                None \<Rightarrow> Inl (SudoUserUnknown sudo_user)
              | Some entry \<Rightarrow>
                  (case py_int sudo_uid of
                     None \<Rightarrow> Inl (SudoUidNotInt sudo_uid)
                   | Some n \<Rightarrow>
                       if pw_uid entry \<noteq> n then Inl (SudoUidMismatch sudo_user sudo_uid (pw_uid entry))
                       else Inr sudo_user))
           else Inl NoOperator))"

section \<open>Distribution tiers\<close>

datatype distro_tier = Validated | Untested | Unrecognized

definition VALIDATED_DISTROS :: "string list" where
  "VALIDATED_DISTROS = [''debian'', ''ubuntu'']"

definition UNTESTED_DISTROS :: "string list" where
  "UNTESTED_DISTROS = [''fedora'', ''rhel'', ''centos'', ''arch'', ''manjaro'']"

definition read_os_release :: "(string, string) dict host_effect" where
  "read_os_release = ebind (read_file ''/etc/os-release'') (\<lambda>content.
     eret (case content of None \<Rightarrow> [] | Some c \<Rightarrow> os_release_fields c))"

definition distro_identity :: "(string \<times> string) host_effect" where
  "distro_identity = ebind read_os_release (\<lambda>d.
     eret (py_lower (py_strip (field_or [] d ''ID'')),
           (let v = field_or [] d ''VERSION_ID'' in if v \<noteq> [] then v else field_or [] d ''VERSION'')))"

definition tier_of :: "string \<times> string \<Rightarrow> distro_tier \<times> string \<times> string" where
  "tier_of p =
     (let (raw_id, version) = p in
      if raw_id \<in> set VALIDATED_DISTROS then (Validated, raw_id, version)
      else if raw_id \<in> set UNTESTED_DISTROS then (Untested, raw_id, version)
      else (Unrecognized, if raw_id = [] then ''unknown'' else raw_id, version))"

definition classify_distro :: "(distro_tier \<times> string \<times> string) host_effect" where
  "classify_distro = ebind distro_identity (\<lambda>p. eret (tier_of p))"

text \<open>\<open>emit_distro_gate\<close>, without its printing: \<open>None\<close> when it exits, else whether it waits for Enter.\<close>

definition distro_gate :: "bool \<Rightarrow> bool \<Rightarrow> distro_tier \<Rightarrow> bool option" where
  "distro_gate is_tty assume_yes tier =
     (case tier of Validated \<Rightarrow> Some False | Unrecognized \<Rightarrow> None | Untested \<Rightarrow> Some (is_tty \<and> \<not> assume_yes))"

section \<open>The secure path\<close>

definition DEFAULT_SECURE_PATH :: string where
  "DEFAULT_SECURE_PATH = ''/usr/local/sbin:/usr/local/bin:/usr/sbin:/usr/bin:/sbin:/bin''"

text \<open>The first match of the pattern \<open>secure_path\s*=\s*(?:")?([^"\n]+)(?:")?\<close>, its group: after the equals
  sign blanks and one quote may stand. The blanks give way when nothing else is left for the group.\<close>

definition group_after :: "string \<Rightarrow> string option" where
  "group_after s =
     (let t = dropWhile is_space s;
          u = (if prefix [CHR 0x22] t then drop 1 t else t);
          plain = (\<lambda>x. takeWhile (\<lambda>c. c \<noteq> CHR 0x22 \<and> c \<noteq> newline) x)
      in if plain u \<noteq> [] then Some (plain u)
         else map_option (\<lambda>k. plain (drop k s))
           (find (\<lambda>k. plain (drop k s) \<noteq> []) (rev [0..<Suc (length s - length t)])))"

fun secure_path_search :: "string \<Rightarrow> string option" where
  "secure_path_search [] = None"
| "secure_path_search (c # s) =
     (let rest = dropWhile is_space (drop 11 (c # s)) in
      if prefix ''secure_path'' (c # s) \<and> prefix ''='' rest then
        (case group_after (drop 1 rest) of Some g \<Rightarrow> Some g | None \<Rightarrow> secure_path_search s)
      else secure_path_search s)"

definition sudoers_secure_path :: "string \<Rightarrow> string option" where
  "sudoers_secure_path sudoers =
     (case find (\<lambda>line. prefix ''Defaults'' line \<and> py_contains ''secure_path'' line \<and> secure_path_search line \<noteq> None)
        (map py_strip (py_splitlines sudoers)) of
        None \<Rightarrow> None
      | Some line \<Rightarrow> secure_path_search line)"

definition secure_path_dirs :: "os_iface \<Rightarrow> string list host_effect" where
  "secure_path_dirs os =
     ebind (ecatch (ebind (os_run os [''sudo'', ''-V'']) (\<lambda>p. eret (secure_path_search (p_out p)))) (\<lambda>_. eret None))
       (\<lambda>from_sudo.
     ebind (case from_sudo of
        Some raw \<Rightarrow> eret (Some raw)
      | None \<Rightarrow>
          ecatch (ebind (read_file ''/etc/sudoers'') (\<lambda>content.
              eret (case content of None \<Rightarrow> None | Some s \<Rightarrow> sudoers_secure_path s)))
            (\<lambda>_. eret None)) (\<lambda>found.
     eret (filter (\<lambda>d. d \<noteq> [])
       (py_split CHR '':'' (case found of None \<Rightarrow> DEFAULT_SECURE_PATH | Some raw \<Rightarrow> raw)))))"

section \<open>Binaries\<close>

definition REQUIRED_BINARIES :: "string list" where
  "REQUIRED_BINARIES =
     [''sudo'', ''setfacl'', ''getfacl'', ''rsync'', ''loginctl'', ''useradd'', ''usermod'', ''groupadd'', ''visudo'',
      ''chattr'', ''sysctl'', ''tlog-rec'']"

definition BINARY_PACKAGE :: "(string, string) dict" where
  "BINARY_PACKAGE = [(''setfacl'', ''acl''), (''getfacl'', ''acl''), (''tlog-rec'', ''tlog'')]"

definition TLOG_ARCH_INSTALL :: string where
  "TLOG_ARCH_INSTALL = ''paru -S tlog''"

definition TLOG_DEBIAN_INSTALL :: string where
  "TLOG_DEBIAN_INSTALL =
     ''sudo apt install tlog (Ubuntu / Debian <=12); on Debian 13+ (trixie) tlog is not packaged '' @ em_dash @
     '' build from source: https://github.com/Scribery/tlog''"

definition binary_install_cmd :: "string \<Rightarrow> string option \<Rightarrow> string" where
  "binary_install_cmd binary distro_family =
     (if binary = ''tlog-rec'' \<and> distro_family = Some ''arch'' then TLOG_ARCH_INSTALL
      else if binary = ''tlog-rec'' \<and> distro_family = Some ''debian'' then TLOG_DEBIAN_INSTALL
      else get_install_cmd distro_family (field_or binary BINARY_PACKAGE binary))"

definition missing_binaries :: "os_iface \<Rightarrow> string list host_effect" where
  "missing_binaries os = ebind (secure_path_dirs os) (\<lambda>dirs.
     eget (\<lambda>w. filter (\<lambda>binary. \<not> list_ex (\<lambda>d. w_exec w (path_join d binary)) dirs) REQUIRED_BINARIES))"

section \<open>Resolving a launcher\<close>

datatype resolve_error = NotFound "string list" | DistinctBinaries "string list" | NonCanonical "string list"

definition CANONICAL_DIRS :: "string list" where
  "CANONICAL_DIRS = [''/usr/bin'', ''/usr/sbin'']"

text \<open>The candidates in path order, each once.\<close>

definition found_paths :: "string list \<Rightarrow> string \<Rightarrow> host_world \<Rightarrow> string list" where
  "found_paths dirs binary w =
     fold (\<lambda>d found. let candidate = path_join d binary in
        if w_exec w candidate \<and> candidate \<notin> set found then found @ [candidate] else found) dirs []"

text \<open>The identity of a file: device and inode, or its own path when it cannot be examined.\<close>

definition file_key :: "host_world \<Rightarrow> string \<Rightarrow> (nat \<times> nat) + string" where
  "file_key w path = (case w_stat w path of Some i \<Rightarrow> Inl i | None \<Rightarrow> Inr path)"

definition group_members :: "('k, string list) dict \<Rightarrow> 'k \<Rightarrow> string list" where
  "group_members d k = (case map_of d k of None \<Rightarrow> [] | Some ps \<Rightarrow> ps)"

definition group_by_file :: "host_world \<Rightarrow> string list \<Rightarrow> ((nat \<times> nat) + string, string list) dict" where
  "group_by_file w found =
     fold (\<lambda>path d. dict_set (file_key w path) (group_members d (file_key w path) @ [path]) d) found []"

definition pick_canonical :: "string list \<Rightarrow> string option" where
  "pick_canonical aliases =
     (let canonical = sort (filter (\<lambda>p. dirname p \<in> set CANONICAL_DIRS) aliases) in
      case find (\<lambda>p. dirname p = ''/usr/bin'') canonical of
        Some p \<Rightarrow> Some p
      | None \<Rightarrow> (case canonical of [] \<Rightarrow> None | p # _ \<Rightarrow> Some p))"

definition resolve_in_dirs :: "string list \<Rightarrow> string \<Rightarrow> host_world \<Rightarrow> resolve_error + string" where
  "resolve_in_dirs dirs binary w =
     (let found = found_paths dirs binary w in
      if found = [] then Inl (NotFound dirs)
      else let distinct_files = group_by_file w found in
        if 1 < length distinct_files then Inl (DistinctBinaries found)
        else case pick_canonical (snd (hd distinct_files)) of
               Some p \<Rightarrow> Inr p
             | None \<Rightarrow> Inl (NonCanonical found))"

text \<open>The text of a refusal names the binary and every path found.\<close>

definition resolve_error_text :: "string \<Rightarrow> resolve_error \<Rightarrow> string" where
  "resolve_error_text binary e =
     (case e of
        NotFound dirs \<Rightarrow> ''no executable '' @ binary @ '' found on the sudoers secure_path ('' @ py_join '':'' dirs @ '')''
      | DistinctBinaries found \<Rightarrow> binary @ '' does not resolve to a single canonical secure_path entry; found '' @
          py_repr_list found
      | NonCanonical found \<Rightarrow> binary @ '' resolves to a single binary but only outside a canonical systemd location; found: '' @
          py_repr_list found)"

definition resolve_secure_path_binary :: "os_iface \<Rightarrow> string \<Rightarrow> string host_effect" where
  "resolve_secure_path_binary os binary = ebind (secure_path_dirs os) (\<lambda>dirs.
     \<lambda>w. (map_sum (resolve_error_text binary) id (resolve_in_dirs dirs binary w), w))"

definition resolve_machinectl_path :: "os_iface \<Rightarrow> string host_effect" where
  "resolve_machinectl_path os = resolve_secure_path_binary os ''machinectl''"

definition systemd_run_binary_name :: string where
  "systemd_run_binary_name = hd (pipe_cmd [])"

definition resolve_systemd_run_path :: "os_iface \<Rightarrow> string host_effect" where
  "resolve_systemd_run_path os = resolve_secure_path_binary os systemd_run_binary_name"

section \<open>L0: the phase\<close>

text \<open>The first match of \<open>(\d+)\.(\d+)\.(\d+)(?:p(\d+))?\<close>: a run of digits may start anywhere in a longer run.\<close>

definition digits_then :: "string \<Rightarrow> string \<times> string" where
  "digits_then s = (takeWhile is_decimal s, dropWhile is_decimal s)"

definition version_at :: "string \<Rightarrow> (nat \<times> nat \<times> nat \<times> nat) option" where
  "version_at s =
     (let (a, r) = digits_then s in
      if a = [] \<or> \<not> prefix ''.'' r then None
      else let (b, r) = digits_then (drop 1 r) in
        if b = [] \<or> \<not> prefix ''.'' r then None
        else let (c, r) = digits_then (drop 1 r) in
          if c = [] then None
          else let (p, _) = digits_then (drop 1 r) in
            Some (digits_value a, digits_value b, digits_value c,
              if prefix ''p'' r \<and> p \<noteq> [] then digits_value p else 0))"

fun sudo_version_search :: "string \<Rightarrow> (nat \<times> nat \<times> nat \<times> nat) option" where
  "sudo_version_search [] = None"
| "sudo_version_search (c # s) =
     (case version_at (c # s) of Some v \<Rightarrow> Some v | None \<Rightarrow> sudo_version_search s)"

definition parse_sudo_version :: "os_iface \<Rightarrow> (nat \<times> nat \<times> nat \<times> nat) option host_effect" where
  "parse_sudo_version os =
     ecatch (ebind (os_run os [''sudo'', ''--version'']) (\<lambda>p. eret (sudo_version_search (p_out p)))) (\<lambda>_. eret None)"

definition SUDO_FLOOR :: "nat \<times> nat \<times> nat \<times> nat" where
  "SUDO_FLOOR = (1, 9, 5, 2)"

definition version_less :: "nat \<times> nat \<times> nat \<times> nat \<Rightarrow> nat \<times> nat \<times> nat \<times> nat \<Rightarrow> bool" where
  "version_less v u =
     (let (a, b, c, p) = v; (a', b', c', p') = u in
      a < a' \<or> a = a' \<and> (b < b' \<or> b = b' \<and> (c < c' \<or> c = c' \<and> p < p')))"

definition floor_text :: "nat \<times> nat \<times> nat \<times> nat \<Rightarrow> string" where
  "floor_text v =
     (let (a, b, c, p) = v in
      ''sudo '' @ nat_str a @ ''.'' @ nat_str b @ ''.'' @ nat_str c @ (if p \<noteq> 0 then ''p'' @ nat_str p else []) @
      '' predates the validated floor 1.9.5p2; the V9 rule shape is unverified on this version '' @ em_dash @
      '' only EOL distros [RHEL 7, Debian 10] are below'')"

definition sudo_floor_warning :: "os_iface \<Rightarrow> string option host_effect" where
  "sudo_floor_warning os = ebind (parse_sudo_version os) (\<lambda>ver. eret
     (case ver of None \<Rightarrow> None | Some v \<Rightarrow> if version_less v SUDO_FLOOR then Some (floor_text v) else None))"

text \<open>The refusal names the distribution; the fixed text around it is printed only.\<close>

definition unsupported_distro_refusal :: "string \<Rightarrow> string \<Rightarrow> string" where
  "unsupported_distro_refusal raw_id version =
     ''Unsupported distro'' @ [newline] @ ''Detected: '' @ py_strip (raw_id @ '' '' @ version)"

definition tier_value :: "distro_tier \<Rightarrow> string" where
  "tier_value t = (case t of Validated \<Rightarrow> ''validated'' | Untested \<Rightarrow> ''untested'' | Unrecognized \<Rightarrow> ''unrecognized'')"

definition install_cmds :: "string list \<Rightarrow> string option \<Rightarrow> string" where
  "install_cmds missing family = py_join ''; '' (map (\<lambda>b. binary_install_cmd b family) missing)"

definition l0_detail :: "os_iface \<Rightarrow> setup_context \<Rightarrow> distro_tier \<Rightarrow> string \<Rightarrow> string \<Rightarrow> (phase_result \<times> string) host_effect" where
  "l0_detail os ctx tier raw_id machinectl_detail = ebind (sudo_floor_warning os) (\<lambda>floor_warn. eret
     (ALREADY_CORRECT,
      ''operator='' @ ctx_operator ctx @ '', distro='' @ raw_id @ '' ('' @ tier_value tier @ '')'' @ machinectl_detail @
      (case floor_warn of None \<Rightarrow> [] | Some wt \<Rightarrow> '' [WARN: '' @ wt @ '']'') @
      (if tier = Untested then '' [WARN: untested distro '' @ raw_id @ '']'' else [])))"

definition l0_probe :: "os_iface \<Rightarrow> setup_context \<Rightarrow> (phase_result \<times> string) host_effect" where
  "l0_probe os ctx = ebind classify_distro (\<lambda>(tier, raw_id, version).
     if tier = Unrecognized then eret (CONFLICT, unsupported_distro_refusal raw_id version)
     else ebind detect_distro (\<lambda>family.
     ebind (missing_binaries os) (\<lambda>missing.
       if missing \<noteq> [] then eret (CONFLICT, ''required binaries missing: '' @ py_join '', '' missing @ '' '' @ em_dash @
         '' install: '' @ install_cmds missing family)
       else if is_operator_rootless (ctx_host ctx) then l0_detail os ctx tier raw_id []
       else ebind (secure_path_dirs os) (\<lambda>dirs. ebind (eget (resolve_in_dirs dirs ''machinectl'')) (\<lambda>r.
         case r of
           Inl e \<Rightarrow> eret (CONFLICT, resolve_error_text ''machinectl'' e)
         | Inr path \<Rightarrow> l0_detail os ctx tier raw_id ('', machinectl='' @ path))))))"

definition l0_act :: "os_iface \<Rightarrow> setup_context \<Rightarrow> string host_effect" where
  "l0_act os ctx = ebind detect_distro (\<lambda>family. ebind (missing_binaries os) (\<lambda>missing.
     if missing \<noteq> [] then ethrow (''cannot proceed: required binaries missing ('' @ py_join '', '' missing @
       ''). Install them and re-run: '' @ install_cmds missing family)
     else eret ''L0 prerequisites satisfied''))"

definition l0_reverify :: "os_iface \<Rightarrow> setup_context \<Rightarrow> bool host_effect" where
  "l0_reverify os ctx = ebind (missing_binaries os) (\<lambda>missing.
     if missing \<noteq> [] then eret False
     else if is_operator_rootless (ctx_host ctx) then eret True
     else ebind (secure_path_dirs os) (\<lambda>dirs. ebind (eget (resolve_in_dirs dirs ''machinectl'')) (\<lambda>r. eret (is_ok r))))"

definition l0_phase :: "os_iface \<Rightarrow> host_world phase" where
  "l0_phase os =
     \<lparr>ph_id = ''l0'', ph_name = ''identity, distro, binaries, machinectl-path'', ph_identity = ROOT,
      ph_probe = l0_probe os, ph_act = l0_act os, ph_reverify = l0_reverify os,
      ph_depends_on = [], ph_rollback = None, ph_applies_in = [SEPARATE_USER, OPERATOR_ROOTLESS]\<rparr>"

section \<open>Lemmas: resolving\<close>

lemma found_paths_aux:
  "set (fold (\<lambda>d found. let candidate = path_join d binary in
        if w_exec w candidate \<and> candidate \<notin> set found then found @ [candidate] else found) dirs acc) =
   set acc \<union> {c \<in> (\<lambda>d. path_join d binary) ` set dirs. w_exec w c}"
  by (induction dirs arbitrary: acc) (auto simp: Let_def)

lemma set_found_paths: "set (found_paths dirs binary w) = {c \<in> (\<lambda>d. path_join d binary) ` set dirs. w_exec w c}"
  unfolding found_paths_def found_paths_aux by simp

lemma group_by_file_aux:
  "dict_wf d \<Longrightarrow>
   (let g = fold (\<lambda>path d. dict_set (file_key w path) (group_members d (file_key w path) @ [path]) d) found d in
    dict_wf g \<and> set (dict_keys g) = set (dict_keys d) \<union> file_key w ` set found \<and>
    (\<forall>k. set (group_members g k) = set (group_members d k) \<union> {p \<in> set found. file_key w p = k}))"
proof (induction found arbitrary: d)
  case (Cons path found)
  let ?d = "dict_set (file_key w path) (group_members d (file_key w path) @ [path]) d"
  have "group_members ?d k = (if k = file_key w path then group_members d k @ [path] else group_members d k)" for k
    by (auto simp: group_members_def map_of_dict_set)
  then have m: "set (group_members ?d k) = set (group_members d k) \<union> (if k = file_key w path then {path} else {})" for k
    by simp
  have "dict_wf ?d" using Cons.prems by simp
  note ih = Cons.IH [OF this, unfolded Let_def m]
  show ?case unfolding Let_def using ih by auto
qed simp

lemma group_by_file_facts:
  "dict_wf (group_by_file w found)"
  "set (dict_keys (group_by_file w found)) = file_key w ` set found"
  "set (group_members (group_by_file w found) k) = {p \<in> set found. file_key w p = k}"
  using group_by_file_aux [of "[]" w found] unfolding group_by_file_def Let_def
  by (simp_all add: group_members_def)

text \<open>One group exactly when all paths are one file.\<close>

lemma one_group_iff:
  "\<not> 1 < length (group_by_file w found) \<longleftrightarrow> (\<forall>p \<in> set found. \<forall>q \<in> set found. file_key w p = file_key w q)"
proof -
  have "distinct (dict_keys (group_by_file w found))"
    using group_by_file_facts(1) [of w found] by (simp add: dict_wf_def)
  then have "length (dict_keys (group_by_file w found)) = card (file_key w ` set found)"
    unfolding group_by_file_facts(2) [of w found, symmetric] by (simp add: distinct_card)
  then have len: "length (group_by_file w found) = card (file_key w ` set found)" by (simp add: dict_keys_def)
  have "card (file_key w ` set found) \<le> Suc 0 \<longleftrightarrow> (\<forall>a \<in> file_key w ` set found. \<forall>b \<in> file_key w ` set found. a = b)"
    by (simp add: card_le_Suc0_iff_eq)
  with len show ?thesis by (simp add: not_less)
qed

lemma one_group_members:
  assumes "found \<noteq> []" and one: "\<not> 1 < length (group_by_file w found)"
  shows "set (snd (hd (group_by_file w found))) = set found"
proof -
  obtain p0 where p0: "p0 \<in> set found" using assms(1) by (cases found) auto
  then have "dict_keys (group_by_file w found) \<noteq> []"
    using group_by_file_facts(2) [of w found] by (metis empty_iff image_eqI list.set(1))
  then obtain k ps r where g: "group_by_file w found = (k, ps) # r"
    by (cases "group_by_file w found") (auto simp: dict_keys_def)
  then have "k \<in> file_key w ` set found"
    using group_by_file_facts(2) [of w found] by (auto simp: dict_keys_def)
  then have "\<forall>p \<in> set found. file_key w p = k" using one unfolding one_group_iff by blast
  moreover have "group_members (group_by_file w found) k = ps" using g by (simp add: group_members_def)
  ultimately show ?thesis using group_by_file_facts(3) [of w found k] g by auto
qed

definition canonical_aliases :: "string list \<Rightarrow> string list" where
  "canonical_aliases aliases = sort (filter (\<lambda>p. dirname p \<in> set CANONICAL_DIRS) aliases)"

lemma set_canonical_aliases [simp]:
  "set (canonical_aliases aliases) = {p \<in> set aliases. dirname p \<in> set CANONICAL_DIRS}"
  by (simp add: canonical_aliases_def)

lemma pick_canonical_alt:
  "pick_canonical aliases =
     (case find (\<lambda>p. dirname p = ''/usr/bin'') (canonical_aliases aliases) of
        Some p \<Rightarrow> Some p
      | None \<Rightarrow> (case canonical_aliases aliases of [] \<Rightarrow> None | p # _ \<Rightarrow> Some p))"
  unfolding pick_canonical_def canonical_aliases_def Let_def ..

lemma pick_canonical_Some:
  assumes "pick_canonical aliases = Some p"
  shows "p \<in> set aliases" and "dirname p \<in> set CANONICAL_DIRS"
proof -
  have "p \<in> set (canonical_aliases aliases)"
  proof (cases "find (\<lambda>p. dirname p = ''/usr/bin'') (canonical_aliases aliases)")
    case (Some q)
    with assms have "q = p" unfolding pick_canonical_alt by simp
    with find_Some_in_set [OF Some] show ?thesis by blast
  next
    case None
    with assms show ?thesis unfolding pick_canonical_alt None option.case
      by (metis list.case(1,2) list.exhaust list.set_intros(1) option.distinct(1) option.inject)
  qed
  then show "p \<in> set aliases" "dirname p \<in> set CANONICAL_DIRS" by simp_all
qed

lemma pick_canonical_None:
  assumes "pick_canonical aliases = None" and "p \<in> set aliases"
  shows "dirname p \<notin> set CANONICAL_DIRS"
proof -
  have "canonical_aliases aliases = []"
    using assms(1) unfolding pick_canonical_alt
    by (cases "canonical_aliases aliases") (simp_all split: option.splits if_splits)
  then have "p \<notin> set (canonical_aliases aliases)" by (metis empty_iff list.set(1))
  with assms(2) show ?thesis by simp
qed

section \<open>Properties\<close>

text \<open>Claim C22: a launcher is resolved only when sudo could reach one file by that name. The result is an
  executable candidate of the secure path in a canonical directory, and every executable candidate of the
  secure path is that same file; a second, different file of that name anywhere on the path is refused, as is
  a missing one and one that lies only outside the canonical directories.\<close>

theorem resolve_in_dirs_unshadowed:
  "case resolve_in_dirs dirs binary w of
     Inr p \<Rightarrow> p \<in> (\<lambda>d. path_join d binary) ` set dirs \<and> w_exec w p \<and> dirname p \<in> set CANONICAL_DIRS \<and>
       (\<forall>d \<in> set dirs. w_exec w (path_join d binary) \<longrightarrow> file_key w (path_join d binary) = file_key w p)
   | Inl (NotFound _) \<Rightarrow> \<forall>d \<in> set dirs. \<not> w_exec w (path_join d binary)
   | Inl (DistinctBinaries found) \<Rightarrow> \<exists>p \<in> set found. \<exists>q \<in> set found. w_exec w p \<and> w_exec w q \<and> file_key w p \<noteq> file_key w q
   | Inl (NonCanonical found) \<Rightarrow> found \<noteq> [] \<and> (\<forall>p \<in> set found. dirname p \<notin> set CANONICAL_DIRS)"
proof (cases "found_paths dirs binary w = []")
  case True
  then show ?thesis
    using set_found_paths [of dirs binary w] by (auto simp: resolve_in_dirs_def)
next
  case False
  show ?thesis
  proof (cases "1 < length (group_by_file w (found_paths dirs binary w))")
    case True
    with one_group_iff [of w "found_paths dirs binary w"] obtain p q where "p \<in> set (found_paths dirs binary w)"
      "q \<in> set (found_paths dirs binary w)" "file_key w p \<noteq> file_key w q" by blast
    then have "\<exists>p \<in> set (found_paths dirs binary w). \<exists>q \<in> set (found_paths dirs binary w).
        w_exec w p \<and> w_exec w q \<and> file_key w p \<noteq> file_key w q"
      using set_found_paths [of dirs binary w] by blast
    then show ?thesis using True False by (simp add: resolve_in_dirs_def Let_def)
  next
    case one: False
    note mem = one_group_members [OF False one]
    show ?thesis
    proof (cases "pick_canonical (snd (hd (group_by_file w (found_paths dirs binary w))))")
      case None
      have "resolve_in_dirs dirs binary w = Inl (NonCanonical (found_paths dirs binary w))"
        using None one False by (simp add: resolve_in_dirs_def Let_def)
      then show ?thesis using False mem pick_canonical_None [OF None] by auto
    next
      case (Some p)
      have p: "p \<in> set (found_paths dirs binary w)" "dirname p \<in> set CANONICAL_DIRS"
        using pick_canonical_Some [OF Some] mem by auto
      have same: "file_key w q = file_key w p" if "q \<in> set (found_paths dirs binary w)" for q
        using one_group_iff [of w "found_paths dirs binary w"] one p(1) that by blast
      have "resolve_in_dirs dirs binary w = Inr p" using Some one False by (simp only: resolve_in_dirs_def Let_def if_False option.case)
      moreover have "p \<in> (\<lambda>d. path_join d binary) ` set dirs" "w_exec w p"
        using p(1) unfolding set_found_paths by blast+
      moreover have "\<forall>d \<in> set dirs. w_exec w (path_join d binary) \<longrightarrow> file_key w (path_join d binary) = file_key w p"
        using same unfolding set_found_paths by blast
      ultimately show ?thesis using p(2) by (simp only: sum.case)
    qed
  qed
qed


definition sample_world :: host_world where
  "sample_world = \<lparr>w_env = sample_env, w_gr_mem = (\<lambda>_. []), w_files = (\<lambda>_. FAbsent),
     w_exec = (\<lambda>p. p \<in> {''/bin/systemd-run'', ''/usr/bin/systemd-run'', ''/opt/x''}),
     w_stat = (\<lambda>p. if p \<in> {''/bin/systemd-run'', ''/usr/bin/systemd-run''} then Some (1, 7) else None)\<rparr>"

lemma sample_resolve:
  "resolve_in_dirs [''/usr/local/bin'', ''/bin'', ''/usr/bin''] ''systemd-run'' sample_world = Inr ''/usr/bin/systemd-run''"
  by code_simp

theorem resolve_in_dirs_unshadowed_witness:
  "resolve_in_dirs [''/usr/local/bin'', ''/bin'', ''/usr/bin''] ''systemd-run'' sample_world = Inr ''/usr/bin/systemd-run'' \<and>
   w_exec sample_world ''/usr/bin/systemd-run'' \<and> dirname ''/usr/bin/systemd-run'' \<in> set CANONICAL_DIRS"
  using resolve_in_dirs_unshadowed
      [where dirs = "[''/usr/local/bin'', ''/bin'', ''/usr/bin'']" and binary = "''systemd-run''" and w = sample_world]
    sample_resolve by (simp only: sum.case)


end
