(* ===== verification/Sudoers.thy ===== *)
theory Sudoers
  imports Secure_Path Dispatch_Correct
begin

text \<open>
  The privilege boundary rule: the sudoers drop-in of \<open>src/src/core/setup/l3_sudoers.py\<close>, the per-op probe of
  \<open>l3a_per_op_probe.py\<close> and the fresh-session check of \<open>l8_fresh_session.py\<close>. What sudo makes of a command
  specification follows the documentation the repository relies on: the command and its arguments are
  compared as text, a backslash quotes the next character and a star matches any text.
\<close>

section \<open>Rendering the rule\<close>

definition op_name_char :: "char \<Rightarrow> bool" where
  "op_name_char c = (c \<in> set lower_letters \<or> c \<in> set digit_chars \<or> c = CHR ''-'')"

definition op_name_match :: "string \<Rightarrow> bool" where
  "op_name_match s = (re_dollar_body s \<noteq> [] \<and> list_all op_name_char (re_dollar_body s))"

definition NO_ARG_OP_NAMES :: "string list" where
  "NO_ARG_OP_NAMES = map op_value [AUTH_PROBE, COMPOSE_LS, DOCKER_VERSION, PREFLIGHT]"

datatype rule_error = BadOpName string | BadSandboxUser string | QuoteInSpec string

definition backslash :: char where
  "backslash = CHR 0x5C"

definition escape_cmnd_spec_ws :: "string \<Rightarrow> string" where
  "escape_cmnd_spec_ws payload = py_replace '' '' (backslash # '' '') payload"

definition spec_prefix :: "string \<Rightarrow> string \<Rightarrow> string" where
  "spec_prefix systemd_run_path sandbox_user =
     py_join '' '' (sudo_pipe_crossing_argv systemd_run_path sandbox_user) @ '' /bin/bash -c''"

definition cmnd_specs :: "string \<Rightarrow> string \<Rightarrow> op \<Rightarrow> rule_error + string list" where
  "cmnd_specs systemd_run_path sandbox_user opn =
     (if \<not> op_name_match (op_value opn) then Inl (BadOpName (op_value opn))
      else let pre = spec_prefix systemd_run_path sandbox_user;
               base = escape_cmnd_spec_ws (dispatch_payload (op_value opn) [])
           in if op_value opn \<notin> set NO_ARG_OP_NAMES then Inr [pre @ '' '' @ base @ backslash # '' *'']
              else Inr [pre @ '' '' @ base, pre @ '' '' @ base @ backslash # '' --check''])"

fun all_cmnd_specs :: "string \<Rightarrow> string \<Rightarrow> op list \<Rightarrow> rule_error + string list" where
  "all_cmnd_specs path user [] = Inr []"
| "all_cmnd_specs path user (opn # ops) =
     bindE (cmnd_specs path user opn) (\<lambda>specs.
     bindE (all_cmnd_specs path user ops) (\<lambda>rest. Inr (specs @ rest)))"

definition rule_text :: "string \<Rightarrow> string \<Rightarrow> string list \<Rightarrow> string" where
  "rule_text operator hostname specs =
     MANAGED_HEADER @ [newline] @ ''Defaults fast_glob'' @ [newline] @
     operator @ '' '' @ hostname @ ''=(root) NOPASSWD: NOSETENV: '' @ [backslash, newline] @
     ''    '' @ py_join ('', '' @ [backslash, newline] @ ''    '') specs @ [newline]"

definition render_sudoers_rule ::
  "string \<Rightarrow> string \<Rightarrow> string \<Rightarrow> string \<Rightarrow> rule_error + string" where
  "render_sudoers_rule systemd_run_path operator hostname sandbox_user =
     (if \<not> username_match sandbox_user then Inl (BadSandboxUser sandbox_user)
      else bindE (all_cmnd_specs systemd_run_path sandbox_user all_ops) (\<lambda>specs.
        case find (\<lambda>spec. CHR 0x22 \<in> set spec) specs of
          Some spec \<Rightarrow> Inl (QuoteInSpec spec)
        | None \<Rightarrow> Inr (rule_text operator hostname specs)))"

section \<open>The L3 phase\<close>

definition drop_in_path :: "string \<Rightarrow> string" where
  "drop_in_path operator = ''/etc/sudoers.d/sandbox-ai-machinectl-'' @ operator"

definition rule_error_text :: "rule_error \<Rightarrow> string" where
  "rule_error_text e = (case e of
       BadOpName n \<Rightarrow> ''op name '' @ py_repr n @ '' is not [a-z0-9-]+; refusing to render''
     | BadSandboxUser u \<Rightarrow> ''sandbox_user '' @ py_repr u @ '' is not a valid POSIX username''
     | QuoteInSpec s \<Rightarrow> ''rendered Cmnd_Spec contains a quote character: '' @ py_repr s)"

definition expected_body :: "os_iface \<Rightarrow> setup_context \<Rightarrow> string host_effect" where
  "expected_body os ctx =
     ebind (resolve_systemd_run_path os) (\<lambda>path.
     ebind (daemon_owner_of ctx) (\<lambda>user.
     elift (map_sum rule_error_text id (render_sudoers_rule path (ctx_operator ctx) (os_hostname os) user))))"

definition l3_probe :: "os_iface \<Rightarrow> setup_context \<Rightarrow> (phase_result \<times> string) host_effect" where
  "l3_probe os ctx = ebind (expected_body os ctx) (\<lambda>expected.
     ebind (read_file (drop_in_path (ctx_operator ctx))) (\<lambda>observed. eret
       (let path = drop_in_path (ctx_operator ctx) in
        case observed of
          None \<Rightarrow> (MISSING, path @ '' absent; will render + install'')
        | Some body \<Rightarrow>
            if body = expected then (ALREADY_CORRECT, path @ '' matches current Op enum'')
            else (DRIFT, path @ '' differs from the expected rule (stale Op enumeration / machinectl-path drift); '' @
              ''will re-render + re-install''))))"

definition staged_path :: "string \<Rightarrow> string" where
  "staged_path operator = ''/tmp/sandbox-ai-machinectl-'' @ operator @ ''.staged''"

text \<open>\<open>write_text\<close> keeps the owner and mode of an existing file; a new one gets those of the process.\<close>

definition write_text :: "os_iface \<Rightarrow> string \<Rightarrow> string \<Rightarrow> unit host_effect" where
  "write_text os path body w =
     (case os_write_denied os path w of
        Some exc \<Rightarrow> (Inl exc, w)
      | None \<Rightarrow> (Inr (), put_file path
          (case w_files w path of FText _ m u g \<Rightarrow> FText body m u g | _ \<Rightarrow> FText body 420 0 0) w))"

definition l3_act :: "os_iface \<Rightarrow> setup_context \<Rightarrow> string host_effect" where
  "l3_act os ctx = ebind (expected_body os ctx) (\<lambda>body.
     (let final_path = drop_in_path (ctx_operator ctx); staged = staged_path (ctx_operator ctx) in
      ebind (write_text os staged body) (\<lambda>_.
      ebind (os_run os [''visudo'', ''-cf'', staged]) (\<lambda>res.
        if p_rc res \<noteq> 0 then ethrow (''visudo -cf rejected the staged rule (exit '' @ int_str (p_rc res) @
          ''); refusing to install: '' @ p_out res @ p_err res)
        else ebind (run_checked os [''install'', ''-m'', ''0440'', ''-o'', ''root'', ''-g'', ''root'', staged, final_path]) (\<lambda>_.
          eret (''installed '' @ final_path @ '' (mode 0440, validated)''))))))"

definition l3_reverify :: "os_iface \<Rightarrow> setup_context \<Rightarrow> bool host_effect" where
  "l3_reverify os ctx = ebind (read_file (drop_in_path (ctx_operator ctx))) (\<lambda>observed.
     case observed of
       None \<Rightarrow> eret False
     | Some body \<Rightarrow> ebind (expected_body os ctx) (\<lambda>expected. eret (body = expected)))"

definition l3_rollback :: "os_iface \<Rightarrow> setup_context \<Rightarrow> unit host_effect" where
  "l3_rollback os ctx = unlink_missing_ok os (drop_in_path (ctx_operator ctx))"

definition l3_phase :: "os_iface \<Rightarrow> host_world phase" where
  "l3_phase os =
     \<lparr>ph_id = ''l3'', ph_name = ''privilege-boundary rule (sudoers drop-in)'', ph_identity = ROOT,
      ph_probe = l3_probe os, ph_act = l3_act os, ph_reverify = l3_reverify os,
      ph_depends_on = [''l7''], ph_rollback = Some (l3_rollback os), ph_applies_in = [SEPARATE_USER]\<rparr>"

section \<open>The L3a phase\<close>

definition probe_argv :: "string \<Rightarrow> string \<Rightarrow> op \<Rightarrow> string list" where
  "probe_argv sandbox_user operator opn =
     sudo_as_operator operator @ [''sudo'', ''-n''] @ pipe_cmd sandbox_user @
     [''/bin/bash'', ''-c'', dispatch_payload (op_value opn) [''--check'']]"

definition probe_failure :: "string \<Rightarrow> string \<Rightarrow> string \<Rightarrow> string" where
  "probe_failure opv message resolved =
     ''L3a per-op probe FAILED for op '' @ py_repr opv @ '': '' @
     (if py_contains ''password is required'' message then
        ''sudoers rule did not grant this op '' @ em_dash @ '' a missed backslash-escape (F-004) OR SYSTEMD_RUN_PATH drift '' @
        ''between L0 and the live secure_path''
      else ''broken / absent / mis-pathed rule or dispatcher binary (incl. dispatcher reject exit 2)'') @
     ''. Recovered inner exit / trace: '' @ message @ ''. Resolved SYSTEMD_RUN_PATH (pinned in the rule): '' @
     py_repr resolved @ ''.''"

definition classify_op :: "os_iface \<Rightarrow> setup_context \<Rightarrow> op \<Rightarrow> unit host_effect" where
  "classify_op os ctx opn = ebind (daemon_owner_of ctx) (\<lambda>user.
     ecatch (ebind (exec_run os (run_opts False True) (probe_argv user (ctx_operator ctx) opn)) (\<lambda>_. eret ()))
       (\<lambda>message. ebind (resolve_systemd_run_path os) (\<lambda>resolved.
          ethrow (probe_failure (op_value opn) message resolved))))"

definition l3a_sweep :: "os_iface \<Rightarrow> setup_context \<Rightarrow> string host_effect" where
  "l3a_sweep os ctx = ebind (efor (classify_op os ctx) all_ops) (\<lambda>_.
     eret (''every op in core.dispatch.Op ('' @ nat_str (length all_ops) @ '') resolved to MATCH''))"

definition l3a_probe :: "setup_context \<Rightarrow> (phase_result \<times> string) host_effect" where
  "l3a_probe ctx = eret (MISSING, ''per-op rule probe must run (no idempotent skip '' @ em_dash @ '' verification phase)'')"

definition l3a_act :: "os_iface \<Rightarrow> setup_context \<Rightarrow> string host_effect" where
  "l3a_act os ctx = l3a_sweep os ctx"

definition l3a_reverify :: "os_iface \<Rightarrow> setup_context \<Rightarrow> bool host_effect" where
  "l3a_reverify os ctx = ebind (l3a_sweep os ctx) (\<lambda>_. eret True)"

definition l3a_phase :: "os_iface \<Rightarrow> host_world phase" where
  "l3a_phase os =
     \<lparr>ph_id = ''l3a'', ph_name = ''per-op rule probe (F-004 silent-footgun defense)'', ph_identity = OPERATOR,
      ph_probe = l3a_probe, ph_act = l3a_act os, ph_reverify = l3a_reverify os,
      ph_depends_on = [''l3''], ph_rollback = Some (l3_rollback os), ph_applies_in = [SEPARATE_USER]\<rparr>"

section \<open>The L8 phase\<close>

definition check_group_set :: "os_iface \<Rightarrow> setup_context \<Rightarrow> unit host_effect" where
  "check_group_set os ctx =
     (let grp_name = workspace_bridge_group (ctx_host ctx); operator = ctx_operator ctx in
      ebind (eget (\<lambda>w. getgrnam (w_env w) grp_name)) (\<lambda>entry.
      case entry of
        None \<Rightarrow> ethrow (''workspace bridge group '' @ py_repr grp_name @ '' does not exist on this host'')
      | Some bridge_gid \<Rightarrow>
          ebind (ecatch (exec_run os (run_opts False False) (pipe_cmd operator @ [''id'', ''-G'']))
            (\<lambda>exc. ethrow (''fresh-session `id -G` for operator '' @ py_repr operator @ '' failed: '' @ exc))) (\<lambda>cp.
          if int_str bridge_gid \<notin> set (py_words (stdout_of cp)) then
            ethrow (''operator '' @ py_repr operator @ '' fresh-session group set does not include the workspace bridge gid '' @
              int_str bridge_gid)
          else eret ())))"

definition check_dispatcher_reachable :: "os_iface \<Rightarrow> setup_context \<Rightarrow> unit host_effect" where
  "check_dispatcher_reachable os ctx = ebind (daemon_owner_of ctx) (\<lambda>user.
     ecatch (ebind (exec_run os (run_opts False True)
         (sudo_as_operator (ctx_operator ctx) @ [''sudo'', ''-n''] @ pipe_cmd user @
          [''/bin/bash'', ''-c'', dispatch_payload (op_value AUTH_PROBE) []])) (\<lambda>_. eret ()))
       (\<lambda>exc. ethrow (''the dispatcher is NOT reachable end-to-end through the new rule for operator '' @
          py_repr (ctx_operator ctx) @ '' (recovered inner exit / trace: '' @ exc @ '')'')))"

definition l8_verify :: "os_iface \<Rightarrow> setup_context \<Rightarrow> string host_effect" where
  "l8_verify os ctx = ebind (check_group_set os ctx) (\<lambda>_. ebind (check_dispatcher_reachable os ctx) (\<lambda>_.
     eret (''fresh-session verified for operator '' @ py_repr (ctx_operator ctx) @
       '': bridge gid in group set; dispatcher reachable through the new rule'')))"

definition l8_probe :: "setup_context \<Rightarrow> (phase_result \<times> string) host_effect" where
  "l8_probe ctx = eret (MISSING, ''fresh-session re-probe must run (no idempotent skip '' @ em_dash @ '' verification)'')"

definition l8_reverify :: "os_iface \<Rightarrow> setup_context \<Rightarrow> bool host_effect" where
  "l8_reverify os ctx = ebind (l8_verify os ctx) (\<lambda>_. eret True)"

definition l8_phase :: "os_iface \<Rightarrow> host_world phase" where
  "l8_phase os =
     \<lparr>ph_id = ''l8'', ph_name = ''fresh-session re-probe'', ph_identity = OPERATOR,
      ph_probe = l8_probe, ph_act = l8_verify os, ph_reverify = l8_reverify os,
      ph_depends_on = [''l3a''], ph_rollback = None, ph_applies_in = [SEPARATE_USER]\<rparr>"

section \<open>What a command specification admits\<close>

fun spec_matches :: "string \<Rightarrow> string \<Rightarrow> bool" where
  "spec_matches [] t = (t = [])"
| "spec_matches [p] t = (p = CHR ''*'' \<or> t = [p])"
| "spec_matches (p # q # ps) t =
     (if p = CHR 0x5C then (case t of [] \<Rightarrow> False | c # cs \<Rightarrow> c = q \<and> spec_matches ps cs)
      else if p = CHR ''*'' then list_ex (\<lambda>k. spec_matches (q # ps) (drop k t)) [0..<Suc (length t)]
      else (case t of [] \<Rightarrow> False | c # cs \<Rightarrow> c = p \<and> spec_matches (q # ps) cs))"

text \<open>The command sudo compares: the resolved launcher and the arguments after it, joined by blanks.\<close>

definition sudo_command :: "string \<Rightarrow> string list \<Rightarrow> string" where
  "sudo_command launcher argv = py_join '' '' (launcher # drop 2 argv)"

definition rule_admits :: "string \<Rightarrow> string \<Rightarrow> string \<Rightarrow> bool" where
  "rule_admits systemd_run_path sandbox_user cmd =
     (case all_cmnd_specs systemd_run_path sandbox_user all_ops of
        Inl _ \<Rightarrow> False
      | Inr specs \<Rightarrow> list_ex (\<lambda>spec. spec_matches spec cmd) specs)"

section \<open>Lemmas: matching\<close>

definition spec_plain :: "string \<Rightarrow> bool" where
  "spec_plain s = list_all (\<lambda>c. c \<noteq> CHR ''*'' \<and> c \<noteq> backslash) s"

lemma spec_matches_plain_char:
  assumes "p \<noteq> CHR ''*''" and "p \<noteq> backslash"
  shows "spec_matches (p # ps) t \<longleftrightarrow> (\<exists>u. t = p # u \<and> spec_matches ps u)"
  using assms by (cases ps; cases t) (auto simp: backslash_def)

lemma spec_matches_escaped: "spec_matches (backslash # c # r) t \<longleftrightarrow> (\<exists>u. t = c # u \<and> spec_matches r u)"
  by (cases t) (auto simp: backslash_def)

lemma spec_matches_Nil: "spec_matches [] t \<longleftrightarrow> t = []"
  by simp

lemma spec_matches_star: "spec_matches ''*'' t"
  by simp

declare spec_matches.simps [simp del]

lemma spec_matches_plain:
  "spec_plain s \<Longrightarrow> spec_matches (s @ r) t \<longleftrightarrow> (\<exists>u. t = s @ u \<and> spec_matches r u)"
proof (induction s arbitrary: t)
  case (Cons c s)
  then have c: "c \<noteq> CHR ''*''" "c \<noteq> backslash" "spec_plain s" by (auto simp: spec_plain_def)
  then show ?case using Cons.IH by (auto simp: spec_matches_plain_char [OF c(1,2)])
qed simp

lemma escape_Cons:
  "escape_cmnd_spec_ws (c # s) = (if c = CHR '' '' then [backslash, CHR '' ''] else [c]) @ escape_cmnd_spec_ws s"
  by (simp add: escape_cmnd_spec_ws_def)

lemma escape_Nil [simp]: "escape_cmnd_spec_ws [] = []"
  by (simp add: escape_cmnd_spec_ws_def)

lemma spec_matches_escape:
  "spec_plain s \<Longrightarrow> spec_matches (escape_cmnd_spec_ws s @ r) t \<longleftrightarrow> (\<exists>u. t = s @ u \<and> spec_matches r u)"
proof (induction s arbitrary: t)
  case (Cons c s)
  then have c: "c \<noteq> CHR ''*''" "c \<noteq> backslash" "spec_plain s" by (auto simp: spec_plain_def)
  show ?case
    using Cons.IH [OF c(3)] spec_matches_plain_char [OF c(1,2)] spec_matches_escaped
    by (cases "c = CHR '' ''") (auto simp: escape_Cons)
qed simp

section \<open>Lemmas: the rendered specifications\<close>

definition no_arg_op :: "op \<Rightarrow> bool" where
  "no_arg_op opn = (opn \<in> {AUTH_PROBE, COMPOSE_LS, DOCKER_VERSION, PREFLIGHT})"

lemma no_arg_op_names: "op_value opn \<in> set NO_ARG_OP_NAMES \<longleftrightarrow> no_arg_op opn"
  by (cases opn) (simp_all add: NO_ARG_OP_NAMES_def no_arg_op_def)

lemma op_name_match_value: "op_name_match (op_value opn)"
  by (induct opn) code_simp+

lemma cmnd_specs_Inr: "\<exists>specs. cmnd_specs path user opn = Inr specs"
  by (simp add: cmnd_specs_def op_name_match_value Let_def)

lemma all_cmnd_specs_set:
  "\<exists>specs. all_cmnd_specs path user ops = Inr specs \<and>
     set specs = \<Union> ((\<lambda>opn. set (case cmnd_specs path user opn of Inr s \<Rightarrow> s | Inl _ \<Rightarrow> [])) ` set ops)"
proof (induction ops)
  case (Cons opn ops)
  then show ?case using cmnd_specs_Inr [of path user opn] by auto
qed simp

definition op_command :: "string \<Rightarrow> string \<Rightarrow> op \<Rightarrow> string" where
  "op_command path user opn = spec_prefix path user @ '' '' @ DISPATCH_BINARY @ '' '' @ op_value opn"

lemma set_all_ops: "set all_ops = UNIV"
  using op.exhaust by (auto simp: all_ops_def)

lemma payload_no_args: "dispatch_payload (op_value opn) [] = DISPATCH_BINARY @ '' '' @ op_value opn"
  by (induct opn) code_simp+

lemma payload_args:
  "wire \<noteq> [] \<Longrightarrow> dispatch_payload (op_value opn) wire = DISPATCH_BINARY @ '' '' @ op_value opn @ '' '' @ shlex_join wire"
  unfolding dispatch_payload_def using shlex_join_last [of wire] by (intro py_rstrip_last) auto

lemma spec_plain_append [simp]: "spec_plain (a @ b) \<longleftrightarrow> spec_plain a \<and> spec_plain b"
  by (auto simp: spec_plain_def)

lemma spec_plain_command: "spec_plain (DISPATCH_BINARY @ '' '' @ op_value opn)"
  by (induct opn) code_simp+

lemma newline_plain: "spec_plain [newline]"
  by code_simp

lemma username_plain: "username_match user \<Longrightarrow> spec_plain user"
proof -
  assume u: "username_match user"
  have "\<not> username_char (CHR ''*'')" "\<not> username_char backslash" "\<not> username_start (CHR ''*'')" "\<not> username_start backslash"
    by code_simp+
  with u have "spec_plain (re_dollar_body user)"
    by (auto simp: username_match_def spec_plain_def list_all_iff split: list.splits)
  then show ?thesis
    using re_dollar_body_cases [of user] by (metis newline_plain spec_plain_append)
qed

lemma spec_prefix_text:
  "spec_prefix path user = path @ '' -q --pipe --uid='' @ user @ '' /bin/bash -c''"
  by (simp add: spec_prefix_def sudo_pipe_crossing_argv_def sudo_pipe_cmd_def pipe_cmd_def)

lemma op_command_text: "op_command path user opn = spec_prefix path user @ '' '' @ dispatch_payload (op_value opn) []"
  by (simp add: op_command_def payload_no_args)

lemma cmnd_spec_language:
  assumes "spec_plain path" and "username_match user"
  shows "(\<exists>spec \<in> set (case cmnd_specs path user opn of Inr s \<Rightarrow> s | Inl _ \<Rightarrow> []). spec_matches spec cmd) \<longleftrightarrow>
    (if no_arg_op opn then cmd \<in> {op_command path user opn, op_command path user opn @ '' --check''}
     else prefix (op_command path user opn @ '' '') cmd)"
proof -
  let ?pre = "spec_prefix path user @ '' ''" and ?base = "DISPATCH_BINARY @ '' '' @ op_value opn"
  have pre: "spec_plain ?pre"
    unfolding spec_prefix_text using assms(1) username_plain [OF assms(2)]
    by (simp add: spec_plain_def backslash_def)
  have m: "spec_matches (?pre @ escape_cmnd_spec_ws ?base @ r) cmd \<longleftrightarrow>
      (\<exists>u. cmd = op_command path user opn @ u \<and> spec_matches r u)" for r
    unfolding spec_matches_plain [OF pre] spec_matches_escape [OF spec_plain_command] op_command_def by auto
  have star: "spec_matches (backslash # '' *'') u \<longleftrightarrow> prefix '' '' u" for u
    by (cases u) (auto simp: spec_matches_escaped spec_matches_star)
  have "spec_plain ''--check''" by code_simp
  then have tail: "spec_matches ''--check'' t \<longleftrightarrow> t = ''--check''" for t
    using spec_matches_plain [of "''--check''" "[]" t] unfolding spec_matches_Nil append_Nil2 by simp
  have check: "spec_matches (backslash # '' --check'') u \<longleftrightarrow> u = '' --check''" for u
    unfolding spec_matches_escaped tail by blast
  have specs: "cmnd_specs path user opn = Inr (if no_arg_op opn
      then [?pre @ escape_cmnd_spec_ws ?base @ [], ?pre @ escape_cmnd_spec_ws ?base @ backslash # '' --check'']
      else [?pre @ escape_cmnd_spec_ws ?base @ backslash # '' *''])"
    unfolding cmnd_specs_def Let_def no_arg_op_names payload_no_args by (simp add: op_name_match_value)
  show ?thesis
  proof (cases "no_arg_op opn")
    case True
    have "spec_matches [] u \<longleftrightarrow> u = []" for u by (simp add: spec_matches_Nil)
    with True show ?thesis
      unfolding specs sum.case if_P [OF True] list.set bex_simps(5) bex_simps(7) m check by auto
  next
    case False
    then show ?thesis
      unfolding specs sum.case if_not_P [OF False] list.set bex_simps(5) bex_simps(7) m star by (auto simp: prefix_def)
  qed
qed

lemma rule_admits_language:
  assumes "spec_plain path" and "username_match user"
  shows "rule_admits path user cmd \<longleftrightarrow>
    (\<exists>opn. if no_arg_op opn then cmd \<in> {op_command path user opn, op_command path user opn @ '' --check''}
     else prefix (op_command path user opn @ '' '') cmd)"
proof -
  obtain specs where specs: "all_cmnd_specs path user all_ops = Inr specs"
    "set specs = \<Union> ((\<lambda>opn. set (case cmnd_specs path user opn of Inr s \<Rightarrow> s | Inl _ \<Rightarrow> [])) ` UNIV)"
    using all_cmnd_specs_set [of path user all_ops] set_all_ops by auto
  then have "rule_admits path user cmd \<longleftrightarrow>
    (\<exists>opn. \<exists>spec \<in> set (case cmnd_specs path user opn of Inr s \<Rightarrow> s | Inl _ \<Rightarrow> []). spec_matches spec cmd)"
    by (simp add: rule_admits_def list_ex_iff)
  then show ?thesis unfolding cmnd_spec_language [OF assms] .
qed

section \<open>Lemmas: crossings\<close>

lemma nullary_wire:
  assumes "validate_args opn args = Inr ()" and "no_arg_op opn"
  shows "args = []"
  using assms by (cases args) (auto simp: no_arg_op_def validate_args_def validate_nullary_def guardE_def split: if_splits)

lemma argument_wire:
  assumes "validate_args opn args = Inr ()" and "\<not> no_arg_op opn"
  shows "args \<noteq> []"
  using assms by (cases opn) (auto simp: no_arg_op_def validate_args_def op_defs validate_one_instance_def
      validate_compose_down_def validate_docker_info_def validate_docker_manifest_inspect_def
      validate_helper_chown_files_def validate_helper_mkdir_chown_dirs_def)

lemma cross_argv_separate:
  assumes "cross_argv env h opn wire = Inr argv" and "\<not> is_operator_rootless h"
    and "docker_unprivileged_user h = Some user"
  shows "argv = sudo_pipe_cmd user @ [''/bin/bash'', ''-c'', dispatch_payload (op_value opn) wire]"
  using assms by (auto simp: cross_argv_def is_operator_rootless_def resolve_daemon_owner_settings_def
      split: sum.splits option.splits if_splits)

lemma sudo_command_crossing:
  "sudo_command launcher (sudo_pipe_cmd user @ [''/bin/bash'', ''-c'', payload]) =
     spec_prefix launcher user @ '' '' @ payload"
  by (simp add: sudo_command_def spec_prefix_text sudo_pipe_cmd_def pipe_cmd_def)

lemma rule_admits_crossing:
  assumes "spec_plain launcher" and "username_match user"
    and "no_arg_op opn \<Longrightarrow> wire = []" and "\<not> no_arg_op opn \<Longrightarrow> wire \<noteq> []"
  shows "rule_admits launcher user
    (sudo_command launcher (sudo_pipe_cmd user @ [''/bin/bash'', ''-c'', dispatch_payload (op_value opn) wire]))"
proof (cases "no_arg_op opn")
  case True
  with assms(3) have "wire = []" by blast
  then show ?thesis
    unfolding rule_admits_language [OF assms(1,2)] sudo_command_crossing using True
    by (intro exI [of _ opn]) (simp add: op_command_text)
next
  case False
  with assms(4) have "wire \<noteq> []" by blast
  then show ?thesis
    unfolding rule_admits_language [OF assms(1,2)] sudo_command_crossing payload_args [OF \<open>wire \<noteq> []\<close>] using False
    by (intro exI [of _ opn]) (simp add: op_command_def prefix_def)
qed

section \<open>Properties\<close>





text \<open>The blank and star of an op with arguments admit more than the op. The text after the op name is
  read by bash, and the rule admits payloads that are no plain command, here one that runs a second command as
  the sandbox user.\<close>

theorem sudoers_rule_admits_second_command:
  assumes "spec_plain launcher" and "username_match user" and "\<not> no_arg_op opn"
  shows "\<exists>payload. rule_admits launcher user
      (sudo_command launcher (sudo_pipe_cmd user @ [''/bin/bash'', ''-c'', payload @ ''; '' @ command])) \<and>
    sh_words payload = Some (DISPATCH_BINARY # op_value opn # [''x'']) \<and>
    (\<forall>wire. payload @ ''; '' @ command \<noteq> dispatch_payload (op_value opn) wire)"
proof -
  let ?p = "dispatch_payload (op_value opn) [''x'']"
  have p: "?p = DISPATCH_BINARY @ '' '' @ op_value opn @ '' x''"
  proof -
    have "shlex_join [''x''] = ''x''" by code_simp
    then show ?thesis using payload_args [of "[''x'']" opn] by simp
  qed
  have "rule_admits launcher user
      (sudo_command launcher (sudo_pipe_cmd user @ [''/bin/bash'', ''-c'', ?p @ ''; '' @ command]))"
    unfolding rule_admits_language [OF assms(1,2)] sudo_command_crossing p using assms(3)
    by (intro exI [of _ opn]) (simp add: op_command_def prefix_def)
  moreover have "?p @ ''; '' @ command \<noteq> dispatch_payload (op_value opn) wire" for wire
  proof
    assume eq: "?p @ ''; '' @ command = dispatch_payload (op_value opn) wire"
    have "shell_safe (CHR ''x'')" "\<not> shell_safe (CHR '';'')" by code_simp+
    then have "sh_words (''x; '' @ command) = None"
      using shell_safe_plain [of "CHR ''x''"] by (simp add: sh_words_def sh_blank_def)
    then have "sh_words (?p @ ''; '' @ command) = None"
      unfolding p using op_value_safe [of opn] dispatch_binary_safe by (simp add: sh_words_safe_Cons)
    then show False unfolding eq sh_words_payload by simp
  qed
  ultimately show ?thesis using sh_words_payload [of opn "[''x'']"] by blast
qed

theorem sudoers_rule_admits_second_command_witness:
  "\<exists>payload. rule_admits ''/usr/bin/systemd-run'' ''sb''
      (sudo_command ''/usr/bin/systemd-run'' (sudo_pipe_cmd ''sb'' @ [''/bin/bash'', ''-c'', payload @ ''; id'']))"
proof -
  have "spec_plain ''/usr/bin/systemd-run''" "username_match ''sb''" "\<not> no_arg_op COMPOSE_PS" by code_simp+
  from sudoers_rule_admits_second_command [OF this, of "''id''"] show ?thesis by auto
qed

end
