(* ===== verification/Daemon_Phases.thy ===== *)
theory Daemon_Phases
  imports Binary_Install Invoke Sudoers
begin

text \<open>
  The phases that set up the daemon: \<open>l5_dockerd.py\<close>, \<open>l6_daemon_json.py\<close>, \<open>l65_dispatcher.py\<close> and
  \<open>l7_helper_image.py\<close> under \<open>src/src/core/setup\<close>. JSON is parsed and printed by fields of \<open>os_iface\<close>; the sorting
  of keys that the code asks the printer for is written out.
\<close>

section \<open>Crossing into the daemon owner\<close>

definition routing_text :: "routing_error \<Rightarrow> string" where
  "routing_text e = (case e of NoSandboxUser \<Rightarrow> ''ValueError'' | NoSuchUser \<Rightarrow> ''KeyError'')"

definition owner_user :: "setup_context \<Rightarrow> string host_effect" where
  "owner_user ctx = elift (map_sum routing_text id (daemon_owner_user ctx))"

definition owner_crossing :: "setup_context \<Rightarrow> string list host_effect" where
  "owner_crossing ctx w = (map_sum routing_text id (daemon_owner_crossing (w_env w) ctx), w)"

definition op_rootless :: "setup_context \<Rightarrow> bool" where
  "op_rootless ctx = is_operator_rootless (ctx_host ctx)"

text \<open>The exit of a crossed command is masked, that of a local one is not.\<close>

definition owner_opts :: "setup_context \<Rightarrow> run_options" where
  "owner_opts ctx = run_opts (\<not> op_rootless ctx) False"

definition run_as_owner :: "os_iface \<Rightarrow> setup_context \<Rightarrow> string \<Rightarrow> completed host_effect" where
  "run_as_owner os ctx script = ebind (owner_crossing ctx) (\<lambda>cross.
     exec_run os (owner_opts ctx) (cross @ [''/bin/bash'', ''-c'', script]))"

text \<open>The same as a question: a \<open>SandboxExecutionError\<close> means no, a routing error propagates.\<close>

definition ask_owner :: "os_iface \<Rightarrow> setup_context \<Rightarrow> string \<Rightarrow> (completed \<Rightarrow> bool) \<Rightarrow> bool host_effect" where
  "ask_owner os ctx script ok = ebind (owner_crossing ctx) (\<lambda>cross.
     exec_ok os (owner_opts ctx) (cross @ [''/bin/bash'', ''-c'', script]) ok)"

definition wait_user_manager_ready :: "os_iface \<Rightarrow> string \<Rightarrow> nat \<Rightarrow> unit host_effect" where
  "wait_user_manager_ready os user attempts = ebind (eget (\<lambda>w. getpwnam (w_env w) user)) (\<lambda>entry.
     case entry of
       None \<Rightarrow> ethrow (''getpwnam(): name not found: '' @ py_repr user)
     | Some pw \<Rightarrow>
         ebind (exec_run os (run_opts False False) [''/bin/bash'', ''-c'',
           ''for i in $(seq 1 '' @ nat_str attempts @ ''); do systemctl is-active user@'' @ int_str (pw_uid pw) @
           ''.service >/dev/null 2>&1 && exit 0; sleep 1; done; echo '' @
           sq (''user@'' @ int_str (pw_uid pw) @ ''.service did not become active'') @ '' >&2; exit 1'']) (\<lambda>_. eret ()))"

section \<open>L5: linger and rootless dockerd\<close>

definition linger_enabled :: "os_iface \<Rightarrow> string \<Rightarrow> bool host_effect" where
  "linger_enabled os user =
     exec_ok os (run_opts False False) [''loginctl'', ''show-user'', user, ''--property=Linger'']
       (\<lambda>cp. sublist ''Linger=yes'' (stdout_of cp))"

definition dockerd_reachable :: "os_iface \<Rightarrow> setup_context \<Rightarrow> bool host_effect" where
  "dockerd_reachable os ctx = ask_owner os ctx ''docker info'' (\<lambda>_. True)"

text \<open>The sandbox user must exist before a crossing into it is tried; a rootless owner always does.\<close>

definition missing_owner :: "setup_context \<Rightarrow> (phase_result \<times> string) option host_effect" where
  "missing_owner ctx = eget (\<lambda>w.
     if op_rootless ctx then None
     else case probe_sandbox_pw_or_missing (w_env w) (ctx_host ctx) of Inl outcome \<Rightarrow> Some outcome | Inr _ \<Rightarrow> None)"

definition repr_user :: "string option \<Rightarrow> string" where
  "repr_user user = (case user of None \<Rightarrow> ''None'' | Some s \<Rightarrow> py_repr s)"

definition l5_probe :: "os_iface \<Rightarrow> setup_context \<Rightarrow> (phase_result \<times> string) host_effect" where
  "l5_probe os ctx = ebind (missing_owner ctx) (\<lambda>gone.
     case gone of
       Some (result, detail) \<Rightarrow> eret (result,
         ''sandbox user '' @ repr_user (docker_unprivileged_user (ctx_host ctx)) @
         '' does not exist yet (created by L2); dockerd will be installed ('' @ detail @ '')'')
     | None \<Rightarrow>
         ebind (owner_user ctx) (\<lambda>user.
         ebind (if op_rootless ctx then eret True else linger_enabled os user) (\<lambda>linger.
           if \<not> linger then
             eret (MISSING, ''linger not enabled for '' @ py_repr user @ ''; will enable + install dockerd'')
           else ebind (dockerd_reachable os ctx) (\<lambda>up.
             if \<not> up then
               eret (MISSING, ''rootless dockerd not reachable as '' @ py_repr user @ ''; will install'')
             else eret (ALREADY_CORRECT, ''rootless dockerd reachable for '' @ py_repr user)))))"

definition l5_act :: "os_iface \<Rightarrow> setup_context \<Rightarrow> string host_effect" where
  "l5_act os ctx = ebind (owner_user ctx) (\<lambda>user.
     ebind (ewhen (\<not> op_rootless ctx)
       (ebind (exec_run os (run_opts False False) [''loginctl'', ''enable-linger'', user]) (\<lambda>_.
          wait_user_manager_ready os user 30))) (\<lambda>_.
     ebind (dockerd_reachable os ctx) (\<lambda>up.
       if up then eret (''rootless dockerd already up for '' @ py_repr user)
       else ebind (run_as_owner os ctx ''dockerd-rootless-setuptool.sh install'') (\<lambda>_.
         eret (''rootless dockerd installed for '' @ py_repr user)))))"

definition l5_reverify :: "os_iface \<Rightarrow> setup_context \<Rightarrow> bool host_effect" where
  "l5_reverify os ctx =
     ebind (if op_rootless ctx then eret True else ebind (owner_user ctx) (linger_enabled os)) (\<lambda>linger.
       if \<not> linger then eret False else dockerd_reachable os ctx)"

definition l5_phase :: "os_iface \<Rightarrow> host_world phase" where
  "l5_phase os =
     \<lparr>ph_id = ''l5'', ph_name = ''linger + rootless dockerd install'', ph_identity = SANDBOX,
      ph_probe = l5_probe os, ph_act = l5_act os, ph_reverify = l5_reverify os,
      ph_depends_on = [''l2a''], ph_rollback = None, ph_applies_in = both_modes\<rparr>"

section \<open>L6: the reserved key of daemon.json\<close>

definition RESERVED_RUNTIME_KEY :: string where
  "RESERVED_RUNTIME_KEY = ''sandbox-ai-runsc''"

definition EXPECTED_RUNTIME :: json where
  "EXPECTED_RUNTIME =
     JObj [(''path'', JStr ''/usr/local/libexec/sandbox-ai/runsc''),
           (''runtimeArgs'', JList [JStr ''--oci-seccomp'', JStr ''--ignore-cgroups''])]"

text \<open>\<open>sort_keys=True\<close>, and equality of dicts, which ignores the order of keys.\<close>

primrec json_sort :: "json \<Rightarrow> json" where
  "json_sort JNull = JNull"
| "json_sort (JBool b) = JBool b"
| "json_sort (JInt n) = JInt n"
| "json_sort (JFloat s) = JFloat s"
| "json_sort (JStr s) = JStr s"
| "json_sort (JList xs) = JList (map json_sort xs)"
| "json_sort (JObj d) = JObj (sort_key fst (map (map_prod id json_sort) d))"

definition json_equal :: "json \<Rightarrow> json \<Rightarrow> bool" where
  "json_equal a b = (json_sort a = json_sort b)"

definition daemon_json_path :: "setup_context \<Rightarrow> string host_effect" where
  "daemon_json_path ctx = ebind (owner_user ctx) (\<lambda>user.
     ebind (eget (\<lambda>w. getpwnam (w_env w) user)) (\<lambda>entry.
       case entry of
         None \<Rightarrow> ethrow (''getpwnam(): name not found: '' @ py_repr user)
       | Some pw \<Rightarrow> eret (pw_dir pw @ ''/.config/docker/daemon.json'')))"

definition parse_doc :: "os_iface \<Rightarrow> string \<Rightarrow> string \<Rightarrow> string + (string, json) dict" where
  "parse_doc os path body =
     (if py_strip body = [] then Inr []
      else case os_json_loads os body of
             Inl exc \<Rightarrow> Inl exc
           | Inr (JObj d) \<Rightarrow> Inr d
           | Inr _ \<Rightarrow> Inl (''[FATAL] Sandbox Execution Fault: '' @ path @
               '' is not a JSON object; refusing to merge the reserved runtime key.''))"

definition read_doc :: "os_iface \<Rightarrow> string \<Rightarrow> (string, json) dict option host_effect" where
  "read_doc os path = ebind (read_file path) (\<lambda>content.
     case content of
       None \<Rightarrow> eret None
     | Some body \<Rightarrow> ebind (elift (parse_doc os path body)) (\<lambda>d. eret (Some d)))"

definition doc_runtimes :: "(string, json) dict \<Rightarrow> (string, json) dict" where
  "doc_runtimes doc = (case map_of doc ''runtimes'' of Some (JObj r) \<Rightarrow> r | _ \<Rightarrow> [])"

text \<open>\<open>None\<close> also for a JSON null, which Python reads as \<open>None\<close>.\<close>

definition observed_runtime :: "(string, json) dict \<Rightarrow> json option" where
  "observed_runtime doc =
     (case map_of (doc_runtimes doc) RESERVED_RUNTIME_KEY of Some JNull \<Rightarrow> None | r \<Rightarrow> r)"

definition runtime_registered :: "os_iface \<Rightarrow> setup_context \<Rightarrow> bool host_effect" where
  "runtime_registered os ctx =
     ask_owner os ctx (''docker info --format '' @ sq ''{{json .Runtimes}}'')
       (\<lambda>cp. sublist RESERVED_RUNTIME_KEY (stdout_of cp))"

definition l6_probe :: "os_iface \<Rightarrow> setup_context \<Rightarrow> (phase_result \<times> string) host_effect" where
  "l6_probe os ctx = ebind (missing_owner ctx) (\<lambda>gone.
     case gone of
       Some outcome \<Rightarrow> eret outcome
     | None \<Rightarrow>
         ebind (daemon_json_path ctx) (\<lambda>path.
         ebind (read_doc os path) (\<lambda>content.
           case content of
             None \<Rightarrow> eret (MISSING, path @ '' absent; will create with reserved key'')
           | Some doc \<Rightarrow>
               (case observed_runtime doc of
                  None \<Rightarrow> eret (MISSING, path @ '' present but reserved runtime key absent; will merge'')
                | Some observed \<Rightarrow>
                    if \<not> json_equal observed EXPECTED_RUNTIME then
                      eret (DRIFT, path @ '' reserved runtime key differs from expected; will converge'')
                    else ebind (runtime_registered os ctx) (\<lambda>loaded.
                      if \<not> loaded then eret (DRIFT, path @
                        '' has the reserved runtime key but docker has not loaded it; will restart + verify registration'')
                      else eret (ALREADY_CORRECT, ''reserved runtime key present and loaded by docker''))))))"

text \<open>Truncating in place keeps owner and mode of an existing file; a new one belongs to the writer.\<close>

definition write_inode_stable :: "os_iface \<Rightarrow> int \<times> int \<Rightarrow> string \<Rightarrow> string \<Rightarrow> unit host_effect" where
  "write_inode_stable os writer path body w =
     (case os_write_denied os path w of
        Some exc \<Rightarrow> (Inl exc, w)
      | None \<Rightarrow> (Inr (), put_file path
          (case w_files w path of
             FText _ m u g \<Rightarrow> FText body m u g
           | _ \<Rightarrow> FText body 420 (fst writer) (snd writer)) w))"

definition writer_ids :: "setup_context \<Rightarrow> host_world \<Rightarrow> int \<times> int" where
  "writer_ids ctx w =
     (if op_rootless ctx then
        (case getpwnam (w_env w) (ctx_operator ctx) of Some pw \<Rightarrow> (pw_uid pw, pw_gid pw) | None \<Rightarrow> (0, 0))
      else (0, 0))"

definition merge_runtime :: "(string, json) dict \<Rightarrow> (string, json) dict" where
  "merge_runtime doc =
     dict_set ''runtimes'' (JObj (dict_set RESERVED_RUNTIME_KEY EXPECTED_RUNTIME (doc_runtimes doc))) doc"

definition merged_text :: "os_iface \<Rightarrow> (string, json) dict \<Rightarrow> string" where
  "merged_text os doc = os_json_dumps os (json_sort (JObj (merge_runtime doc))) @ [newline]"

definition l6_merge_file :: "os_iface \<Rightarrow> setup_context \<Rightarrow> string \<Rightarrow> unit host_effect" where
  "l6_merge_file os ctx path = ebind (read_doc os path) (\<lambda>content.
     (let new_text = merged_text os (case content of None \<Rightarrow> [] | Some doc \<Rightarrow> doc) in
      ebind (read_file path) (\<lambda>old.
        if new_text \<noteq> (case old of None \<Rightarrow> [] | Some t \<Rightarrow> t) then
          ebind (eget (writer_ids ctx)) (\<lambda>writer. write_inode_stable os writer path new_text)
        else eret ())))"

definition l6_poll :: string where
  "l6_poll =
     ''for i in $(seq 1 30); do docker info --format '' @ sq ''{{json .Runtimes}}'' @ '' 2>/dev/null | grep -qF '' @
     RESERVED_RUNTIME_KEY @ '' && exit 0; sleep 1; done; exit 1''"

definition l6_restart_and_poll :: "os_iface \<Rightarrow> setup_context \<Rightarrow> unit host_effect" where
  "l6_restart_and_poll os ctx =
     ebind (ewhen (\<not> op_rootless ctx) (ebind (owner_user ctx) (\<lambda>user. wait_user_manager_ready os user 30))) (\<lambda>_.
     ebind (run_as_owner os ctx
       ''systemctl --user reset-failed docker.service; systemctl --user restart --no-block docker'') (\<lambda>_.
     ebind (run_as_owner os ctx l6_poll) (\<lambda>_. eret ())))"

definition l6_act :: "os_iface \<Rightarrow> setup_context \<Rightarrow> string host_effect" where
  "l6_act os ctx = ebind (daemon_json_path ctx) (\<lambda>path.
     ebind (l6_merge_file os ctx path) (\<lambda>_.
     ebind (l6_restart_and_poll os ctx) (\<lambda>_.
       eret ''reserved runtime key ensured; rootless docker restarted + runtime loaded'')))"

definition l6_reverify :: "os_iface \<Rightarrow> setup_context \<Rightarrow> bool host_effect" where
  "l6_reverify os ctx = ebind (daemon_json_path ctx) (\<lambda>path.
     ebind (read_doc os path) (\<lambda>content.
       case content of
         None \<Rightarrow> eret False
       | Some doc \<Rightarrow>
           (case observed_runtime doc of
              None \<Rightarrow> eret False
            | Some observed \<Rightarrow>
                if \<not> json_equal observed EXPECTED_RUNTIME then eret False else runtime_registered os ctx)))"

definition l6_phase :: "os_iface \<Rightarrow> host_world phase" where
  "l6_phase os =
     \<lparr>ph_id = ''l6'', ph_name = ''daemon.json reserved runtime key'', ph_identity = ROOT,
      ph_probe = l6_probe os, ph_act = l6_act os, ph_reverify = l6_reverify os,
      ph_depends_on = [''l5''], ph_rollback = None, ph_applies_in = both_modes\<rparr>"

section \<open>Lemmas\<close>

text \<open>The sort is stable, so that lookups do not see it.\<close>

lemma map_of_filter_key: "map_of (filter (\<lambda>p. fst p = k) d) k = map_of d k"
  by (induction d) auto

lemma map_of_sort_key: "map_of (sort_key fst d) k = map_of d k"
  using map_of_filter_key [of k "sort_key fst d"] map_of_filter_key [of k d] by (simp add: sort_key_stable)

lemma map_of_map_values: "map_of (map (map_prod id f) d) k = map_option f (map_of d k)"
  by (induction d) auto

definition sorted_values :: "(string, json) dict \<Rightarrow> (string, json) dict" where
  "sorted_values d = sort_key fst (map (map_prod id json_sort) d)"

lemma json_sort_JObj: "json_sort (JObj d) = JObj (sorted_values d)"
  by (simp add: sorted_values_def)

lemma map_of_sorted_values: "map_of (sorted_values d) k = map_option json_sort (map_of d k)"
  by (simp add: sorted_values_def map_of_sort_key map_of_map_values)

lemma expected_sorted: "json_sort EXPECTED_RUNTIME = EXPECTED_RUNTIME"
  by code_simp

text \<open>What belongs to the operator is the same in both documents, up to the order of keys.\<close>

definition same_operator_keys :: "(string, json) dict \<Rightarrow> (string, json) dict \<Rightarrow> bool" where
  "same_operator_keys doc doc' =
     ((\<forall>k. k \<noteq> ''runtimes'' \<longrightarrow> map_of doc' k = map_option json_sort (map_of doc k)) \<and>
      (\<forall>k. k \<noteq> RESERVED_RUNTIME_KEY \<longrightarrow>
        map_of (doc_runtimes doc') k = map_option json_sort (map_of (doc_runtimes doc) k)))"

lemma merged_runtimes:
  shows "map_of (doc_runtimes (sorted_values (merge_runtime doc))) k =
    (if k = RESERVED_RUNTIME_KEY then Some EXPECTED_RUNTIME else map_option json_sort (map_of (doc_runtimes doc) k))"
proof -
  let ?r = "dict_set RESERVED_RUNTIME_KEY EXPECTED_RUNTIME (doc_runtimes doc)"
  have "map_of (sorted_values (merge_runtime doc)) ''runtimes'' = Some (JObj (sorted_values ?r))"
    unfolding map_of_sorted_values
    by (simp add: merge_runtime_def map_of_dict_set json_sort_JObj del: json_sort.simps)
  then have "doc_runtimes (sorted_values (merge_runtime doc)) = sorted_values ?r"
    by (simp add: doc_runtimes_def)
  then show ?thesis
    by (simp add: map_of_sorted_values map_of_dict_set expected_sorted)
qed

lemma merged_others:
  "k \<noteq> ''runtimes'' \<Longrightarrow>
     map_of (sorted_values (merge_runtime doc)) k = map_option json_sort (map_of doc k)"
  by (simp add: map_of_sorted_values merge_runtime_def map_of_dict_set)

lemma merged_observed:
  "observed_runtime (sorted_values (merge_runtime doc)) = Some EXPECTED_RUNTIME"
  by (simp add: observed_runtime_def merged_runtimes) (simp add: EXPECTED_RUNTIME_def)

lemma merge_file_result:
  assumes read: "read_doc os path w = (Inr content, w)"
    and "os_write_denied os path w = None"
  defines "body \<equiv> merged_text os (case content of None \<Rightarrow> [] | Some d \<Rightarrow> d)"
  shows "fst (l6_merge_file os ctx path w) = Inr ()"
    and "\<exists>m u g. w_files (snd (l6_merge_file os ctx path w)) path = FText body m u g"
    and "\<And>p. p \<noteq> path \<Longrightarrow> w_files (snd (l6_merge_file os ctx path w)) p = w_files w p"
proof -
  have "w_files w path = FAbsent \<and> content = None \<or> (\<exists>t m u g. w_files w path = FText t m u g)"
    using read by (auto simp: read_doc_def read_file_def ebind_def split: file_state.splits)
  moreover have "body \<noteq> []" by (simp add: body_def merged_text_def)
  ultimately show "fst (l6_merge_file os ctx path w) = Inr ()"
    "\<exists>m u g. w_files (snd (l6_merge_file os ctx path w)) path = FText body m u g"
    "\<And>p. p \<noteq> path \<Longrightarrow> w_files (snd (l6_merge_file os ctx path w)) p = w_files w p"
    using assms(2) unfolding l6_merge_file_def ebind_def read
    by (auto simp: read_file_def Let_def write_inode_stable_def body_def)
qed

section \<open>Properties\<close>

text \<open>setup touches nothing but its own key of daemon.json. On any document, an absent or empty file
  included, the merge succeeds, leaves every other file alone, and a reader finds afterwards the expected runtime
  under the reserved key while every other key and every other runtime is as it was. The merged
  document is assumed to read back as it was printed.\<close>

theorem daemon_json_merge:
  assumes read: "read_doc os path w = (Inr content, w)"
    and doc: "doc = (case content of None \<Rightarrow> [] | Some d \<Rightarrow> d)"
    and writable: "os_write_denied os path w = None"
    and printed: "os_json_loads os (merged_text os doc) = Inr (json_sort (JObj (merge_runtime doc)))"
      "py_strip (merged_text os doc) \<noteq> []"
    and final: "l6_merge_file os ctx path w = (r, w')"
  shows "r = Inr () \<and> (\<forall>p. p \<noteq> path \<longrightarrow> w_files w' p = w_files w p) \<and>
    (\<exists>doc'. read_doc os path w' = (Inr (Some doc'), w') \<and> observed_runtime doc' = Some EXPECTED_RUNTIME \<and>
      same_operator_keys doc doc')"
proof -
  note m = merge_file_result [OF read writable, where ctx = ctx, folded doc, unfolded final fst_conv snd_conv]
  obtain mo u g where f: "w_files w' path = FText (merged_text os doc) mo u g" using m(2) by blast
  have "read_doc os path w' = (Inr (Some (sorted_values (merge_runtime doc))), w')"
    using printed by (simp add: read_doc_def ebind_def read_file_eq [OF f] parse_doc_def json_sort_JObj elift_def del: json_sort.simps)
  moreover have "same_operator_keys doc (sorted_values (merge_runtime doc))"
    by (simp add: same_operator_keys_def merged_others merged_runtimes)
  ultimately show ?thesis using m merged_observed by blast
qed


definition sample_doc :: "(string, json) dict" where
  "sample_doc = [(''log-driver'', JStr ''local'')]"

definition merge_os :: os_iface where
  "merge_os = silent_os\<lparr>os_json_dumps := (\<lambda>_. ''{..}''),
     os_json_loads := (\<lambda>t. if t = ''{}'' then Inr (JObj sample_doc) else Inr (json_sort (JObj (merge_runtime sample_doc))))\<rparr>"

definition merge_host :: host_world where
  "merge_host = put_file ''/d.json'' (FText ''{}'' 384 5 5) empty_host"

theorem daemon_json_merge_witness:
  "\<exists>doc'. read_doc merge_os ''/d.json'' (snd (l6_merge_file merge_os sample_ctx ''/d.json'' merge_host)) =
      (Inr (Some doc'), snd (l6_merge_file merge_os sample_ctx ''/d.json'' merge_host)) \<and>
    observed_runtime doc' = Some EXPECTED_RUNTIME \<and> map_of doc' ''log-driver'' = Some (JStr ''local'')"
proof -
  have blank: "py_strip ''{}'' \<noteq> []" by code_simp
  have f0: "w_files merge_host ''/d.json'' = FText ''{}'' 384 5 5" by (simp add: merge_host_def)
  have read: "read_doc merge_os ''/d.json'' merge_host = (Inr (Some sample_doc), merge_host)"
    by (simp add: read_doc_def ebind_def read_file_eq [OF f0] parse_doc_def blank elift_def) (simp add: merge_os_def)
  have writable: "os_write_denied merge_os ''/d.json'' merge_host = None"
    by (simp add: merge_os_def silent_os_def)
  have body: "merged_text merge_os sample_doc = ''{..}'' @ [newline]" by (simp add: merged_text_def merge_os_def)
  have loads: "os_json_loads merge_os (merged_text merge_os sample_doc) = Inr (json_sort (JObj (merge_runtime sample_doc)))"
    unfolding body by (simp add: merge_os_def del: json_sort.simps)
  have strip: "py_strip (merged_text merge_os sample_doc) \<noteq> []"
    unfolding body by code_simp
  obtain r w' where final: "l6_merge_file merge_os sample_ctx ''/d.json'' merge_host = (r, w')" by fastforce
  obtain doc' where d: "read_doc merge_os ''/d.json'' w' = (Inr (Some doc'), w')" "observed_runtime doc' = Some EXPECTED_RUNTIME"
    "same_operator_keys sample_doc doc'"
    using daemon_json_merge [OF read _ writable loads strip final] by auto
  have "map_of doc' ''log-driver'' = Some (JStr ''local'')"
    using d(3) by (simp add: same_operator_keys_def sample_doc_def)
  with d final show ?thesis by auto
qed

end
