(* ===== verification/Dispatcher_Install.thy ===== *)
theory Dispatcher_Install
  imports Daemon_Phases
begin

text \<open>
  The phases \<open>l65_dispatcher.py\<close> (compile, install and record the dispatcher) and \<open>l7_helper_image.py\<close> (pull the
  helper image) under \<open>src/src/core/setup\<close>. The source tree of the dispatcher, its encoding and the base64 decoder are
  arguments.
\<close>

section \<open>L6.5: the manifest\<close>

datatype resource = RFile string | RDir "(string \<times> resource) list"

definition DISPATCH_SOURCE_ENTRIES :: "string list" where
  "DISPATCH_SOURCE_ENTRIES = [''main.go'', ''main_test.go'', ''go.mod'', ''go.sum'', ''vendor'', ''fixtures'']"

record dispatch_build =
  db_tree :: "(string \<times> resource) list"
  db_source_b64 :: string
  db_b64decode :: "string \<Rightarrow> string option"

definition TARGET :: string where
  "TARGET = ''/usr/local/libexec/sandbox-ai/dispatch''"

definition STAGING :: string where
  "STAGING = ''/usr/local/libexec/sandbox-ai/.dispatch.staging''"

definition manifest_path :: string where
  "manifest_path = ''/usr/local/libexec/sandbox-ai/dispatcher.manifest.json''"

fun collect_files :: "resource \<Rightarrow> string \<Rightarrow> (string, string) dict \<Rightarrow> (string, string) dict"
  and collect_children :: "(string \<times> resource) list \<Rightarrow> string \<Rightarrow> (string, string) dict \<Rightarrow> (string, string) dict" where
  "collect_files (RFile body) rel into = dict_set rel body into"
| "collect_files (RDir children) rel into = collect_children children rel into"
| "collect_children [] rel into = into"
| "collect_children ((name, node) # rest) rel into =
     collect_children rest rel (collect_files node (rel @ ''/'' @ name) into)"

text \<open>An entry that the tree lacks is read like a file that does not exist.\<close>

fun collect_entries :: "(string \<times> resource) list \<Rightarrow> string list \<Rightarrow> (string, string) dict \<Rightarrow> string + (string, string) dict" where
  "collect_entries tree [] into = Inr into"
| "collect_entries tree (entry # rest) into =
     (case map_of tree entry of
        None \<Rightarrow> Inl ''No such file or directory''
      | Some node \<Rightarrow> collect_entries tree rest (collect_files node entry into))"

definition bundle_bytes :: "(string, string) dict \<Rightarrow> string" where
  "bundle_bytes files = concat (map snd (sort_key fst files))"

definition source_bundle_sha512 :: "os_iface \<Rightarrow> dispatch_build \<Rightarrow> string + string" where
  "source_bundle_sha512 os bld =
     (case collect_entries (db_tree bld) DISPATCH_SOURCE_ENTRIES [] of
        Inl exc \<Rightarrow> Inl exc
      | Inr files \<Rightarrow> Inr (os_sha512 os (bundle_bytes files)))"

definition read_manifest :: "os_iface \<Rightarrow> (string, string) dict option host_effect" where
  "read_manifest os = ebind (read_file manifest_path) (\<lambda>content.
     case content of
       None \<Rightarrow> eret None
     | Some body \<Rightarrow> ebind (elift (os_json_loads os body)) (\<lambda>parsed.
         eret (case parsed of JObj d \<Rightarrow> Some (str_fields d) | _ \<Rightarrow> None)))"

definition manifest_matches :: "(string, string) dict \<Rightarrow> string \<Rightarrow> string \<Rightarrow> bool" where
  "manifest_matches m binary_sha source_sha =
     (map_of m ''compiled_sha512'' = Some binary_sha \<and> map_of m ''source_bundle_sha512'' = Some source_sha)"

text \<open>The source bundle is hashed only once the manifest's other entry agrees.\<close>

definition manifest_current :: "os_iface \<Rightarrow> dispatch_build \<Rightarrow> (string, string) dict \<Rightarrow> string \<Rightarrow> bool host_effect" where
  "manifest_current os bld m binary_sha =
     (if map_of m ''compiled_sha512'' \<noteq> Some binary_sha then eret False
      else ebind (elift (source_bundle_sha512 os bld)) (\<lambda>source_sha.
        eret (manifest_matches m binary_sha source_sha)))"

definition l65_probe :: "os_iface \<Rightarrow> dispatch_build \<Rightarrow> setup_context \<Rightarrow> (phase_result \<times> string) host_effect" where
  "l65_probe os bld ctx = ebind (read_manifest os) (\<lambda>manifest.
     case manifest of
       None \<Rightarrow> eret (MISSING, ''dispatcher manifest absent; will compile + install + record'')
     | Some m \<Rightarrow>
         ebind (file_sha512 os TARGET) (\<lambda>binary.
           case binary of
             None \<Rightarrow> eret (MISSING, TARGET @ '' absent though manifest exists; will recompile'')
           | Some binary_sha \<Rightarrow>
               ebind (elift (source_bundle_sha512 os bld)) (\<lambda>source_sha.
                 if manifest_matches m binary_sha source_sha then
                   eret (ALREADY_CORRECT, ''dispatcher binary + source bundle match the manifest'')
                 else eret (DRIFT, ''dispatcher binary or source bundle drifted from the manifest; '' @
                   ''will recompile + reinstall + update manifest''))))"

definition manifest_doc :: "os_iface \<Rightarrow> string \<Rightarrow> string \<Rightarrow> json" where
  "manifest_doc os compiled_sha source_sha = json_sort (JObj
     [(''compiled_sha512'', JStr compiled_sha), (''source_bundle_sha512'', JStr source_sha),
      (''compile_timestamp'', JStr (os_now os))])"

definition write_manifest :: "os_iface \<Rightarrow> string \<Rightarrow> string \<Rightarrow> unit host_effect" where
  "write_manifest os compiled_sha source_sha =
     write_root_file os manifest_path (os_json_dumps os (manifest_doc os compiled_sha source_sha) @ [newline]) 420"

definition install_compiled :: "os_iface \<Rightarrow> string \<Rightarrow> unit host_effect" where
  "install_compiled os staging =
     ebind (chmod_chown_root staging 493) (\<lambda>_.
     ebind (eget (path_present TARGET)) (\<lambda>present.
     ebind (ewhen present (chattr os ''-i'' TARGET)) (\<lambda>_.
     ebind (rename_file os staging TARGET) (\<lambda>_. chattr os ''+i'' TARGET))))"

text \<open>\<open>compile_dispatcher\<close>: the recipe runs in the session of the daemon owner and prints the binary.\<close>

definition compile_to :: "os_iface \<Rightarrow> dispatch_build \<Rightarrow> setup_context \<Rightarrow> string \<Rightarrow> unit host_effect" where
  "compile_to os bld ctx output_path =
     ebind (daemon_owner_of ctx) (\<lambda>user.
     ebind (exec_run os (run_opts False False) (pipe_cmd user @ [''/bin/bash'', ''-c'',
         compile_payload (pinned (the (map_of IMAGE_REGISTRY ''golang_alpine''))) (db_source_b64 bld)])) (\<lambda>cp.
     case db_b64decode bld (py_strip (stdout_of cp)) of
       None \<Rightarrow> ethrow ''binascii.Error''
     | Some binary \<Rightarrow> ebind (write_bytes os output_path binary) (\<lambda>_. chmod_chown_root output_path 493)))"

definition compile_tmp :: "os_iface \<Rightarrow> string" where
  "compile_tmp os = ''/usr/local/libexec/sandbox-ai/.dispatch.compile.'' @ os_token os"

definition l65_build :: "os_iface \<Rightarrow> dispatch_build \<Rightarrow> setup_context \<Rightarrow> unit host_effect" where
  "l65_build os bld ctx =
     ebind (write_root_file os (compile_tmp os) [] 384) (\<lambda>_.
     efinally (ebind (compile_to os bld ctx (compile_tmp os)) (\<lambda>_. rename_file os (compile_tmp os) STAGING))
       (unlink_missing_ok os (compile_tmp os)))"

definition l65_record :: "os_iface \<Rightarrow> dispatch_build \<Rightarrow> unit host_effect" where
  "l65_record os bld = ebind (file_sha512 os TARGET) (\<lambda>compiled.
     case compiled of
       None \<Rightarrow> ethrow (''[FATAL] Sandbox Execution Fault: dispatcher missing at '' @ TARGET @
         '' after install; refusing to record manifest.'')
     | Some compiled_sha \<Rightarrow>
         ebind (elift (source_bundle_sha512 os bld)) (\<lambda>source_sha. write_manifest os compiled_sha source_sha))"

definition l65_act :: "os_iface \<Rightarrow> dispatch_build \<Rightarrow> setup_context \<Rightarrow> string host_effect" where
  "l65_act os bld ctx =
     ebind (l65_build os bld ctx) (\<lambda>_.
     ebind (efinally (install_compiled os STAGING) (unlink_missing_ok os STAGING)) (\<lambda>_.
     ebind (l65_record os bld) (\<lambda>_.
       eret (''dispatcher compiled + installed at '' @ TARGET @ ''; manifest recorded''))))"

definition l65_reverify :: "os_iface \<Rightarrow> dispatch_build \<Rightarrow> setup_context \<Rightarrow> bool host_effect" where
  "l65_reverify os bld ctx = ebind (read_manifest os) (\<lambda>manifest.
     case manifest of
       None \<Rightarrow> eret False
     | Some m \<Rightarrow>
         ebind (file_sha512 os TARGET) (\<lambda>binary.
           case binary of None \<Rightarrow> eret False | Some binary_sha \<Rightarrow> manifest_current os bld m binary_sha))"

definition l65_phase :: "os_iface \<Rightarrow> dispatch_build \<Rightarrow> host_world phase" where
  "l65_phase os bld =
     \<lparr>ph_id = ''l65'', ph_name = ''dispatcher install (offline reproducible compile)'', ph_identity = ROOT,
      ph_probe = l65_probe os bld, ph_act = l65_act os bld, ph_reverify = l65_reverify os bld,
      ph_depends_on = [''l6a''], ph_rollback = None, ph_applies_in = [SEPARATE_USER]\<rparr>"

section \<open>L7: the helper image\<close>

definition HELPER_PIN :: image_pin where
  "HELPER_PIN = the (map_of IMAGE_REGISTRY ''busybox_musl'')"

definition HELPER_REF :: string where
  "HELPER_REF = pinned HELPER_PIN"

definition HELPER_TAGGED :: string where
  "HELPER_TAGGED = tagged HELPER_PIN"

definition ref_present :: "os_iface \<Rightarrow> setup_context \<Rightarrow> string \<Rightarrow> bool host_effect" where
  "ref_present os ctx img = ask_owner os ctx (''docker image inspect '' @ img) (\<lambda>_. True)"

definition l7_probe :: "os_iface \<Rightarrow> setup_context \<Rightarrow> (phase_result \<times> string) host_effect" where
  "l7_probe os ctx = ebind (ref_present os ctx HELPER_REF) (\<lambda>cached.
     if cached then eret (ALREADY_CORRECT, ''helper image '' @ HELPER_REF @ '' already cached'')
     else ebind (ref_present os ctx HELPER_TAGGED) (\<lambda>moved.
       if moved then eret (DRIFT, HELPER_TAGGED @ '' present but not at the pinned digest '' @ HELPER_REF @
         ''; will re-pull the pinned digest'')
       else eret (MISSING, ''helper image '' @ HELPER_REF @ '' not cached; will pull'')))"

definition l7_act :: "os_iface \<Rightarrow> setup_context \<Rightarrow> string host_effect" where
  "l7_act os ctx = ebind (run_as_owner os ctx (''docker pull '' @ HELPER_REF)) (\<lambda>_.
     eret (''helper image '' @ HELPER_REF @ '' pulled''))"

definition l7_reverify :: "os_iface \<Rightarrow> setup_context \<Rightarrow> bool host_effect" where
  "l7_reverify os ctx = ref_present os ctx HELPER_REF"

definition l7_phase :: "os_iface \<Rightarrow> host_world phase" where
  "l7_phase os =
     \<lparr>ph_id = ''l7'', ph_name = ''helper image pre-pull (busybox-musl pinned digest)'', ph_identity = SANDBOX,
      ph_probe = l7_probe os, ph_act = l7_act os, ph_reverify = l7_reverify os,
      ph_depends_on = [''l65''], ph_rollback = None, ph_applies_in = both_modes\<rparr>"

section \<open>Lemmas\<close>

lemma manifest_fields:
  "manifest_doc os c s = JObj [(''compile_timestamp'', JStr (os_now os)), (''compiled_sha512'', JStr c),
     (''source_bundle_sha512'', JStr s)]"
  by (simp add: manifest_doc_def)

lemma source_bundle_Inr: "source_bundle_sha512 os bld = Inr s \<Longrightarrow> \<exists>body. s = os_sha512 os body"
  by (auto simp: source_bundle_sha512_def split: sum.splits)

lemma write_root_file_Inr:
  "write_root_file os path body mode w = (Inr u, w') \<Longrightarrow> w' = put_file path (FText body mode 0 0) w"
  by (auto simp: write_root_file_def split: option.splits)

lemma l65_record_Inr:
  assumes "l65_record os bld w = (Inr u, w')"
  obtains body m o1 g src where "w_files w TARGET = FText body m o1 g" and "source_bundle_sha512 os bld = Inr src"
    and "w' = put_file manifest_path
      (FText (os_json_dumps os (manifest_doc os (os_sha512 os body) src) @ [newline]) 420 0 0) w"
  using assms
  by (auto simp: l65_record_def ebind_Inr_iff file_sha512_Inr write_manifest_def elift_def
      dest!: write_root_file_Inr split: option.splits sum.splits)

section \<open>Properties\<close>

text \<open>Claim C21: an installed dispatcher is not compiled again. When the compile phase ends without exception, in
  whatever state the host was, the check after it confirms the manifest, and the next setup finds binary and sources
  as recorded and does nothing. Manifests are assumed to read back as they were printed.\<close>

theorem dispatcher_install_recorded:
  assumes act: "l65_act os bld ctx w = (Inr detail, w')"
    and roundtrip: "\<And>a b. os_json_loads os (os_json_dumps os (manifest_doc os (os_sha512 os a) (os_sha512 os b)) @ [newline]) =
      Inr (manifest_doc os (os_sha512 os a) (os_sha512 os b))"
  shows "l65_reverify os bld ctx w' = (Inr True, w') \<and> (\<exists>d. l65_probe os bld ctx w' = (Inr (ALREADY_CORRECT, d), w'))"
proof -
  obtain w1 where "l65_record os bld w1 = (Inr (), w')"
    using act by (auto simp: l65_act_def ebind_Inr_iff)
  then obtain body m u g src where target: "w_files w1 TARGET = FText body m u g"
    and src: "source_bundle_sha512 os bld = Inr src"
    and w': "w' = put_file manifest_path
      (FText (os_json_dumps os (manifest_doc os (os_sha512 os body) src) @ [newline]) 420 0 0) w1"
    by (rule l65_record_Inr)
  obtain b where b: "src = os_sha512 os b" using source_bundle_Inr [OF src] by blast
  have t: "w_files w' TARGET = FText body m u g"
    using target by (simp add: w' TARGET_def manifest_path_def)
  have sha: "file_sha512 os TARGET w' = (Inr (Some (os_sha512 os body)), w')"
    by (simp add: file_sha512_def ebind_def read_file_eq [OF t])
  define mf where "mf = str_fields [(''compile_timestamp'', JStr (os_now os)), (''compiled_sha512'', JStr (os_sha512 os body)),
     (''source_bundle_sha512'', JStr src)]"
  have read: "read_manifest os w' = (Inr (Some mf), w')"
    using roundtrip [of body b] by (simp add: read_manifest_def ebind_def w' b elift_def manifest_fields mf_def)
  have ok: "manifest_matches mf (os_sha512 os body) src"
    by (simp add: mf_def manifest_matches_def str_fields_def map_filter_simps)
  then have part: "map_of mf ''compiled_sha512'' = Some (os_sha512 os body)" by (simp add: manifest_matches_def)
  have "l65_reverify os bld ctx w' = (Inr True, w')"
    by (simp add: l65_reverify_def ebind_def read sha manifest_current_def part src ok elift_def)
  moreover have "\<exists>d. l65_probe os bld ctx w' = (Inr (ALREADY_CORRECT, d), w')"
    by (simp add: l65_probe_def ebind_def read sha src ok elift_def)
  ultimately show ?thesis by blast
qed

definition build_os :: os_iface where
  "build_os = silent_os\<lparr>os_spawn := (\<lambda>_ _ _ w. (Completed 0 (Some ''ZWxm'') (Some []), w)), os_json_dumps := (\<lambda>_. ''{..}''),
     os_sha512 := (\<lambda>_. ''ab''), os_json_loads := (\<lambda>_. Inr (manifest_doc silent_os ''ab'' ''ab''))\<rparr>"

definition sample_build :: dispatch_build where
  "sample_build = \<lparr>db_tree = map (\<lambda>e. (e, RDir [(''f'', RFile ''package'')])) DISPATCH_SOURCE_ENTRIES,
     db_source_b64 = ''H4sI'', db_b64decode = (\<lambda>_. Some ''elf'')\<rparr>"

definition build_ctx :: setup_context where
  "build_ctx = sample_ctx\<lparr>ctx_host := \<lparr>docker_unprivileged_user = Some ''sb'', docker_execution_mode = SEPARATE_USER,
     workspace_bridge_group = ''sb-ws''\<rparr>\<rparr>"

theorem dispatcher_install_recorded_witness:
  "fst (l65_reverify build_os sample_build build_ctx (snd (l65_act build_os sample_build build_ctx empty_host))) = Inr True"
proof -
  have "fst (l65_act build_os sample_build build_ctx empty_host) =
      Inr (''dispatcher compiled + installed at '' @ TARGET @ ''; manifest recorded'')"
    by code_simp
  then have act: "l65_act build_os sample_build build_ctx empty_host =
      (Inr (''dispatcher compiled + installed at '' @ TARGET @ ''; manifest recorded''),
       snd (l65_act build_os sample_build build_ctx empty_host))"
    by (metis prod.collapse)
  have roundtrip: "os_json_loads build_os (os_json_dumps build_os (manifest_doc build_os (os_sha512 build_os a) (os_sha512 build_os b)) @ [newline]) =
      Inr (manifest_doc build_os (os_sha512 build_os a) (os_sha512 build_os b))" for a b
    by (simp add: manifest_fields build_os_def silent_os_def)
  show ?thesis using dispatcher_install_recorded [OF act roundtrip] by (metis fst_conv)
qed

end
