(* ===== verification/Setup_State.thy ===== *)
theory Setup_State
  imports Daemon_Phases
begin

text \<open>
  The execution-mode marker of \<open>src/src/core/setup_state.py\<close>: a JSON document with one entry per operator. Reading
  any document is modelled, hand-edited ones included; the exceptions Python raises on a value of the wrong shape are
  named by their class.
\<close>

section \<open>Reading\<close>

definition MARKER_PATH :: string where
  "MARKER_PATH = ''/usr/local/libexec/sandbox-ai/setup-state.json''"

text \<open>An entry; \<open>JNull\<close> stands for Python's \<open>None\<close>.\<close>

record marker_entry =
  me_mode :: docker_execution_mode
  me_group :: json
  me_gid :: json
  me_user :: json

definition load_marker :: "os_iface \<Rightarrow> json option host_effect" where
  "load_marker os = ebind (read_file MARKER_PATH) (\<lambda>content.
     case content of
       None \<Rightarrow> eret None
     | Some raw \<Rightarrow> ebind (elift (os_json_loads os raw)) (\<lambda>data. eret (Some data)))"

text \<open>\<open>data.get("operators", {}).get(operator)\<close>\<close>

definition marker_lookup :: "json \<Rightarrow> string \<Rightarrow> string + json option" where
  "marker_lookup data operator =
     (case data of
        JObj d \<Rightarrow>
          (case map_of d ''operators'' of
             None \<Rightarrow> Inr None
           | Some (JObj ops) \<Rightarrow> Inr (case map_of ops operator of Some JNull \<Rightarrow> None | e \<Rightarrow> e)
           | Some _ \<Rightarrow> Inl ''AttributeError'')
      | _ \<Rightarrow> Inl ''AttributeError'')"

text \<open>\<open>entry[key]\<close> and \<open>key in entry\<close> for a string key.\<close>

definition json_item :: "json \<Rightarrow> string \<Rightarrow> string + json" where
  "json_item entry key =
     (case entry of
        JObj d \<Rightarrow> (case map_of d key of None \<Rightarrow> Inl ''KeyError'' | Some v \<Rightarrow> Inr v)
      | _ \<Rightarrow> Inl ''TypeError'')"

definition json_has :: "json \<Rightarrow> string \<Rightarrow> string + bool" where
  "json_has entry key =
     (case entry of
        JObj d \<Rightarrow> Inr (map_of d key \<noteq> None)
      | JStr s \<Rightarrow> Inr (py_contains key s)
      | JList xs \<Rightarrow> Inr (JStr key \<in> set xs)
      | _ \<Rightarrow> Inl ''TypeError'')"

definition mode_of_json :: "json \<Rightarrow> string + docker_execution_mode" where
  "mode_of_json v =
     (if v = JStr (mode_value SEPARATE_USER) then Inr SEPARATE_USER
      else if v = JStr (mode_value OPERATOR_ROOTLESS) then Inr OPERATOR_ROOTLESS
      else Inl ''ValueError'')"

definition entry_mode :: "json \<Rightarrow> string + docker_execution_mode" where
  "entry_mode entry = bindE (json_item entry ''mode'') mode_of_json"

definition read_mode :: "os_iface \<Rightarrow> string \<Rightarrow> docker_execution_mode option host_effect" where
  "read_mode os operator = ebind (load_marker os) (\<lambda>data.
     case data of
       None \<Rightarrow> eret None
     | Some d \<Rightarrow> elift (bindE (marker_lookup d operator) (\<lambda>entry.
         case entry of None \<Rightarrow> Inr None | Some e \<Rightarrow> bindE (entry_mode e) (\<lambda>m. Inr (Some m)))))"

definition marker_entry_of :: "json \<Rightarrow> string + marker_entry option" where
  "marker_entry_of entry =
     bindE (json_has entry ''workspace_bridge_group'') (\<lambda>g.
     if \<not> g then Inr None
     else bindE (json_has entry ''workspace_bridge_gid'') (\<lambda>i.
     if \<not> i then Inr None
     else bindE (entry_mode entry) (\<lambda>m.
          bindE (json_item entry ''workspace_bridge_group'') (\<lambda>grp.
          bindE (json_item entry ''workspace_bridge_gid'') (\<lambda>gid.
          Inr (Some \<lparr>me_mode = m, me_group = grp, me_gid = gid,
            me_user = (case json_item entry ''docker_unprivileged_user'' of Inl _ \<Rightarrow> JNull | Inr v \<Rightarrow> v)\<rparr>))))))"

definition read_entry :: "os_iface \<Rightarrow> string \<Rightarrow> marker_entry option host_effect" where
  "read_entry os operator = ebind (load_marker os) (\<lambda>data.
     case data of
       None \<Rightarrow> eret None
     | Some d \<Rightarrow> elift (bindE (marker_lookup d operator) (\<lambda>entry.
         case entry of None \<Rightarrow> Inr None | Some e \<Rightarrow> marker_entry_of e)))"

definition resolve_execution_mode :: "os_iface \<Rightarrow> string \<Rightarrow> docker_execution_mode host_effect" where
  "resolve_execution_mode os operator = ebind (read_mode os operator) (\<lambda>mode.
     case mode of
       None \<Rightarrow> ethrow (''no execution mode recorded for operator '' @ py_repr operator @ ''. Run `sudo sandbox setup` first.'')
     | Some m \<Rightarrow> eret m)"

text \<open>\<open>HostConfig.from_marker\<close>. The validation of \<open>HostSettings\<close> rejects what is no text.\<close>

definition settings_of_entry :: "marker_entry \<Rightarrow> string + host_settings" where
  "settings_of_entry e =
     (case (me_user e, me_group e) of
        (JNull, JStr g) \<Rightarrow>
          map_sum host_error_text id (validate_docker_unprivileged_user
            \<lparr>docker_unprivileged_user = None, docker_execution_mode = me_mode e, workspace_bridge_group = g\<rparr>)
      | (JStr u, JStr g) \<Rightarrow>
          map_sum host_error_text id (validate_docker_unprivileged_user
            \<lparr>docker_unprivileged_user = Some u, docker_execution_mode = me_mode e, workspace_bridge_group = g\<rparr>)
      | _ \<Rightarrow> Inl ''ValidationError'')"

definition from_marker :: "os_iface \<Rightarrow> string \<Rightarrow> host_settings host_effect" where
  "from_marker os operator = ebind (read_entry os operator) (\<lambda>entry.
     case entry of
       None \<Rightarrow> ethrow (''no setup-state entry for operator '' @ py_repr operator @ ''. Run `sudo sandbox setup` first.'')
     | Some e \<Rightarrow> elift (settings_of_entry e))"

section \<open>Writing\<close>

definition entry_json :: "docker_execution_mode \<Rightarrow> string \<Rightarrow> int \<Rightarrow> string option \<Rightarrow> json" where
  "entry_json mode grp gid user = JObj
     ([(''mode'', JStr (mode_value mode)), (''workspace_bridge_group'', JStr grp), (''workspace_bridge_gid'', JInt gid)] @
      (case user of None \<Rightarrow> [] | Some u \<Rightarrow> [(''docker_unprivileged_user'', JStr u)]))"

definition merge_marker :: "string \<Rightarrow> json \<Rightarrow> json option \<Rightarrow> string + (string, json) dict" where
  "merge_marker operator entry data =
     (case data of
        None \<Rightarrow> Inr [(''operators'', JObj [(operator, entry)])]
      | Some (JObj d) \<Rightarrow>
          (case map_of d ''operators'' of
             None \<Rightarrow> Inr (dict_set ''operators'' (JObj [(operator, entry)]) d)
           | Some (JObj ops) \<Rightarrow> Inr (dict_set ''operators'' (JObj (dict_set operator entry ops)) d)
           | Some _ \<Rightarrow> Inl (''[FATAL] Sandbox Execution Fault: '' @ MARKER_PATH @ '' has a non-object '' @ sq ''operators'' @
               '' field; refusing to overwrite a malformed mode marker.''))
      | Some _ \<Rightarrow> Inl (''[FATAL] Sandbox Execution Fault: '' @ MARKER_PATH @
          '' is not a JSON object; refusing to overwrite a malformed mode marker.''))"

text \<open>The temporary file of the atomic write, removed when the write fails.\<close>

definition marker_tmp :: "os_iface \<Rightarrow> string" where
  "marker_tmp os = ''/usr/local/libexec/sandbox-ai/.setup-state-'' @ os_token os @ ''.tmp''"

definition replace_marker :: "os_iface \<Rightarrow> int \<times> int \<Rightarrow> string \<Rightarrow> unit host_effect" where
  "replace_marker os writer body w =
     (case os_write_denied os (marker_tmp os) w of
        Some exc \<Rightarrow> (Inl exc, w)
      | None \<Rightarrow>
          (let w1 = put_file (marker_tmp os) (FText body 420 (fst writer) (snd writer)) w in
           case rename_file os (marker_tmp os) MARKER_PATH w1 of
             (Inl exc, w2) \<Rightarrow> (Inl exc, put_file (marker_tmp os) FAbsent w2)
           | (Inr u, w2) \<Rightarrow> (Inr u, w2)))"

definition write_mode ::
  "os_iface \<Rightarrow> int \<times> int \<Rightarrow> string \<Rightarrow> docker_execution_mode \<Rightarrow> string \<Rightarrow> int \<Rightarrow> string option \<Rightarrow> unit host_effect" where
  "write_mode os writer operator mode grp gid user = ebind (load_marker os) (\<lambda>data.
     ebind (elift (merge_marker operator (entry_json mode grp gid user) data)) (\<lambda>merged.
     replace_marker os writer (os_json_dumps os (json_sort (JObj merged)) @ [newline])))"

definition write_mode_root_owned ::
  "os_iface \<Rightarrow> string \<Rightarrow> docker_execution_mode \<Rightarrow> string \<Rightarrow> int \<Rightarrow> string option \<Rightarrow> unit host_effect" where
  "write_mode_root_owned os operator mode grp gid user =
     ebind (write_mode os (0, 0) operator mode grp gid user) (\<lambda>_. chmod_chown_root MARKER_PATH 420)"

section \<open>Lemmas\<close>

lemma mode_of_json_value [simp]: "mode_of_json (JStr (mode_value m)) = Inr m"
  by (cases m) (simp_all add: mode_of_json_def mode_value_def)

lemma mode_of_json_sort [simp]: "mode_of_json (json_sort v) = mode_of_json v"
  by (cases v) (simp_all add: mode_of_json_def)

lemma json_item_sort: "json_item (json_sort e) key = map_sum id json_sort (json_item e key)"
  by (cases e) (simp_all add: json_item_def json_sort_JObj map_of_sorted_values del: json_sort.simps(7) split: option.split)

lemma entry_mode_sort [simp]: "entry_mode (json_sort e) = entry_mode e"
  by (cases "json_item e ''mode''") (simp_all add: entry_mode_def json_item_sort)

lemma json_sort_JNull [simp]: "json_sort v = JNull \<longleftrightarrow> v = JNull"
  by (cases v) simp_all

lemma entry_json_fields:
  "json_item (entry_json m g i u) ''mode'' = Inr (JStr (mode_value m))"
  "json_item (entry_json m g i u) ''workspace_bridge_group'' = Inr (JStr g)"
  "json_item (entry_json m g i u) ''workspace_bridge_gid'' = Inr (JInt i)"
  "json_item (entry_json m g i u) ''docker_unprivileged_user'' =
     (case u of None \<Rightarrow> Inl ''KeyError'' | Some s \<Rightarrow> Inr (JStr s))"
  by (cases u; simp add: json_item_def entry_json_def)+

lemma json_has_item: "e = JObj d \<Longrightarrow> json_has e k = Inr (case json_item e k of Inl _ \<Rightarrow> False | Inr _ \<Rightarrow> True)"
  by (cases "map_of d k") (simp_all add: json_has_def json_item_def)

lemma marker_entry_of_written:
  "marker_entry_of (json_sort (entry_json m g i u)) = Inr (Some \<lparr>me_mode = m, me_group = JStr g, me_gid = JInt i,
     me_user = (case u of None \<Rightarrow> JNull | Some s \<Rightarrow> JStr s)\<rparr>)"
proof -
  obtain d where d: "json_sort (entry_json m g i u) = JObj d" by (cases u) (auto simp: entry_json_def)
  have f: "json_has (json_sort (entry_json m g i u)) k =
      Inr (case json_item (entry_json m g i u) k of Inl _ \<Rightarrow> False | Inr _ \<Rightarrow> True)" for k
    using json_has_item [OF d, of k] json_item_sort [of "entry_json m g i u" k]
    by (cases "json_item (entry_json m g i u) k") simp_all
  show ?thesis
    unfolding marker_entry_of_def f
    by (cases u) (simp_all add: json_item_sort entry_json_fields entry_mode_def)
qed

text \<open>What the written document holds for each operator.\<close>

definition found_entry :: "json option \<Rightarrow> json option" where
  "found_entry e = (case e of Some JNull \<Rightarrow> None | _ \<Rightarrow> e)"

lemma found_entry_sort: "found_entry (map_option json_sort e) = map_option json_sort (found_entry e)"
  by (cases e; cases "the e") (simp_all add: found_entry_def)

definition operators_of :: "(string, json) dict \<Rightarrow> string + (string, json) dict" where
  "operators_of d = (case map_of d ''operators'' of None \<Rightarrow> Inr [] | Some (JObj ops) \<Rightarrow> Inr ops | Some _ \<Rightarrow> Inl ''AttributeError'')"

lemma marker_lookup_obj:
  "marker_lookup (JObj d) operator = map_sum id (\<lambda>ops. found_entry (map_of ops operator)) (operators_of d)"
  by (simp add: marker_lookup_def operators_of_def found_entry_def split: option.split json.split)

lemma operators_of_sorted: "operators_of (sorted_values d) = map_sum id sorted_values (operators_of d)"
  by (simp add: operators_of_def map_of_sorted_values json_sort_JObj sorted_values_def [of "[]"]
      del: json_sort.simps(7) split: option.split json.split)

lemma marker_lookup_sort:
  "marker_lookup (json_sort (JObj d)) operator = map_sum id (map_option json_sort) (marker_lookup (JObj d) operator)"
  unfolding json_sort_JObj marker_lookup_obj operators_of_sorted
  by (cases "operators_of d") (simp_all add: map_of_sorted_values found_entry_sort)

lemma merge_marker_operators:
  assumes "merge_marker operator entry data = Inr merged"
  shows "\<exists>ops. operators_of (case data of Some (JObj d) \<Rightarrow> d | _ \<Rightarrow> []) = Inr ops \<and>
    operators_of merged = Inr (dict_set operator entry ops)"
proof (cases data)
  case None
  then show ?thesis using assms by (auto simp: merge_marker_def operators_of_def dict_set_def)
next
  case (Some v)
  then show ?thesis
  proof (cases v)
    case (JObj d)
    then show ?thesis using assms Some
      by (cases "map_of d ''operators''"; cases "the (map_of d ''operators'')")
        (auto simp: merge_marker_def operators_of_def dict_set_def [of _ _ "[]"] map_of_dict_set)
  qed (use assms Some in \<open>simp_all add: merge_marker_def\<close>)
qed

lemma merge_marker_lookup:
  assumes merge: "merge_marker operator entry data = Inr merged" and "entry \<noteq> JNull"
  shows "marker_lookup (json_sort (JObj merged)) other =
    (if other = operator then Inr (Some (json_sort entry))
     else map_sum id (map_option json_sort) (case data of None \<Rightarrow> Inr None | Some d \<Rightarrow> marker_lookup d other))"
proof -
  obtain ops where ops: "operators_of (case data of Some (JObj d) \<Rightarrow> d | _ \<Rightarrow> []) = Inr ops"
    and merged: "operators_of merged = Inr (dict_set operator entry ops)"
    using merge_marker_operators [OF merge] by blast
  have shape: "data = None \<or> (\<exists>d. data = Some (JObj d))"
    using merge by (cases data; cases "the data") (simp_all add: merge_marker_def)
  have "found_entry (Some entry) = Some entry" using assms(2) by (cases entry) (simp_all add: found_entry_def)
  then show ?thesis
    using shape ops merged unfolding marker_lookup_sort marker_lookup_obj
    by (auto simp: map_of_dict_set marker_lookup_obj found_entry_def [of None] operators_of_def [of "[]"])
qed


lemma marker_tmp_distinct: "marker_tmp os \<noteq> MARKER_PATH"
  by (simp add: marker_tmp_def MARKER_PATH_def)

lemma replace_marker_Inr:
  assumes "replace_marker os writer body w = (Inr u, w')"
  shows "w_files w' MARKER_PATH = FText body 420 (fst writer) (snd writer)"
    and "\<And>p. p \<noteq> MARKER_PATH \<Longrightarrow> p \<noteq> marker_tmp os \<Longrightarrow> w_files w' p = w_files w p"
  using assms marker_tmp_distinct [of os]
  by (auto simp: replace_marker_def rename_file_def Let_def split: option.splits if_splits)

lemma load_marker_reads: "load_marker os w = (Inr data, w1) \<Longrightarrow> w1 = w"
  by (auto simp: load_marker_def ebind_Inr_iff read_file_def elift_def split: file_state.splits sum.splits)

lemma chmod_chown_root_Inr:
  "chmod_chown_root path mode w = (Inr u, w') \<Longrightarrow> w_files w path = FText body m o1 g \<Longrightarrow>
     w_files w' path = FText body mode 0 0"
  by (auto simp: chmod_chown_root_def)

lemma write_mode_root_owned_Inr:
  assumes wr: "write_mode_root_owned os operator mode grp gid user w = (Inr u, w')"
    and prior: "load_marker os w = (Inr data, w)"
  obtains merged where "merge_marker operator (entry_json mode grp gid user) data = Inr merged"
    and "w_files w' MARKER_PATH = FText (os_json_dumps os (json_sort (JObj merged)) @ [newline]) 420 0 0"
proof -
  obtain w1 where w1: "write_mode os (0, 0) operator mode grp gid user w = (Inr (), w1)"
    and own: "chmod_chown_root MARKER_PATH 420 w1 = (Inr u, w')"
    using wr by (auto simp: write_mode_root_owned_def ebind_Inr_iff)
  obtain merged where merged: "merge_marker operator (entry_json mode grp gid user) data = Inr merged"
    and rep: "replace_marker os (0, 0) (os_json_dumps os (json_sort (JObj merged)) @ [newline]) w = (Inr (), w1)"
    using w1 prior by (auto simp: write_mode_def ebind_Inr_iff elift_def simp del: json_sort.simps)
  show ?thesis
    by (rule that [OF merged chmod_chown_root_Inr [OF own replace_marker_Inr(1) [OF rep]]])
qed

definition read_mode_data :: "json option \<Rightarrow> string \<Rightarrow> string + docker_execution_mode option" where
  "read_mode_data data operator =
     bindE (case data of None \<Rightarrow> Inr None | Some d \<Rightarrow> marker_lookup d operator) (\<lambda>entry.
       case entry of None \<Rightarrow> Inr None | Some e \<Rightarrow> bindE (entry_mode e) (\<lambda>m. Inr (Some m)))"

lemma read_mode_loaded: "load_marker os w = (Inr data, w) \<Longrightarrow> read_mode os operator w = (read_mode_data data operator, w)"
  by (cases data) (simp_all add: read_mode_def ebind_def read_mode_data_def elift_def)

lemma read_entry_loaded:
  "load_marker os w = (Inr (Some d), w) \<Longrightarrow> read_entry os operator w =
     (bindE (marker_lookup d operator) (\<lambda>entry. case entry of None \<Rightarrow> Inr None | Some e \<Rightarrow> marker_entry_of e), w)"
  by (simp add: read_entry_def ebind_def elift_def)

lemma entry_json_not_null: "entry_json mode grp gid user \<noteq> JNull"
  by (simp add: entry_json_def)

lemma marker_after:
  assumes "write_mode_root_owned os operator mode grp gid user w = (Inr (), w')"
    and "load_marker os w = (Inr data, w)"
    and printed: "\<And>merged. merge_marker operator (entry_json mode grp gid user) data = Inr merged \<Longrightarrow>
      os_json_loads os (os_json_dumps os (json_sort (JObj merged)) @ [newline]) = Inr (json_sort (JObj merged))"
  shows "\<exists>merged. merge_marker operator (entry_json mode grp gid user) data = Inr merged \<and>
    load_marker os w' = (Inr (Some (json_sort (JObj merged))), w')"
proof -
  obtain merged where merge: "merge_marker operator (entry_json mode grp gid user) data = Inr merged"
    and f: "w_files w' MARKER_PATH = FText (os_json_dumps os (json_sort (JObj merged)) @ [newline]) 420 0 0"
    using write_mode_root_owned_Inr [OF assms(1,2)] by blast
  have "load_marker os w' = (Inr (Some (json_sort (JObj merged))), w')"
    using printed [OF merge] by (simp add: load_marker_def ebind_def read_file_eq [OF f] elift_def del: json_sort.simps)
  with merge show ?thesis by blast
qed

lemma read_mode_merged:
  assumes "merge_marker operator (entry_json mode grp gid user) data = Inr merged"
  shows "read_mode_data (Some (json_sort (JObj merged))) operator = Inr (Some mode)"
  by (simp add: read_mode_data_def merge_marker_lookup [OF assms entry_json_not_null]
      entry_mode_def [of "entry_json mode grp gid user"] entry_json_fields del: json_sort.simps(7))

section \<open>Properties\<close>

text \<open>the marker reads back as written, for every operator. After a write that succeeded, on an absent
  marker or on any document, the operator's mode and entry are the ones given and every other operator's mode is
  what it was (or fails to read as it did). The merged document is assumed to read back as it was printed.\<close>

theorem marker_roundtrip:
  assumes wr: "write_mode_root_owned os operator mode grp gid user w = (Inr (), w')"
    and prior: "load_marker os w = (Inr data, w)"
    and printed: "\<And>merged. merge_marker operator (entry_json mode grp gid user) data = Inr merged \<Longrightarrow>
      os_json_loads os (os_json_dumps os (json_sort (JObj merged)) @ [newline]) = Inr (json_sort (JObj merged))"
  shows "read_mode os operator w' = (Inr (Some mode), w') \<and>
    read_entry os operator w' = (Inr (Some \<lparr>me_mode = mode, me_group = JStr grp, me_gid = JInt gid,
      me_user = (case user of None \<Rightarrow> JNull | Some s \<Rightarrow> JStr s)\<rparr>), w') \<and>
    (\<forall>other. other \<noteq> operator \<longrightarrow> fst (read_mode os other w') = fst (read_mode os other w))"
proof -
  let ?e = "entry_json mode grp gid user"
  obtain merged where merge: "merge_marker operator ?e data = Inr merged"
    and after: "load_marker os w' = (Inr (Some (json_sort (JObj merged))), w')"
    using marker_after [OF wr prior printed] by blast
  note look = merge_marker_lookup [OF merge entry_json_not_null]
  note read_mode_merged [OF merge]
  moreover have "read_mode_data (Some (json_sort (JObj merged))) other = read_mode_data data other" if "other \<noteq> operator" for other
  proof -
    let ?old = "case data of None \<Rightarrow> Inr None | Some d \<Rightarrow> marker_lookup d other"
    have "marker_lookup (json_sort (JObj merged)) other = map_sum id (map_option json_sort) ?old"
      using look [of other] that by simp
    then show ?thesis
      unfolding read_mode_data_def option.case
      by (cases ?old; cases "projr ?old") simp_all
  qed
  moreover have "read_entry os operator w' = (Inr (Some \<lparr>me_mode = mode, me_group = JStr grp, me_gid = JInt gid,
      me_user = (case user of None \<Rightarrow> JNull | Some s \<Rightarrow> JStr s)\<rparr>), w')"
    by (simp add: read_entry_loaded [OF after] look marker_entry_of_written del: json_sort.simps(7))
  ultimately show ?thesis
    by (simp add: read_mode_loaded [OF after] read_mode_loaded [OF prior])
qed

definition marker_os :: os_iface where
  "marker_os = silent_os\<lparr>os_json_dumps := (\<lambda>_. ''{..}''), os_json_loads := (\<lambda>t.
     if t = ''{}'' then Inr (JObj [(''operators'', JObj [(''bob'', entry_json SEPARATE_USER ''sb-ws'' 77 (Some ''sb''))])])
     else Inr (JObj [(''operators'', JObj [(''al'', json_sort (entry_json OPERATOR_ROOTLESS ''sb-ws-al'' 301 None)),
       (''bob'', json_sort (entry_json SEPARATE_USER ''sb-ws'' 77 (Some ''sb'')))])]))\<rparr>"

definition marker_host :: host_world where
  "marker_host = put_file MARKER_PATH (FText ''{}'' 420 0 0) empty_host"

theorem marker_roundtrip_witness:
  "fst (read_mode marker_os ''al'' (snd (write_mode_root_owned marker_os ''al'' OPERATOR_ROOTLESS ''sb-ws-al'' 301 None marker_host)))
     = Inr (Some OPERATOR_ROOTLESS) \<and>
   fst (read_mode marker_os ''bob'' (snd (write_mode_root_owned marker_os ''al'' OPERATOR_ROOTLESS ''sb-ws-al'' 301 None marker_host)))
     = Inr (Some SEPARATE_USER)"
proof -
  let ?r = "write_mode_root_owned marker_os ''al'' OPERATOR_ROOTLESS ''sb-ws-al'' 301 None marker_host"
  let ?data = "Some (JObj [(''operators'', JObj [(''bob'', entry_json SEPARATE_USER ''sb-ws'' 77 (Some ''sb''))])])"
  have f: "w_files marker_host MARKER_PATH = FText ''{}'' 420 0 0" by (simp add: marker_host_def)
  have prior: "load_marker marker_os marker_host = (Inr ?data, marker_host)"
    by (simp add: load_marker_def ebind_def read_file_eq [OF f] elift_def) (simp add: marker_os_def)
  have "fst ?r = Inr ()" by code_simp
  then have wr: "?r = (Inr (), snd ?r)" by (metis prod.collapse)
  have printed: "os_json_loads marker_os (os_json_dumps marker_os (json_sort (JObj merged)) @ [newline]) = Inr (json_sort (JObj merged))"
    if "merge_marker ''al'' (entry_json OPERATOR_ROOTLESS ''sb-ws-al'' 301 None) ?data = Inr merged" for merged
    using that by (auto simp: merge_marker_def dict_set_def marker_os_def newline_def)
  note r = marker_roundtrip [OF wr prior printed]
  have old: "fst (read_mode marker_os ''bob'' marker_host) = Inr (Some SEPARATE_USER)"
    unfolding read_mode_loaded [OF prior] by code_simp
  have "''bob'' \<noteq> ''al''" by simp
  with r old show ?thesis by (metis fst_conv)
qed

end
