(* ===== verification/Host_Batch.thy ===== *)
theory Host_Batch
  imports Setup_State
begin

text \<open>
  The host-root batch of \<open>src/src/core/setup/host_batch.py\<close>: what operator-rootless setup needs root for, in the order
  it is applied, the classifier that selects the missing items, and their two renderings.
\<close>

section \<open>Items\<close>

datatype batch_item = SUBID | GROUPADD | SYSCTL | NFTABLES | DELEGATE | LINGER | RUNSC | MARKER

definition item_value :: "batch_item \<Rightarrow> string" where
  "item_value i =
     (case i of SUBID \<Rightarrow> ''subid'' | GROUPADD \<Rightarrow> ''groupadd'' | SYSCTL \<Rightarrow> ''sysctl'' | NFTABLES \<Rightarrow> ''nftables''
      | DELEGATE \<Rightarrow> ''delegate'' | LINGER \<Rightarrow> ''linger'' | RUNSC \<Rightarrow> ''runsc'' | MARKER \<Rightarrow> ''marker'')"

definition HOST_ROOT_BATCH :: "batch_item list" where
  "HOST_ROOT_BATCH = [SUBID, GROUPADD, SYSCTL, NFTABLES, DELEGATE, LINGER, RUNSC, MARKER]"

record batch_params =
  bp_operator :: string
  bp_operator_uid :: int
  bp_group :: string
  bp_gid :: int
  bp_family :: string
  bp_mode :: docker_execution_mode

section \<open>Inspection\<close>

definition MODULES_LOAD_DROPIN :: string where
  "MODULES_LOAD_DROPIN = ''/etc/modules-load.d/sandbox-ai.conf''"

definition nftables_modules :: "string \<Rightarrow> string list" where
  "nftables_modules family =
     (if family = ''fedora'' then [''ip_tables'']
      else if family = ''arch'' then [''nf_tables'', ''ip_tables'']
      else [''nf_tables''])"

definition render_modules_load_dropin :: "string \<Rightarrow> string" where
  "render_modules_load_dropin family = py_join [newline] (MANAGED_HEADER # nftables_modules family) @ [newline]"

definition module_listed :: "string \<Rightarrow> string \<Rightarrow> bool" where
  "module_listed kmod out =
     list_ex (\<lambda>line. (case py_words line of [] \<Rightarrow> [] | name # _ \<Rightarrow> name) = kmod) (tl (py_splitlines out))"

definition module_loaded :: "os_iface \<Rightarrow> string \<Rightarrow> bool host_effect" where
  "module_loaded os kmod = run_query os [''lsmod''] (\<lambda>p. p_rc p = 0 \<and> module_listed kmod (p_out p))"

definition controllers_path :: "int \<Rightarrow> string" where
  "controllers_path uid =
     ''/sys/fs/cgroup/user.slice/user-'' @ int_str uid @ ''.slice/user@'' @ int_str uid @ ''.service/cgroup.controllers''"

definition delegation_present :: "int \<Rightarrow> bool host_effect" where
  "delegation_present uid = ebind (read_file (controllers_path uid)) (\<lambda>raw.
     eret (case raw of
       None \<Rightarrow> False
     | Some body \<Rightarrow> list_all (\<lambda>c. c \<in> set (py_words body)) [''cpu'', ''memory'', ''pids'']))"

text \<open>The block every allocation and every preview takes; the pool has no end, see \<open>pick_free_subid_block_total\<close>.\<close>

definition batch_range_arg :: "string host_effect" where
  "batch_range_arg = ebind pick_block (\<lambda>block. eret (subid_range_arg block))"

section \<open>Appliers\<close>

definition apply_subid :: "os_iface \<Rightarrow> batch_params \<Rightarrow> unit host_effect" where
  "apply_subid os prm = ebind batch_range_arg (\<lambda>range_arg.
     ebind (l2_append os parse_subuid_for_user ''--add-subuids'' range_arg (bp_operator prm) []) (\<lambda>_.
     ebind (l2_append os parse_subgid_for_user ''--add-subgids'' range_arg (bp_operator prm) []) (\<lambda>_. eret ())))"

definition apply_groupadd :: "os_iface \<Rightarrow> batch_params \<Rightarrow> unit host_effect" where
  "apply_groupadd os prm = ebind (eget (\<lambda>w. getgrnam (w_env w) (bp_group prm))) (\<lambda>existing.
     ebind (case existing of
         None \<Rightarrow> run_checked os [''groupadd'', ''-g'', int_str (bp_gid prm), bp_group prm]
       | Some gid \<Rightarrow> ebind (eget (\<lambda>w. parse_subgid_for_user (w_env w) (bp_operator prm))) (\<lambda>ranges.
           if \<not> gid_in_subgid_range gid ranges then
             ethrow (''group '' @ py_repr (bp_group prm) @ '' exists at gid '' @ int_str gid @ '' outside '' @
               py_repr (bp_operator prm) @ [CHR 0x27] @ ''s /etc/subgid range; setup will not move an operator-created group. '' @
               ''Recreate it with a gid inside the subgid range and re-run setup.'')
           else eret ())) (\<lambda>_.
     ebind (l2_ensure_member os (bp_operator prm) (bp_group prm)) (\<lambda>_. eret ())))"

definition apply_sysctl :: "os_iface \<Rightarrow> batch_params \<Rightarrow> unit host_effect" where
  "apply_sysctl os prm =
     ebind render_sysctl_dropin (\<lambda>body.
     ebind (write_root_file os SYSCTL_DROPIN body 420) (\<lambda>_.
     ebind (run_checked os [''sysctl'', ''-w'', ''user.max_user_namespaces='' @ nat_str MAX_USER_NS]) (\<lambda>_.
     ebind is_debian_family (\<lambda>debian.
     ewhen debian (run_checked os [''sysctl'', ''-w'', ''kernel.unprivileged_userns_clone=1''])))))"

definition apply_nftables :: "os_iface \<Rightarrow> batch_params \<Rightarrow> unit host_effect" where
  "apply_nftables os prm =
     ebind (efor (\<lambda>kmod. ebind (module_loaded os kmod) (\<lambda>loaded.
       ewhen (\<not> loaded) (run_checked os [''modprobe'', kmod]))) (nftables_modules (bp_family prm))) (\<lambda>_.
     ebind (read_file MODULES_LOAD_DROPIN) (\<lambda>observed.
     ewhen (observed \<noteq> Some (render_modules_load_dropin (bp_family prm)))
       (write_root_file os MODULES_LOAD_DROPIN (render_modules_load_dropin (bp_family prm)) 420)))"

definition apply_delegate :: "os_iface \<Rightarrow> batch_params \<Rightarrow> unit host_effect" where
  "apply_delegate os prm =
     ebind (write_root_file os (delegate_dropin_path_for_uid (bp_operator_uid prm)) render_delegate_dropin 420) (\<lambda>_.
     run_checked os [''systemctl'', ''daemon-reload''])"

definition apply_linger :: "os_iface \<Rightarrow> batch_params \<Rightarrow> unit host_effect" where
  "apply_linger os prm = run_checked os [''loginctl'', ''enable-linger'', bp_operator prm]"

definition apply_runsc :: "os_iface \<Rightarrow> batch_params \<Rightarrow> unit host_effect" where
  "apply_runsc os prm = install_pinned os ''runsc'' True"

text \<open>The gid recorded is the group's own, not the recommended one.\<close>

definition apply_marker :: "os_iface \<Rightarrow> batch_params \<Rightarrow> unit host_effect" where
  "apply_marker os prm = ebind (eget (\<lambda>w. getgrnam (w_env w) (bp_group prm))) (\<lambda>entry.
     case entry of
       None \<Rightarrow> ethrow (''getgrnam(): name not found: '' @ py_repr (bp_group prm))
     | Some gid \<Rightarrow> write_mode_root_owned os (bp_operator prm) (bp_mode prm) (bp_group prm) gid None)"

definition applier :: "os_iface \<Rightarrow> batch_item \<Rightarrow> batch_params \<Rightarrow> unit host_effect" where
  "applier os i =
     (case i of SUBID \<Rightarrow> apply_subid os | GROUPADD \<Rightarrow> apply_groupadd os | SYSCTL \<Rightarrow> apply_sysctl os
      | NFTABLES \<Rightarrow> apply_nftables os | DELEGATE \<Rightarrow> apply_delegate os | LINGER \<Rightarrow> apply_linger os
      | RUNSC \<Rightarrow> apply_runsc os | MARKER \<Rightarrow> apply_marker os)"

definition apply_host_root_batch :: "os_iface \<Rightarrow> batch_item set \<Rightarrow> batch_params \<Rightarrow> unit host_effect" where
  "apply_host_root_batch os items prm =
     efor (\<lambda>i. if i \<notin> items then eret () else applier os i prm) HOST_ROOT_BATCH"

section \<open>Classification\<close>

definition subid_satisfied :: "string \<Rightarrow> bool host_effect" where
  "subid_satisfied operator = eget (\<lambda>w.
     parse_subuid_for_user (w_env w) operator \<noteq> [] \<and> parse_subgid_for_user (w_env w) operator \<noteq> [])"

definition group_satisfied :: "string \<Rightarrow> string \<Rightarrow> bool host_effect" where
  "group_satisfied operator grp = eget (\<lambda>w. getgrnam (w_env w) grp \<noteq> None \<and> operator_in_group operator grp w)"

definition sysctl_satisfied :: "bool host_effect" where
  "sysctl_satisfied = ebind (read_file SYSCTL_DROPIN) (\<lambda>observed.
     ebind render_sysctl_dropin (\<lambda>expected. eret (observed = Some expected)))"

fun all_loaded :: "os_iface \<Rightarrow> string list \<Rightarrow> bool host_effect" where
  "all_loaded os [] = eret True"
| "all_loaded os (kmod # rest) = ebind (module_loaded os kmod) (\<lambda>loaded.
     if loaded then all_loaded os rest else eret False)"

definition nftables_satisfied :: "os_iface \<Rightarrow> string \<Rightarrow> bool host_effect" where
  "nftables_satisfied os family = ebind (all_loaded os (nftables_modules family)) (\<lambda>loaded.
     if \<not> loaded then eret False
     else ebind (read_file MODULES_LOAD_DROPIN) (\<lambda>observed. eret (observed = Some (render_modules_load_dropin family))))"

definition runsc_satisfied :: "os_iface \<Rightarrow> bool host_effect" where
  "runsc_satisfied os = ebind (detect_drift os ''runsc'') (\<lambda>drift. eret (dr_status drift = DriftMatch))"

definition linger_satisfied :: "os_iface \<Rightarrow> string \<Rightarrow> bool host_effect" where
  "linger_satisfied os operator =
     run_query os [''loginctl'', ''show-user'', operator, ''--property=Linger''] (\<lambda>p. py_contains ''Linger=yes'' (p_out p))"

definition marker_satisfied :: "os_iface \<Rightarrow> string \<Rightarrow> docker_execution_mode \<Rightarrow> bool host_effect" where
  "marker_satisfied os operator mode = ebind (read_entry os operator) (\<lambda>entry.
     eret (case entry of None \<Rightarrow> False | Some e \<Rightarrow> me_mode e = mode))"

definition classify_params :: "setup_context \<Rightarrow> batch_params host_effect" where
  "classify_params ctx =
     ebind (eget (\<lambda>w. getpwnam (w_env w) (ctx_operator ctx))) (\<lambda>pw.
     case pw of
       None \<Rightarrow> ethrow (''getpwnam(): name not found: '' @ py_repr (ctx_operator ctx))
     | Some entry \<Rightarrow>
         ebind (from_host (\<lambda>env. autodetect_workspace_bridge_gid_recommendation env (ctx_operator ctx) 1000)) (\<lambda>gid.
         ebind detect_distro (\<lambda>family.
         eret \<lparr>bp_operator = ctx_operator ctx, bp_operator_uid = pw_uid entry,
           bp_group = workspace_bridge_group_for (ctx_operator ctx) (docker_execution_mode (ctx_host ctx)),
           bp_gid = gid, bp_family = (case family of None \<Rightarrow> [] | Some f \<Rightarrow> f),
           bp_mode = docker_execution_mode (ctx_host ctx)\<rparr>)))"

text \<open>Every item is looked at, in the order of the code; what is not satisfied is selected.\<close>

definition select_item :: "batch_item \<Rightarrow> bool host_effect \<Rightarrow> batch_item list \<Rightarrow> batch_item list host_effect" where
  "select_item i satisfied acc = ebind satisfied (\<lambda>ok. eret (if ok then acc else acc @ [i]))"

definition classify_host_root_batch :: "os_iface \<Rightarrow> setup_context \<Rightarrow> (batch_item set \<times> batch_params) host_effect" where
  "classify_host_root_batch os ctx = ebind (classify_params ctx) (\<lambda>prm.
     ebind (select_item SUBID (subid_satisfied (bp_operator prm)) []) (\<lambda>s1.
     ebind (select_item GROUPADD (group_satisfied (bp_operator prm) (bp_group prm)) s1) (\<lambda>s2.
     ebind (select_item SYSCTL sysctl_satisfied s2) (\<lambda>s3.
     ebind (select_item NFTABLES (nftables_satisfied os (bp_family prm)) s3) (\<lambda>s4.
     ebind (select_item DELEGATE (delegation_present (bp_operator_uid prm)) s4) (\<lambda>s5.
     ebind (select_item LINGER (linger_satisfied os (bp_operator prm)) s5) (\<lambda>s6.
     ebind (select_item RUNSC (runsc_satisfied os) s6) (\<lambda>s7.
     ebind (select_item MARKER (marker_satisfied os (bp_operator prm) (bp_mode prm)) s7) (\<lambda>s8.
     eret (set s8, prm))))))))))"

section \<open>Renderings\<close>

definition build_bootstrap_argv :: "batch_item set \<Rightarrow> batch_params \<Rightarrow> string list" where
  "build_bootstrap_argv items prm =
     [''sandbox'', ''_bootstrap-host''] @
     concat (map (\<lambda>i. [''--item'', item_value i]) (filter (\<lambda>i. i \<in> items) HOST_ROOT_BATCH)) @
     [''--operator'', bp_operator prm, ''--operator-uid'', int_str (bp_operator_uid prm),
      ''--bridge-group'', bp_group prm, ''--bridge-gid'', int_str (bp_gid prm),
      ''--distro-family'', bp_family prm, ''--docker-execution-mode'', mode_value OPERATOR_ROOTLESS]"

definition remediation_line :: "string \<Rightarrow> batch_params \<Rightarrow> batch_item \<Rightarrow> string" where
  "remediation_line range_arg prm i =
     (case i of
        SUBID \<Rightarrow> ''sudo usermod --add-subuids '' @ range_arg @ '' --add-subgids '' @ range_arg @ '' '' @ bp_operator prm
      | GROUPADD \<Rightarrow> ''sudo groupadd -g '' @ int_str (bp_gid prm) @ '' '' @ bp_group prm @ '' && sudo usermod -aG '' @
          bp_group prm @ '' '' @ bp_operator prm
      | SYSCTL \<Rightarrow> ''sudo tee '' @ SYSCTL_DROPIN @ '' <<'' @ sq ''EOF'' @ '' && sudo sysctl --system''
      | NFTABLES \<Rightarrow>
          (let modules = py_join '' '' (nftables_modules (bp_family prm)) in
           ''sudo modprobe '' @ modules @ '' && echo '' @ sq modules @ '' | sudo tee '' @ MODULES_LOAD_DROPIN)
      | DELEGATE \<Rightarrow> ''sudo install -Dm0644 /dev/stdin '' @ delegate_dropin_path_for_uid (bp_operator_uid prm) @
          '' && sudo systemctl daemon-reload''
      | LINGER \<Rightarrow> ''sudo loginctl enable-linger '' @ bp_operator prm
      | RUNSC \<Rightarrow> ''sudo sandbox setup --update-runsc  # installs the pinned runsc root-owned''
      | MARKER \<Rightarrow> ''sudo sandbox setup --docker-execution-mode '' @ mode_value (bp_mode prm) @
          ''  # writes the root-owned mode marker'')"

text \<open>The free block is looked up only for the subid line.\<close>

definition render_remediation_block :: "batch_item set \<Rightarrow> batch_params \<Rightarrow> string host_effect" where
  "render_remediation_block items prm =
     ebind (if SUBID \<in> items then batch_range_arg else eret []) (\<lambda>range_arg.
     eret (py_join [newline]
       (''# sandbox-ai operator-rootless host-root prerequisites (run in order):'' #
        map (remediation_line range_arg prm) (filter (\<lambda>i. i \<in> items) HOST_ROOT_BATCH)) @ [newline]))"

section \<open>Lemmas\<close>

text \<open>Steps that leave one file as it is.\<close>

lemma keeps_holds_intros:
  "path \<noteq> p \<Longrightarrow> keeps (holds p f) (write_root_file os path body mode)"
  "path \<noteq> p \<Longrightarrow> keeps (holds p f) (write_bytes os path body)"
  "path \<noteq> p \<Longrightarrow> keeps (holds p f) (unlink_missing_ok os path)"
  "path \<noteq> p \<Longrightarrow> keeps (holds p f) (chmod_chown_root path mode)"
  "path \<noteq> p \<Longrightarrow> path' \<noteq> p \<Longrightarrow> keeps (holds p f) (rename_file os path path')"
  by (auto simp: keeps_def holds_def write_root_file_def write_bytes_def unlink_missing_ok_def chmod_chown_root_def
      rename_file_def split: option.split file_state.split)

lemma keeps_reads: "(\<And>w. reads m w) \<Longrightarrow> keeps P m"
  by (simp add: keeps_def reads_def)

lemma keeps_efinally: "keeps P m \<Longrightarrow> keeps P c \<Longrightarrow> keeps P (efinally m c)"
  unfolding keeps_def efinally_def by (auto split: prod.split sum.split)

lemma keeps_run_checked: "spares os argv p \<Longrightarrow> keeps (holds p f) (run_checked os argv)"
  using run_checked_spares by (simp add: holds_def [abs_def])

lemma keeps_run_query: "spares os argv p \<Longrightarrow> keeps (holds p f) (run_query os argv ok)"
  unfolding run_query_def
  by (intro keeps_ecatch keeps_ebind) (auto simp: keeps_def spares_def holds_def)

lemma keeps_pick_block: "keeps P pick_block"
  by (simp add: keeps_def pick_block_def split: option.split)

lemmas keeps_file = keeps_pick_block keeps_holds_intros keeps_efinally keeps_run_checked keeps_run_query keeps_ebind keeps_ewhen keeps_efor
  keeps_ecatch

lemma marker_paths:
  "SYSCTL_DROPIN \<noteq> MARKER_PATH" "MODULES_LOAD_DROPIN \<noteq> MARKER_PATH" "delegate_dropin_path_for_uid uid \<noteq> MARKER_PATH"
  "target_path ''runsc'' \<noteq> MARKER_PATH" "staging_path ''runsc'' \<noteq> MARKER_PATH" "download_tmp os ''runsc'' \<noteq> MARKER_PATH"
  by (simp_all add: SYSCTL_DROPIN_def MODULES_LOAD_DROPIN_def MARKER_PATH_def delegate_dropin_path_for_uid_def
      target_path_def staging_path_def download_tmp_def RESERVED_DIR_def)

lemma render_sysctl_reads: "reads render_sysctl_dropin w"
  unfolding render_sysctl_dropin_def is_debian_family_def by (intro reads_ebind) auto

lemma keeps_install:
  assumes "\<And>argv. spares os argv MARKER_PATH"
  shows "keeps (holds MARKER_PATH f) (install_pinned os ''runsc'' force)"
  unfolding install_pinned_def fetch_staged_def seal_staged_def download_and_verify_def chattr_def Let_def
  by (intro keeps_file marker_paths assms keeps_intros allI if_splits)
    (auto intro: keeps_reads)

lemma keeps_applier:
  assumes sp: "\<And>argv. spares os argv MARKER_PATH" and i: "i \<noteq> MARKER"
  shows "keeps (holds MARKER_PATH f) (applier os i prm)"
proof (cases i)
  case SUBID
  then show ?thesis
    by (auto simp: applier_def apply_subid_def batch_range_arg_def l2_append_def intro!: keeps_file sp)
next
  case GROUPADD
  then show ?thesis
    by (auto simp: applier_def apply_groupadd_def l2_ensure_member_def intro!: keeps_file sp split: option.split)
next
  case SYSCTL
  then show ?thesis
    by (auto simp: applier_def apply_sysctl_def render_sysctl_dropin_def is_debian_family_def
        intro!: keeps_file sp marker_paths intro: keeps_reads)
next
  case NFTABLES
  then show ?thesis
    by (auto simp: applier_def apply_nftables_def module_loaded_def intro!: keeps_file sp marker_paths intro: keeps_reads)
next
  case DELEGATE
  then show ?thesis by (auto simp: applier_def apply_delegate_def intro!: keeps_file sp marker_paths)
next
  case LINGER
  then show ?thesis by (auto simp: applier_def apply_linger_def intro!: keeps_file sp)
next
  case RUNSC
  then show ?thesis by (auto simp: applier_def apply_runsc_def intro!: keeps_install sp)
qed (use i in simp)


lemma marker_last: "HOST_ROOT_BATCH = [SUBID, GROUPADD, SYSCTL, NFTABLES, DELEGATE, LINGER, RUNSC] @ [MARKER]"
  by (simp add: HOST_ROOT_BATCH_def)

lemma efor_snoc:
  "efor f (xs @ [x]) w = (case efor f xs w of (Inl exc, w1) \<Rightarrow> (Inl exc, w1) | (Inr u, w1) \<Rightarrow> f x w1)"
  by (induction xs arbitrary: w) (auto simp: ebind_def split: prod.split sum.split)

lemma keeps_before_marker:
  assumes "\<And>argv. spares os argv MARKER_PATH"
  shows "keeps (holds MARKER_PATH f)
    (efor (\<lambda>i. if i \<notin> items then eret () else applier os i prm) [SUBID, GROUPADD, SYSCTL, NFTABLES, DELEGATE, LINGER, RUNSC])"
proof (rule keeps_efor)
  fix i assume "i \<in> set [SUBID, GROUPADD, SYSCTL, NFTABLES, DELEGATE, LINGER, RUNSC]"
  then have "i \<noteq> MARKER" by auto
  then show "keeps (holds MARKER_PATH f) (if i \<notin> items then eret () else applier os i prm)"
    using keeps_applier [OF assms] by auto
qed

lemma write_mode_root_owned_Inl:
  assumes "write_mode_root_owned os operator mode grp gid user w = (Inl exc, w')"
  shows "w_files w' MARKER_PATH = w_files w MARKER_PATH"
proof -
  have rep: "w_files w2 MARKER_PATH = w_files w1 MARKER_PATH" if "replace_marker os wr body w1 = (Inl e, w2)" for wr body w1 w2 e
    using that marker_tmp_distinct [of os]
    by (auto simp: replace_marker_def rename_file_def Let_def split: option.splits if_splits)
  have "write_mode os (0, 0) operator mode grp gid user w = (Inl exc, w')"
  proof (rule ccontr)
    assume "write_mode os (0, 0) operator mode grp gid user w \<noteq> (Inl exc, w')"
    then obtain u w1 where w1: "write_mode os (0, 0) operator mode grp gid user w = (Inr u, w1)"
      and own: "chmod_chown_root MARKER_PATH 420 w1 = (Inl exc, w')"
      using assms by (auto simp: write_mode_root_owned_def ebind_Inl_iff)
    obtain body where "w_files w1 MARKER_PATH = FText body 420 0 0"
      using w1 by (auto simp: write_mode_def ebind_Inr_iff dest!: replace_marker_Inr(1))
    then show False using own by (simp add: chmod_chown_root_def)
  qed
  then show ?thesis
    by (auto simp: write_mode_def ebind_Inl_iff load_marker_def read_file_def elift_def ebind_Inr_iff
        split: file_state.splits sum.splits dest!: rep)
qed

lemma keeps_env:
  "keeps (\<lambda>w. w_env w = e) (load_marker os)"
  "keeps (\<lambda>w. w_env w = e) (replace_marker os writer body)"
  "keeps (\<lambda>w. w_env w = e) (chmod_chown_root path mode)"
  by (auto simp: keeps_def load_marker_def ebind_def read_file_def elift_def replace_marker_def rename_file_def Let_def
      chmod_chown_root_def split: file_state.split option.split sum.split)

lemma write_mode_env:
  assumes "write_mode_root_owned os operator mode grp gid user w = (r, w')"
  shows "w_env w' = w_env w"
proof -
  have "keeps (\<lambda>v. w_env v = w_env w) (write_mode_root_owned os operator mode grp gid user)"
    unfolding write_mode_root_owned_def write_mode_def by (intro keeps_ebind keeps_env keeps_intros)
  then show ?thesis using assms unfolding keeps_def by (metis snd_conv)
qed

lemma load_marker_cong:
  "w_files w' MARKER_PATH = w_files w MARKER_PATH \<Longrightarrow> load_marker os w = (Inr data, w) \<Longrightarrow> load_marker os w' = (Inr data, w')"
  by (auto simp: load_marker_def ebind_def read_file_def elift_def split: file_state.splits sum.splits)

section \<open>Properties\<close>

text \<open>Claim C16: the marker is the last thing a batch writes. A batch that fails anywhere, or that was not asked for it,
  leaves the marker file as it was; one that succeeds and was asked for it leaves a marker from which the operator's
  mode reads back. The programs the batch runs are assumed to leave the marker alone, and the merged marker to
  read back as it was printed.\<close>

theorem host_root_batch_marker_last:
  assumes sp: "\<And>argv. spares os argv MARKER_PATH"
    and prior: "load_marker os w = (Inr data, w)"
    and printed: "\<And>gid merged. getgrnam (w_env w') (bp_group prm) = Some gid \<Longrightarrow>
      merge_marker (bp_operator prm) (entry_json (bp_mode prm) (bp_group prm) gid None) data = Inr merged \<Longrightarrow>
      os_json_loads os (os_json_dumps os (json_sort (JObj merged)) @ [newline]) = Inr (json_sort (JObj merged))"
    and run: "apply_host_root_batch os items prm w = (r, w')"
  shows "(r \<noteq> Inr () \<or> MARKER \<notin> items \<longrightarrow> w_files w' MARKER_PATH = w_files w MARKER_PATH) \<and>
    (r = Inr () \<and> MARKER \<in> items \<longrightarrow> read_mode os (bp_operator prm) w' = (Inr (Some (bp_mode prm)), w'))"
proof -
  let ?step = "\<lambda>i. if i \<notin> items then eret () else applier os i prm"
  let ?rest = "efor ?step [SUBID, GROUPADD, SYSCTL, NFTABLES, DELEGATE, LINGER, RUNSC]"
  obtain r1 w1 where rest: "?rest w = (r1, w1)" by (cases "?rest w")
  have same: "w_files w1 MARKER_PATH = w_files w MARKER_PATH"
    using keeps_before_marker [OF sp, of "w_files w MARKER_PATH" items prm] rest by (auto simp: keeps_def holds_def)
  have all: "apply_host_root_batch os items prm w = (case r1 of Inl exc \<Rightarrow> (Inl exc, w1) | Inr u \<Rightarrow> ?step MARKER w1)"
    unfolding apply_host_root_batch_def marker_last efor_snoc rest by (cases r1) simp_all
  show ?thesis
  proof (cases "r1 = Inr () \<and> MARKER \<in> items")
    case False
    then have "w' = w1 \<and> (MARKER \<in> items \<longrightarrow> r \<noteq> Inr ())"
      using all run by (cases r1) (auto split: if_splits)
    with same show ?thesis by blast
  next
    case True
    then have m: "apply_marker os prm w1 = (r, w')" using all run by (simp add: applier_def)
    show ?thesis
    proof (cases "getgrnam (w_env w1) (bp_group prm)")
      case None
      then show ?thesis using m same by (auto simp: apply_marker_def ebind_def)
    next
      case (Some gid)
      then have wr: "write_mode_root_owned os (bp_operator prm) (bp_mode prm) (bp_group prm) gid None w1 = (r, w')"
        using m by (simp add: apply_marker_def ebind_def)
      show ?thesis
      proof (cases r)
        case (Inl exc)
        then show ?thesis using write_mode_root_owned_Inl wr same by auto
      next
        case (Inr u)
        then have wr': "write_mode_root_owned os (bp_operator prm) (bp_mode prm) (bp_group prm) gid None w1 = (Inr (), w')"
          using wr by simp
        have gid: "getgrnam (w_env w') (bp_group prm) = Some gid"
          using write_mode_env [OF wr'] Some by simp
        obtain merged where merged: "merge_marker (bp_operator prm) (entry_json (bp_mode prm) (bp_group prm) gid None) data = Inr merged"
          and after: "load_marker os w' = (Inr (Some (json_sort (JObj merged))), w')"
          using marker_after [OF wr' load_marker_cong [OF same prior] printed [OF gid]] by blast
        have "read_mode os (bp_operator prm) w' = (Inr (Some (bp_mode prm)), w')"
          using read_mode_loaded [OF after] read_mode_merged [OF merged] by simp
        then show ?thesis using Inr True by simp
      qed
    qed
  qed
qed


definition batch_os :: os_iface where
  "batch_os = marker_os\<lparr>os_json_loads := (\<lambda>_. Inr (JObj [(''operators'',
     JObj [(''al'', json_sort (entry_json OPERATOR_ROOTLESS ''sb-ws-al'' 301 None))])]))\<rparr>"

definition batch_host :: host_world where
  "batch_host = empty_host\<lparr>w_env := sample_env\<lparr>getgrnam := (\<lambda>_. Some 301)\<rparr>\<rparr>"

definition batch_sample :: batch_params where
  "batch_sample = \<lparr>bp_operator = ''al'', bp_operator_uid = 1000, bp_group = ''sb-ws-al'', bp_gid = 301, bp_family = ''debian'',
     bp_mode = OPERATOR_ROOTLESS\<rparr>"

theorem host_root_batch_marker_last_witness:
  "fst (read_mode batch_os ''al'' (snd (apply_host_root_batch batch_os {LINGER, MARKER} batch_sample batch_host))) =
     Inr (Some OPERATOR_ROOTLESS)"
proof -
  let ?r = "apply_host_root_batch batch_os {LINGER, MARKER} batch_sample batch_host"
  have sp: "spares batch_os argv MARKER_PATH" for argv
    by (simp add: spares_def batch_os_def marker_os_def silent_os_def)
  have prior: "load_marker batch_os batch_host = (Inr None, batch_host)"
    by (simp add: load_marker_def ebind_def read_file_def batch_host_def empty_host_def)
  have ok: "fst ?r = Inr ()" and grp: "getgrnam (w_env (snd ?r)) ''sb-ws-al'' = Some 301"
    by code_simp+
  have run: "?r = (Inr (), snd ?r)" using ok by (metis prod.collapse)
  have printed: "os_json_loads batch_os (os_json_dumps batch_os (json_sort (JObj merged)) @ [newline]) = Inr (json_sort (JObj merged))"
    if "getgrnam (w_env (snd ?r)) (bp_group batch_sample) = Some gid"
      and "merge_marker (bp_operator batch_sample) (entry_json (bp_mode batch_sample) (bp_group batch_sample) gid None) None = Inr merged"
    for gid merged
    using that grp by (auto simp: merge_marker_def batch_os_def batch_sample_def)
  show ?thesis
    using host_root_batch_marker_last [OF sp prior printed run] by (simp add: batch_sample_def)
qed

text \<open>An operator without a subordinate gid range gets no plan at all. The classifier raises before it looks
  at any item, so the very item that would create the range is never offered.\<close>

theorem classify_needs_subgid:
  assumes "parse_subgid_for_user (w_env w) (ctx_operator ctx) = []"
  shows "\<exists>exc. classify_host_root_batch os ctx w = (Inl exc, w)"
  using assms
  by (cases "getpwnam (w_env w) (ctx_operator ctx)")
    (simp_all add: classify_host_root_batch_def classify_params_def ebind_def from_host_def
      autodetect_workspace_bridge_gid_recommendation_def)

theorem classify_needs_subgid_witness:
  "parse_subgid_for_user (w_env (empty_host\<lparr>w_env := sample_env\<lparr>subgid_file := None\<rparr>\<rparr>)) (ctx_operator sample_ctx) = [] \<and>
   (\<exists>exc. classify_host_root_batch silent_os sample_ctx (empty_host\<lparr>w_env := sample_env\<lparr>subgid_file := None\<rparr>\<rparr>) =
      (Inl exc, empty_host\<lparr>w_env := sample_env\<lparr>subgid_file := None\<rparr>\<rparr>))"
proof -
  have none: "parse_subgid_for_user (w_env (empty_host\<lparr>w_env := sample_env\<lparr>subgid_file := None\<rparr>\<rparr>)) (ctx_operator sample_ctx) = []"
    by code_simp
  show ?thesis using none classify_needs_subgid [OF none, of silent_os] by blast
qed

end
