(* ===== verification/Setup_Extras.thy ===== *)
theory Setup_Extras
  imports Dispatcher_Install Host_Batch
begin

text \<open>
  The opt-in integrations of \<open>src/src/core/setup/extras\<close>: the registry with its sticky selection, and the phases that
  write the fapolicyd and AIDE drop-ins. The sha256 function and the directories of the host are arguments.
\<close>

section \<open>Registry\<close>

record extra_spec =
  ex_name :: string
  ex_flag :: string
  ex_dropin :: string
  ex_module :: string

definition TRUST_DROPIN_PATH :: string where
  "TRUST_DROPIN_PATH = ''/etc/fapolicyd/trust.d/sandbox-ai.trust''"

definition CONF_DROPIN_PATH :: string where
  "CONF_DROPIN_PATH = ''/etc/aide/aide.conf.d/sandbox-ai.conf''"

definition EXTRAS :: "(string, extra_spec) dict" where
  "EXTRAS =
     [(''fapolicyd'', \<lparr>ex_name = ''fapolicyd'', ex_flag = ''--enable-fapolicyd-integration'',
         ex_dropin = TRUST_DROPIN_PATH, ex_module = ''core.setup.extras.fapolicyd''\<rparr>),
      (''aide'', \<lparr>ex_name = ''aide'', ex_flag = ''--enable-aide-integration'',
         ex_dropin = CONF_DROPIN_PATH, ex_module = ''core.setup.extras.aide''\<rparr>)]"

definition selected_extras :: "(string, bool) dict \<Rightarrow> (string \<Rightarrow> bool) \<Rightarrow> string list" where
  "selected_extras enabled_flags fs_check =
     map ex_name (filter (\<lambda>spec. map_of enabled_flags (ex_name spec) = Some True \<or> fs_check (ex_dropin spec))
       (dict_values EXTRAS))"

section \<open>Shared parts\<close>

record extras_env =
  xe_sha256 :: "string \<Rightarrow> string"
  xe_isdir :: "string \<Rightarrow> bool"

text \<open>\<open>shutil.which\<close> on the process's own search path.\<close>

definition on_path :: "os_iface \<Rightarrow> string \<Rightarrow> bool host_effect" where
  "on_path os name = eget (\<lambda>w.
     list_ex (\<lambda>d. w_exec w (path_join d name))
       (py_split (CHR '':'') (case os_path os of None \<Rightarrow> ''/bin:/usr/bin'' | Some p \<Rightarrow> p)))"

text \<open>A read where any failure propagates.\<close>

definition read_bytes :: "string \<Rightarrow> string host_effect" where
  "read_bytes path = ebind (read_file path) (\<lambda>content.
     case content of None \<Rightarrow> ethrow (''[Errno 2] No such file or directory: '' @ py_repr path) | Some body \<Rightarrow> eret body)"

section \<open>fapolicyd\<close>

definition MANAGED_BINARIES :: "string list" where
  "MANAGED_BINARIES = [TARGET, target_path ''runsc'']"

definition trust_line :: "extras_env \<Rightarrow> string \<Rightarrow> string host_effect" where
  "trust_line xe path = ebind (read_bytes path) (\<lambda>body.
     eret (path @ '' '' @ nat_str (length body) @ '' '' @ xe_sha256 xe body))"

fun trust_lines :: "extras_env \<Rightarrow> string list \<Rightarrow> string list host_effect" where
  "trust_lines xe [] = eret []"
| "trust_lines xe (path # rest) = ebind (trust_line xe path) (\<lambda>l. ebind (trust_lines xe rest) (\<lambda>ls. eret (l # ls)))"

definition render_trust_content :: "extras_env \<Rightarrow> string host_effect" where
  "render_trust_content xe = ebind (trust_lines xe MANAGED_BINARIES) (\<lambda>ls.
     eret (py_join [newline] (MANAGED_HEADER # ls) @ [newline]))"

definition fapolicyd_active :: "os_iface \<Rightarrow> bool host_effect" where
  "fapolicyd_active os = exec_ok os (run_opts False False) [''systemctl'', ''is-active'', ''fapolicyd''] (\<lambda>_. True)"

definition fapolicyd_probe :: "os_iface \<Rightarrow> extras_env \<Rightarrow> setup_context \<Rightarrow> (phase_result \<times> string) host_effect" where
  "fapolicyd_probe os xe ctx = ebind (on_path os ''fapolicyd'') (\<lambda>installed.
     if \<not> installed then eret (CONFLICT, ''fapolicyd not installed. Run: sudo apt install fapolicyd (or sudo dnf install fapolicyd; Arch: paru -S fapolicyd), then re-run.'')
     else if \<not> xe_isdir xe ''/etc/fapolicyd/trust.d'' then
       eret (CONFLICT, ''fapolicyd installed but trust.d directory missing; check fapolicyd installation'')
     else ebind (render_trust_content xe) (\<lambda>expected.
       ebind (read_file TRUST_DROPIN_PATH) (\<lambda>existing.
       eret (case existing of
           None \<Rightarrow> (MISSING, ''fapolicyd trust drop-in absent at '' @ TRUST_DROPIN_PATH @
             ''; will write it and reload the trust DB'')
         | Some body \<Rightarrow>
             if body = expected then
               (ALREADY_CORRECT, ''fapolicyd trust drop-in at '' @ TRUST_DROPIN_PATH @ '' matches the current managed-binary shas'')
             else (DRIFT, ''fapolicyd trust drop-in at '' @ TRUST_DROPIN_PATH @
               '' records stale size/sha for a managed binary; will re-render and reload'')))))"

definition fapolicyd_act :: "os_iface \<Rightarrow> extras_env \<Rightarrow> setup_context \<Rightarrow> string host_effect" where
  "fapolicyd_act os xe ctx =
     ebind (render_trust_content xe) (\<lambda>content.
     ebind (write_root_file os TRUST_DROPIN_PATH content 420) (\<lambda>_.
     ebind (exec_run os (run_opts False False) [''fapolicyd-cli'', ''--update'']) (\<lambda>_.
     ebind (fapolicyd_active os) (\<lambda>active.
     eret (''wrote '' @ TRUST_DROPIN_PATH @ '' (0644 root:root) and reloaded the fapolicyd trust DB'' @
       (if active then [] else ''; WARNING: fapolicyd installed but not running. Run: sudo systemctl enable --now fapolicyd to start enforcement.''))))))"

definition fapolicyd_reverify :: "os_iface \<Rightarrow> setup_context \<Rightarrow> bool host_effect" where
  "fapolicyd_reverify os ctx =
     exec_ok os (run_opts False False) [''fapolicyd-cli'', ''--check-trust'', ''file='' @ TARGET]
       (\<lambda>cp. py_contains ''trusted: yes'' (stdout_of cp))"

definition fapolicyd_phase :: "os_iface \<Rightarrow> extras_env \<Rightarrow> host_world phase" where
  "fapolicyd_phase os xe =
     \<lparr>ph_id = ''fapolicyd'', ph_name = ''fapolicyd trust drop-in (optional integration)'', ph_identity = ROOT,
      ph_probe = fapolicyd_probe os xe, ph_act = fapolicyd_act os xe, ph_reverify = fapolicyd_reverify os,
      ph_depends_on = [''l8''], ph_rollback = None, ph_applies_in = both_modes\<rparr>"

section \<open>AIDE\<close>

definition CONF_CONTENT :: string where
  "CONF_CONTENT =
     MANAGED_HEADER @ [newline] @ TARGET @ '' NORMAL'' @ [newline] @ target_path ''runsc'' @ '' NORMAL'' @ [newline]"

definition DB_INIT_PROMPT :: string where
  "DB_INIT_PROMPT =
     ''AIDE conf.d snippet installed. To begin monitoring, run: sudo aide --init (warning: walks the entire filesystem; can take 10+ minutes), then schedule periodic checks via cron (e.g., daily aide --check at off-peak hours).''"

definition config_check_supported :: "os_iface \<Rightarrow> bool host_effect" where
  "config_check_supported os =
     exec_ok os (run_opts False False) [''aide'', ''--help''] (\<lambda>cp. py_contains ''--config-check'' (stdout_of cp))"

definition aide_probe :: "os_iface \<Rightarrow> extras_env \<Rightarrow> setup_context \<Rightarrow> (phase_result \<times> string) host_effect" where
  "aide_probe os xe ctx = ebind (on_path os ''aide'') (\<lambda>installed.
     if \<not> installed then eret (CONFLICT, ''aide not installed. Run: sudo apt install aide (or sudo dnf install aide; Arch: sudo pacman -S aide), then re-run.'')
     else if \<not> xe_isdir xe ''/etc/aide/aide.conf.d'' then
       eret (CONFLICT, ''AIDE on this host does not support /etc/aide/aide.conf.d/ drop-ins; manually integrate per docs/setup-guide.md'')
     else ebind (read_file CONF_DROPIN_PATH) (\<lambda>existing.
       eret (case existing of
           None \<Rightarrow> (MISSING, ''AIDE conf.d drop-in absent at '' @ CONF_DROPIN_PATH @ ''; will write it'')
         | Some body \<Rightarrow>
             if body = CONF_CONTENT then
               (ALREADY_CORRECT, ''AIDE conf.d drop-in at '' @ CONF_DROPIN_PATH @ '' matches the canonical managed-binary snippet'')
             else (DRIFT, ''AIDE conf.d drop-in at '' @ CONF_DROPIN_PATH @
               '' differs from the canonical managed-binary snippet; will re-render''))))"

definition aide_act :: "os_iface \<Rightarrow> setup_context \<Rightarrow> string host_effect" where
  "aide_act os ctx =
     ebind (write_root_file os CONF_DROPIN_PATH CONF_CONTENT 420) (\<lambda>_.
     ebind (config_check_supported os) (\<lambda>supported.
     ebind (ewhen supported (ebind (exec_run os (run_opts False False) [''aide'', ''--config-check'']) (\<lambda>_. eret ()))) (\<lambda>_.
     ebind (eget (path_present ''/var/lib/aide/aide.db'')) (\<lambda>db.
     eret (''wrote '' @ CONF_DROPIN_PATH @ '' (0644 root:root)'' @
       (if supported then ''; validated via aide --config-check'' else []) @
       (if db then [] else ''. '' @ DB_INIT_PROMPT))))))"

definition aide_reverify :: "setup_context \<Rightarrow> bool host_effect" where
  "aide_reverify ctx = ebind (read_file CONF_DROPIN_PATH) (\<lambda>existing. eret (existing = Some CONF_CONTENT))"

definition aide_phase :: "os_iface \<Rightarrow> extras_env \<Rightarrow> host_world phase" where
  "aide_phase os xe =
     \<lparr>ph_id = ''aide'', ph_name = ''AIDE conf.d drop-in (optional integration)'', ph_identity = ROOT,
      ph_probe = aide_probe os xe, ph_act = aide_act os, ph_reverify = aide_reverify,
      ph_depends_on = [''l8''], ph_rollback = None, ph_applies_in = both_modes\<rparr>"

definition load_phase :: "os_iface \<Rightarrow> extras_env \<Rightarrow> extra_spec \<Rightarrow> host_world phase" where
  "load_phase os xe spec = (if ex_name spec = ''fapolicyd'' then fapolicyd_phase os xe else aide_phase os xe)"

end
