(* ===== verification/Setup_Flow.thy ===== *)
theory Setup_Flow
  imports Setup_Extras
begin

text \<open>
  The ceremony around the phases: \<open>src/src/core/setup/cli_flow.py\<close> (phase list, tallies, gate, renderings) and the setup
  commands of \<open>src/src/cli/main.py\<close> (mode resolution, flag guards, the bodies of both modes, the runsc update and the
  privileged batch). A command returns its exit code and the lines it prints; standard input is one reply, and
  interrupts are not modelled.
\<close>

section \<open>Phase list\<close>

text \<open>The modules of \<open>core.setup\<close> in the order of their names, with the phases they export.\<close>

definition setup_modules :: "os_iface \<Rightarrow> dispatch_build \<Rightarrow> bool \<Rightarrow> (string \<times> host_world phase option) list" where
  "setup_modules os bld force =
     [(''cli_flow'', None), (''extras'', None), (''host_batch'', None), (''l0_identity'', Some (l0_phase os)),
      (''l1_kernel'', Some (l1_phase os)), (''l2_host_prereqs'', Some (l2_phase os)),
      (''l2a_delegate'', Some (l2a_phase os)), (''l3_sudoers'', Some (l3_phase os)),
      (''l3a_per_op_probe'', Some (l3a_phase os)), (''l5_dockerd'', Some (l5_phase os)),
      (''l65_dispatcher'', Some (l65_phase os bld)), (''l6_daemon_json'', Some (l6_phase os)),
      (''l6a_runsc'', Some (l6a_phase os force)), (''l7_helper_image'', Some (l7_phase os)),
      (''l8_fresh_session'', Some (l8_phase os)), (''phase_runner'', None), (''subid'', None)]"

definition dependency_text :: "dependency_error \<Rightarrow> string" where
  "dependency_text e =
     (case e of
        UnknownDependency p d \<Rightarrow> ''phase '' @ py_repr p @ '' depends on unknown phase '' @ py_repr d
      | DependencyCycle cyc \<Rightarrow> ''dependency cycle among phases: '' @ py_repr_list cyc)"

definition base_phases :: "os_iface \<Rightarrow> dispatch_build \<Rightarrow> bool \<Rightarrow> string + host_world phase list" where
  "base_phases os bld force =
     bindE (discover_phases (setup_modules os bld force)) (\<lambda>ps.
       map_sum dependency_text id (order_phases False ps))"

definition build_phase_list ::
  "os_iface \<Rightarrow> dispatch_build \<Rightarrow> extras_env \<Rightarrow> bool \<Rightarrow> string list \<Rightarrow> string + host_world phase list" where
  "build_phase_list os bld xe force names =
     bindE (base_phases os bld force) (\<lambda>base.
       Inr (base @ List.map_filter (\<lambda>name. map_option (load_phase os xe) (map_of EXTRAS name)) names))"

section \<open>Plan\<close>

text \<open>The glyphs are kept in their UTF-8 encoding.\<close>

definition plan_glyph :: "phase_result \<Rightarrow> string" where
  "plan_glyph r =
     (case r of
        ALREADY_CORRECT \<Rightarrow> [CHR 0xE2, CHR 0x9C, CHR 0x93]
      | SKIPPED \<Rightarrow> [CHR 0xE2, CHR 0x9C, CHR 0x93]
      | MISSING \<Rightarrow> [CHR 0xE2, CHR 0x8A, CHR 0x99]
      | DRIFT \<Rightarrow> [CHR 0xE2, CHR 0x8A, CHR 0x99]
      | BLOCKED_BY \<Rightarrow> [CHR 0xE2, CHR 0x9A, CHR 0xA0]
      | CONFLICT \<Rightarrow> [CHR 0xE2, CHR 0x9C, CHR 0x97]
      | FAIL \<Rightarrow> [CHR 0xE2, CHR 0x9C, CHR 0x97])"

record plan_tally =
  pt_correct :: nat
  pt_mutate :: nat
  pt_blocked :: nat
  pt_refused :: nat

definition pt_total :: "plan_tally \<Rightarrow> nat" where
  "pt_total t = pt_correct t + pt_mutate t + pt_blocked t + pt_refused t"

definition tally_step :: "phase_plan_outcome \<Rightarrow> plan_tally \<Rightarrow> plan_tally" where
  "tally_step p t =
     (if pp_result p \<in> {ALREADY_CORRECT, SKIPPED} then t\<lparr>pt_correct := pt_correct t + 1\<rparr>
      else if pp_result p \<in> {MISSING, DRIFT} then t\<lparr>pt_mutate := pt_mutate t + 1\<rparr>
      else if pp_result p \<in> {CONFLICT, FAIL} then t\<lparr>pt_refused := pt_refused t + 1\<rparr>
      else t\<lparr>pt_blocked := pt_blocked t + 1\<rparr>)"

definition tally_plan :: "phase_plan_outcome list \<Rightarrow> plan_tally" where
  "tally_plan outcomes = fold tally_step outcomes \<lparr>pt_correct = 0, pt_mutate = 0, pt_blocked = 0, pt_refused = 0\<rparr>"

definition plan_summary_line :: "plan_tally \<Rightarrow> string" where
  "plan_summary_line t =
     ''Summary: '' @ nat_str (pt_correct t) @ '' already correct, '' @ nat_str (pt_mutate t) @ '' will mutate, '' @
     nat_str (pt_blocked t) @ '' blocked, '' @ nat_str (pt_refused t) @ '' refused''"

text \<open>\<open>{p.id: p.name for p in phases}\<close>: the last phase of an id gives the name.\<close>

definition name_by_id :: "'w phase list \<Rightarrow> string \<Rightarrow> string" where
  "name_by_id phases k = (case map_of (rev (map (\<lambda>p. (ph_id p, ph_name p)) phases)) k of None \<Rightarrow> k | Some n \<Rightarrow> n)"

definition render_plan :: "'w phase list \<Rightarrow> phase_plan_outcome list \<Rightarrow> string list" where
  "render_plan phases outcomes =
     map (\<lambda>p. ''  '' @ plan_glyph (pp_result p) @ '' '' @ name_by_id phases (pp_id p) @ '' '' @ em_dash @ '' '' @ pp_detail p)
       outcomes"

definition refusal_lines :: "'w phase list \<Rightarrow> phase_plan_outcome list \<Rightarrow> string list" where
  "refusal_lines phases outcomes =
     map (\<lambda>p. ''  '' @ plan_glyph FAIL @ '' '' @ name_by_id phases (pp_id p) @ '': '' @ pp_detail p)
       (filter (\<lambda>p. pp_result p \<in> {CONFLICT, FAIL}) outcomes)"

section \<open>Gate\<close>

datatype gate_outcome = NOTHING_TO_APPLY | REFUSED | NON_TTY_NEEDS_YES | PROMPT | PROCEED

definition decide_gate :: "phase_plan_outcome list \<Rightarrow> bool \<Rightarrow> bool \<Rightarrow> nat \<Rightarrow> gate_outcome \<times> plan_tally" where
  "decide_gate outcomes is_tty assume_yes extra_mutations =
     (let tally = tally_plan outcomes in
      (if pt_refused tally > 0 then REFUSED
       else if pt_mutate tally + extra_mutations = 0 then NOTHING_TO_APPLY
       else if assume_yes then PROCEED
       else if \<not> is_tty then NON_TTY_NEEDS_YES
       else PROMPT, tally))"

definition prompt_response_proceeds :: "string \<Rightarrow> bool" where
  "prompt_response_proceeds raw = (py_lower (py_strip raw) \<in> {''y'', ''yes''})"

section \<open>Apply\<close>

definition apply_glyph :: "phase_result \<Rightarrow> string" where
  "apply_glyph r =
     (case r of ALREADY_CORRECT \<Rightarrow> ''OK'' | SKIPPED \<Rightarrow> ''SKIP'' | CONFLICT \<Rightarrow> ''REFUSED'' | FAIL \<Rightarrow> ''FAIL''
      | BLOCKED_BY \<Rightarrow> ''BLOCKED-BY'' | _ \<Rightarrow> ''OK'')"

record apply_tally =
  at_correct :: nat
  at_applied :: nat
  at_blocked :: nat
  at_refused :: nat
  at_failed :: nat

definition at_total :: "apply_tally \<Rightarrow> nat" where
  "at_total t = at_correct t + at_applied t + at_blocked t + at_refused t + at_failed t"

definition apply_tally_step :: "phase_apply_outcome \<Rightarrow> apply_tally \<Rightarrow> apply_tally" where
  "apply_tally_step p t =
     (if pa_result p = FAIL then t\<lparr>at_failed := at_failed t + 1\<rparr>
      else if pa_result p = BLOCKED_BY then t\<lparr>at_blocked := at_blocked t + 1\<rparr>
      else if pa_result p = CONFLICT then t\<lparr>at_refused := at_refused t + 1\<rparr>
      else if pa_result p = SKIPPED then t\<lparr>at_correct := at_correct t + 1\<rparr>
      else if pa_reverified p then t\<lparr>at_applied := at_applied t + 1\<rparr>
      else t\<lparr>at_correct := at_correct t + 1\<rparr>)"

definition tally_apply :: "phase_apply_outcome list \<Rightarrow> apply_tally" where
  "tally_apply outcomes =
     fold apply_tally_step outcomes \<lparr>at_correct = 0, at_applied = 0, at_blocked = 0, at_refused = 0, at_failed = 0\<rparr>"

definition apply_summary_line :: "apply_tally \<Rightarrow> string" where
  "apply_summary_line t =
     ''Summary: '' @ nat_str (at_correct t) @ '' already correct, '' @ nat_str (at_applied t) @ '' applied, '' @
     nat_str (at_blocked t) @ '' blocked, '' @ nat_str (at_refused t) @ '' refused, '' @ nat_str (at_failed t) @ '' failed''"

definition render_apply :: "'w phase list \<Rightarrow> phase_apply_outcome list \<Rightarrow> string list" where
  "render_apply phases outcomes =
     map (\<lambda>p. ''  ['' @ apply_glyph (pa_result p) @ ''] '' @ name_by_id phases (pa_id p) @ '' '' @ em_dash @ '' '' @ pa_detail p)
       outcomes"

definition result_value :: "phase_result \<Rightarrow> string" where
  "result_value r =
     (case r of ALREADY_CORRECT \<Rightarrow> ''already-correct'' | MISSING \<Rightarrow> ''missing'' | DRIFT \<Rightarrow> ''drift'' | CONFLICT \<Rightarrow> ''conflict''
      | FAIL \<Rightarrow> ''fail'' | BLOCKED_BY \<Rightarrow> ''blocked-by'' | SKIPPED \<Rightarrow> ''skipped'')"

definition apply_remediation_lines :: "'w phase list \<Rightarrow> phase_apply_outcome list \<Rightarrow> string list" where
  "apply_remediation_lines phases outcomes =
     map (\<lambda>p. ''  '' @ plan_glyph FAIL @ '' '' @ name_by_id phases (pa_id p) @ '' ('' @ result_value (pa_result p) @ ''): '' @ pa_detail p)
       (filter (\<lambda>p. pa_result p \<in> {FAIL, BLOCKED_BY}) outcomes)"

definition apply_pass_failed :: "phase_apply_outcome list \<Rightarrow> bool" where
  "apply_pass_failed outcomes = list_ex (\<lambda>p. pa_result p \<in> {FAIL, BLOCKED_BY, CONFLICT}) outcomes"

definition summarize_apply :: "'w phase list \<Rightarrow> phase_apply_outcome list \<Rightarrow> string list" where
  "summarize_apply phases outcomes =
     (let remediation = apply_remediation_lines phases outcomes in
      render_apply phases outcomes @
      (if remediation \<noteq> [] then [[], ''Remediation:''] @ remediation else []) @
      [[], apply_summary_line (tally_apply outcomes)])"

section \<open>Mode and operator\<close>

datatype setup_refusal =
    ModeConflict string docker_execution_mode docker_execution_mode
  | InvalidModeFlag string
  | OperatorRefused operator_error
  | UserFlagInapplicable
  | OperatorNotInvoker string string
  | SudoUserNotInvoker string string
  | OwnerIsRoot string
  | NotRoot
  | MustNotBeRoot

definition resolve_effective_mode ::
  "string \<Rightarrow> docker_execution_mode option \<Rightarrow> docker_execution_mode option \<Rightarrow> setup_refusal + docker_execution_mode" where
  "resolve_effective_mode operator recorded mode_flag =
     (case recorded of
        None \<Rightarrow> Inr (case mode_flag of Some m \<Rightarrow> m | None \<Rightarrow> DEFAULT_PROVISIONING_MODE)
      | Some r \<Rightarrow>
          (case mode_flag of
             Some m \<Rightarrow> if m \<noteq> r then Inl (ModeConflict operator r m) else Inr r
           | None \<Rightarrow> Inr r))"

definition parse_mode_flag :: "string option \<Rightarrow> setup_refusal + docker_execution_mode option" where
  "parse_mode_flag flag =
     (case flag of
        None \<Rightarrow> Inr None
      | Some s \<Rightarrow> (case mode_of_json (JStr s) of Inl _ \<Rightarrow> Inl (InvalidModeFlag s) | Inr m \<Rightarrow> Inr (Some m)))"

text \<open>The process: its effective uid, its user and its environment.\<close>

record setup_proc =
  sp_euid :: int
  sp_environ :: "(string, string) dict"
  sp_tty :: bool
  sp_reply :: string

definition resolve_setup_operator :: "setup_proc \<Rightarrow> host_env \<Rightarrow> string option \<Rightarrow> setup_refusal + string" where
  "resolve_setup_operator pr env operator_flag =
     (case resolve_operator env (sp_environ pr) operator_flag of
        Inr operator \<Rightarrow> Inr operator
      | Inl e \<Rightarrow> if sp_euid pr \<noteq> 0 then Inr (getuser env) else Inl (OperatorRefused e))"

definition is_root_user :: "host_env \<Rightarrow> string \<Rightarrow> bool" where
  "is_root_user env name = (case getpwnam env name of None \<Rightarrow> False | Some pw \<Rightarrow> pw_uid pw = 0)"

definition refuse_wrong_setup_identity :: "setup_proc \<Rightarrow> host_settings \<Rightarrow> setup_refusal + unit" where
  "refuse_wrong_setup_identity pr h =
     (if is_operator_rootless h then (if sp_euid pr = 0 then Inl MustNotBeRoot else Inr ())
      else if sp_euid pr \<noteq> 0 then Inl NotRoot else Inr ())"

definition guard_rootless_flags ::
  "setup_proc \<Rightarrow> host_env \<Rightarrow> string option \<Rightarrow> string \<Rightarrow> setup_refusal + unit" where
  "guard_rootless_flags pr env operator_flag daemon_user =
     (if daemon_user \<noteq> ''sandbox'' then Inl UserFlagInapplicable
      else case operator_flag of
        Some flag \<Rightarrow> if flag \<noteq> getuser env then Inl (OperatorNotInvoker flag (getuser env)) else Inr ()
      | None \<Rightarrow>
          (case map_of (sp_environ pr) ''SUDO_USER'' of
             None \<Rightarrow> Inr ()
           | Some sudo_user \<Rightarrow>
               if sudo_user \<noteq> getuser env then Inl (SudoUserNotInvoker sudo_user (getuser env)) else Inr ()))"

definition guard_setup_flags ::
  "setup_proc \<Rightarrow> host_env \<Rightarrow> host_settings \<Rightarrow> string option \<Rightarrow> string \<Rightarrow> setup_refusal + unit" where
  "guard_setup_flags pr env h operator_flag daemon_user =
     bindE (if is_operator_rootless h then guard_rootless_flags pr env operator_flag daemon_user else Inr ()) (\<lambda>_.
       case resolve_daemon_owner_settings env h of
         Inl _ \<Rightarrow> Inr ()
       | Inr owner \<Rightarrow> if owner = ''root'' \<or> is_root_user env owner then Inl (OwnerIsRoot owner) else Inr ())"

text \<open>A setup context, or the refusal; reading the marker may raise.\<close>

definition build_setup_context ::
  "os_iface \<Rightarrow> setup_proc \<Rightarrow> string option \<Rightarrow> string option \<Rightarrow> string \<Rightarrow> (setup_refusal + setup_context) host_effect" where
  "build_setup_context os pr operator_flag mode_flag daemon_user =
     ebind (eget (\<lambda>w. resolve_setup_operator pr (w_env w) operator_flag)) (\<lambda>op_r.
     case op_r of
       Inl e \<Rightarrow> eret (Inl e)
     | Inr operator \<Rightarrow>
         (case parse_mode_flag mode_flag of
            Inl e \<Rightarrow> eret (Inl e)
          | Inr flag \<Rightarrow>
              ebind (read_mode os operator) (\<lambda>recorded.
              case resolve_effective_mode operator recorded flag of
                Inl e \<Rightarrow> eret (Inl e)
              | Inr mode \<Rightarrow>
                  (case validate_docker_unprivileged_user
                      \<lparr>docker_unprivileged_user = Some daemon_user, docker_execution_mode = mode,
                       workspace_bridge_group = workspace_bridge_group_for operator mode\<rparr> of
                     Inl err \<Rightarrow> ethrow (host_error_text err)
                   | Inr h \<Rightarrow> eret (Inr \<lparr>ctx_host = h, ctx_operator = operator\<rparr>)))))"

end
