(* ===== verification/Setup_Cli.thy ===== *)
theory Setup_Cli
  imports Setup_Flow
begin

text \<open>
  The setup commands of \<open>src/src/cli/main.py\<close>: the bodies of both modes, the runsc update, the escalation and the
  privileged batch. A command returns its exit code and the lines it prints.
\<close>

section \<open>Steps\<close>

type_synonym command_result = "int \<times> string list"

record setup_env =
  se_os :: os_iface
  se_build :: dispatch_build
  se_extras :: extras_env
  se_proc :: setup_proc

definition plan_pass :: "bool \<Rightarrow> setup_context \<Rightarrow> host_world phase list \<Rightarrow> phase_plan_outcome list host_effect" where
  "plan_pass external ctx phases w =
     (case run_plan_pass external ctx phases w of
        Inl e \<Rightarrow> (Inl (dependency_text e), w)
      | Inr (outs, w') \<Rightarrow> (Inr outs, w'))"

definition apply_pass :: "bool \<Rightarrow> setup_context \<Rightarrow> host_world phase list \<Rightarrow> phase_apply_outcome list host_effect" where
  "apply_pass external ctx phases w =
     (case run_apply_pass external ctx phases w of
        Inl e \<Rightarrow> (Inl (dependency_text e), w)
      | Inr (outs, w') \<Rightarrow> (Inr outs, w'))"

definition phase_list :: "setup_env \<Rightarrow> bool \<Rightarrow> string list \<Rightarrow> host_world phase list host_effect" where
  "phase_list se force names = elift (build_phase_list (se_os se) (se_build se) (se_extras se) force names)"

definition active_extras :: "(string, bool) dict \<Rightarrow> string list host_effect" where
  "active_extras flags = eget (\<lambda>w. selected_extras flags (\<lambda>path. path_present path w))"

definition finish_apply :: "host_world phase list \<Rightarrow> phase_apply_outcome list \<Rightarrow> string list \<Rightarrow> command_result" where
  "finish_apply phases outs printed =
     ((if apply_pass_failed outs then 1 else 0), printed @ summarize_apply phases outs)"

text \<open>The distro gate: \<open>None\<close> lets the command go on.\<close>

definition gate_distro :: "setup_env \<Rightarrow> bool \<Rightarrow> command_result option host_effect" where
  "gate_distro se yes = ebind classify_distro (\<lambda>(tier, raw_id, version).
     eret (case distro_gate (sp_tty (se_proc se)) yes tier of
       None \<Rightarrow> Some (1, [unsupported_distro_refusal raw_id version])
     | Some _ \<Rightarrow> None))"

text \<open>What the gate decides, its prompt answered: a result, or \<open>None\<close> to apply.\<close>

definition gate_result ::
  "setup_proc \<Rightarrow> host_world phase list \<Rightarrow> phase_plan_outcome list \<Rightarrow> gate_outcome \<Rightarrow> command_result option" where
  "gate_result pr phases plan outcome =
     (case outcome of
        NOTHING_TO_APPLY \<Rightarrow> Some (0, [''Nothing to apply. Setup is complete.''])
      | REFUSED \<Rightarrow> Some (1, refusal_lines phases plan @ [''Setup will not enter the apply pass.''])
      | NON_TTY_NEEDS_YES \<Rightarrow> Some (1, [''non-interactive context requires --yes flag to apply mutations''])
      | PROMPT \<Rightarrow>
          if \<not> prompt_response_proceeds (sp_reply pr) then Some (0, [''aborted by operator (n). No mutations applied.''])
          else None
      | PROCEED \<Rightarrow> None)"

section \<open>Separate-user\<close>

definition run_setup_update_runsc :: "setup_env \<Rightarrow> setup_context \<Rightarrow> command_result host_effect" where
  "run_setup_update_runsc se ctx =
     ebind (phase_list se True []) (\<lambda>all_phases.
     (let phases = filter (\<lambda>p. ph_id p = ''l6a'') all_phases in
      ebind (plan_pass True ctx phases) (\<lambda>plan.
      ebind (apply_pass True ctx phases) (\<lambda>outs.
      eret (finish_apply phases outs (render_plan phases plan @ [plan_summary_line (tally_plan plan)]))))))"

definition record_separate_user_mode :: "setup_env \<Rightarrow> setup_context \<Rightarrow> unit host_effect" where
  "record_separate_user_mode se ctx =
     ebind (from_host (\<lambda>env. workspace_bridge_gid env (ctx_host ctx))) (\<lambda>gid.
     write_mode_root_owned (se_os se) (ctx_operator ctx) SEPARATE_USER (workspace_bridge_group (ctx_host ctx)) gid
       (docker_unprivileged_user (ctx_host ctx)))"

definition setup_apply_separate ::
  "setup_env \<Rightarrow> setup_context \<Rightarrow> host_world phase list \<Rightarrow> string list \<Rightarrow> command_result host_effect" where
  "setup_apply_separate se ctx phases printed =
     ebind (apply_pass False ctx phases) (\<lambda>outs.
     ebind (ewhen (\<not> apply_pass_failed outs) (record_separate_user_mode se ctx)) (\<lambda>_.
     eret (finish_apply phases outs printed)))"

definition setup_gated_separate ::
  "setup_env \<Rightarrow> setup_context \<Rightarrow> bool \<Rightarrow> host_world phase list \<Rightarrow> phase_plan_outcome list \<Rightarrow> string list \<Rightarrow>
   command_result host_effect" where
  "setup_gated_separate se ctx yes phases plan printed =
     (let outcome = fst (decide_gate plan (sp_tty (se_proc se)) yes 0) in
      case gate_result (se_proc se) phases plan outcome of
        Some (code, extra) \<Rightarrow>
          ebind (ewhen (outcome = NOTHING_TO_APPLY) (record_separate_user_mode se ctx)) (\<lambda>_. eret (code, printed @ extra))
      | None \<Rightarrow> setup_apply_separate se ctx phases printed)"

definition setup_body_separate ::
  "setup_env \<Rightarrow> setup_context \<Rightarrow> bool \<Rightarrow> bool \<Rightarrow> (string, bool) dict \<Rightarrow> command_result host_effect" where
  "setup_body_separate se ctx dry_run yes flags =
     ebind (gate_distro se yes) (\<lambda>refused. case refused of Some res \<Rightarrow> eret res | None \<Rightarrow>
     ebind (active_extras flags) (\<lambda>names.
     ebind (phase_list se False names) (\<lambda>phases.
     ebind (plan_pass False ctx phases) (\<lambda>plan.
     (let printed = render_plan phases plan @ [plan_summary_line (tally_plan plan)] in
      if dry_run then eret (0, printed)
      else setup_gated_separate se ctx yes phases plan printed)))))"

section \<open>Operator-rootless\<close>

definition batch_order :: "batch_item set \<Rightarrow> batch_item list" where
  "batch_order items = filter (\<lambda>i. i \<in> items) HOST_ROOT_BATCH"

definition host_root_batch_plan_lines :: "batch_item set \<Rightarrow> string list" where
  "host_root_batch_plan_lines items =
     (if batch_order items = [] then [''Host-root prerequisites: all satisfied (no escalation needed).'']
      else [''Host-root prerequisites needing one `sudo` escalation: '' @ py_join '', '' (map item_value (batch_order items))])"

definition finalization_lines :: "batch_item set \<Rightarrow> batch_params \<Rightarrow> string list" where
  "finalization_lines items prm =
     (if GROUPADD \<in> items then
        [''Setup complete.'',
         ''You were added to the '' @ sq (bp_group prm) @ '' group '' @ em_dash @
         '' log out and back in to refresh your group membership before `sandbox start`.'']
      else [''Setup complete.''])"

text \<open>The one escalation: \<open>exe\<close> is the resolved program.\<close>

definition escalation_argv :: "string \<Rightarrow> batch_item set \<Rightarrow> batch_params \<Rightarrow> string list" where
  "escalation_argv exe items prm =
     [''env'', ''PYTHONDONTWRITEBYTECODE=1'', exe, ''_bootstrap-host''] @ drop 2 (build_bootstrap_argv items prm)"

definition run_bootstrap_escalation ::
  "os_iface \<Rightarrow> string \<Rightarrow> batch_item set \<Rightarrow> batch_params \<Rightarrow> bool \<Rightarrow> bool host_effect" where
  "run_bootstrap_escalation os exe items prm is_tty =
     (if is_tty then
        ebind (os_run os ([''sudo''] @ escalation_argv exe items prm)) (\<lambda>p. eret (p_rc p = 0))
      else ebind (os_run os [''sudo'', ''-n'', ''true'']) (\<lambda>p.
        if p_rc p \<noteq> 0 then eret False
        else ebind (os_run os ([''sudo'', ''-n''] @ escalation_argv exe items prm)) (\<lambda>q. eret (p_rc q = 0))))"

definition setup_apply_rootless ::
  "setup_env \<Rightarrow> string \<Rightarrow> setup_context \<Rightarrow> host_world phase list \<Rightarrow> batch_item set \<Rightarrow> batch_params \<Rightarrow> string list \<Rightarrow>
   command_result host_effect" where
  "setup_apply_rootless se exe ctx phases items prm printed =
     ebind (if items = {} then eret True
            else run_bootstrap_escalation (se_os se) exe items prm (sp_tty (se_proc se))) (\<lambda>escalated.
     if \<not> escalated then
       ebind (render_remediation_block items prm) (\<lambda>block.
         eret (1, printed @ [''no escalation path for the host-root prerequisites; run them manually:''] @ py_splitlines block))
     else ebind (apply_pass False ctx phases) (\<lambda>outs.
       eret (let (code, out) = finish_apply phases outs printed in
         (code, out @ (if code = 0 then finalization_lines items prm else [])))))"

definition setup_body_operator_rootless ::
  "setup_env \<Rightarrow> string \<Rightarrow> setup_context \<Rightarrow> bool \<Rightarrow> bool \<Rightarrow> (string, bool) dict \<Rightarrow> command_result host_effect" where
  "setup_body_operator_rootless se exe ctx dry_run yes flags =
     ebind (gate_distro se yes) (\<lambda>refused. case refused of Some res \<Rightarrow> eret res | None \<Rightarrow>
     ebind (active_extras flags) (\<lambda>names.
     ebind (phase_list se False names) (\<lambda>phases.
     ebind (plan_pass False ctx phases) (\<lambda>plan.
     ebind (classify_host_root_batch (se_os se) ctx) (\<lambda>(items, prm).
     (let printed = render_plan phases plan @ [plan_summary_line (tally_plan plan)] @ host_root_batch_plan_lines items in
      if dry_run then eret (0, printed)
      else case gate_result (se_proc se) phases plan
          (fst (decide_gate plan (sp_tty (se_proc se)) yes (length (batch_order items)))) of
        Some (code, extra) \<Rightarrow> eret (code, printed @ extra)
      | None \<Rightarrow> setup_apply_rootless se exe ctx phases items prm printed))))))"

section \<open>The command\<close>

definition setup_body ::
  "setup_env \<Rightarrow> string \<Rightarrow> setup_context \<Rightarrow> bool \<Rightarrow> bool \<Rightarrow> bool \<Rightarrow> (string, bool) dict \<Rightarrow> command_result host_effect" where
  "setup_body se exe ctx dry_run yes update_runsc flags =
     (if is_operator_rootless (ctx_host ctx) then setup_body_operator_rootless se exe ctx dry_run yes flags
      else if update_runsc then run_setup_update_runsc se ctx
      else setup_body_separate se ctx dry_run yes flags)"

record setup_options =
  so_operator :: "string option"
  so_dry_run :: bool
  so_yes :: bool
  so_update_runsc :: bool
  so_flags :: "(string, bool) dict"
  so_mode :: "string option"
  so_user :: string

text \<open>A refusal exits with 1 before anything is done.\<close>

definition setup_command :: "setup_env \<Rightarrow> string \<Rightarrow> setup_options \<Rightarrow> (setup_refusal + command_result) host_effect" where
  "setup_command se exe opts =
     ebind (build_setup_context (se_os se) (se_proc se) (so_operator opts) (so_mode opts) (so_user opts)) (\<lambda>built.
     case built of
       Inl e \<Rightarrow> eret (Inl e)
     | Inr ctx \<Rightarrow>
         (case refuse_wrong_setup_identity (se_proc se) (ctx_host ctx) of
            Inl e \<Rightarrow> eret (Inl e)
          | Inr _ \<Rightarrow>
              ebind (eget (\<lambda>w. guard_setup_flags (se_proc se) (w_env w) (ctx_host ctx) (so_operator opts) (so_user opts)))
                (\<lambda>guarded. case guarded of
                  Inl e \<Rightarrow> eret (Inl e)
                | Inr _ \<Rightarrow>
                    ebind (setup_body se exe ctx (so_dry_run opts) (so_yes opts) (so_update_runsc opts) (so_flags opts))
                      (\<lambda>res. eret (Inr res)))))"

text \<open>The privileged sub-command. \<open>caught\<close> tells which exceptions it turns into exit code 1: those of programs, files
  and the sandbox, but not a \<open>RuntimeError\<close>.\<close>

definition batch_item_of :: "string \<Rightarrow> batch_item option" where
  "batch_item_of s = find (\<lambda>i. item_value i = s) HOST_ROOT_BATCH"

definition bootstrap_host ::
  "os_iface \<Rightarrow> (string \<Rightarrow> bool) \<Rightarrow> int \<Rightarrow> string list \<Rightarrow> string \<Rightarrow> int \<Rightarrow> string \<Rightarrow> int \<Rightarrow> string \<Rightarrow> string \<Rightarrow> command_result host_effect" where
  "bootstrap_host os caught euid items operator uid grp gid family mode =
     (if euid \<noteq> 0 then eret (1, [''sandbox _bootstrap-host must be run as root; it is the operator-rootless host-root escalation step (invoked via: sudo sandbox _bootstrap-host).''])
      else if list_ex (\<lambda>i. batch_item_of i = None) items then eret (1, [''Invalid --item''])
      else case mode_of_json (JStr mode) of
        Inl _ \<Rightarrow> eret (1, [''Invalid --docker-execution-mode value: '' @ sq mode @ ''. Must be '' @ sq ''separate-user'' @
          '' or '' @ sq ''operator-rootless'' @ ''.''])
      | Inr m \<Rightarrow>
          ecatch (ebind (apply_host_root_batch os (set (map (\<lambda>i. the (batch_item_of i)) items))
              \<lparr>bp_operator = operator, bp_operator_uid = uid, bp_group = grp, bp_gid = gid, bp_family = family, bp_mode = m\<rparr>)
              (\<lambda>_. eret (0, [])))
            (\<lambda>exc. if caught exc then eret (1, [''host-root batch failed: '' @ exc @
                ''. The mode marker is written last, so a partial-batch failure leaves no marker (re-run setup to retry).''])
              else ethrow exc))"

end
