(* ===== verification/Setup_Safety.thy ===== *)
theory Setup_Safety
  imports Setup_Cli
begin

text \<open>
  What the setup ceremony as a whole promises: a run that is not confirmed changes nothing, and what the gate decides.
  The programs the probes start are listed here; whatever the others do to the host does not matter.
\<close>

section \<open>The programs that only answer\<close>

definition QUERIES :: "string list list" where
  "QUERIES = [[''sudo'', ''-V''], [''sudo'', ''--version''], [''getfacl'', ''-p'', ''/''],
     [''systemctl'', ''is-active'', ''systemd-machined''], [''lsmod'']]"

definition linger_query :: "string \<Rightarrow> string list" where
  "linger_query user = [''loginctl'', ''show-user'', user, ''--property=Linger'']"

definition OWNER_QUERIES :: "string list" where
  "OWNER_QUERIES = [''docker info'', ''docker info --format '' @ sq ''{{json .Runtimes}}'',
     ''docker image inspect '' @ HELPER_REF, ''docker image inspect '' @ HELPER_TAGGED]"

text \<open>These questions leave the host as it is.\<close>

definition answers :: "os_iface \<Rightarrow> setup_context \<Rightarrow> bool" where
  "answers os ctx =
     ((\<forall>argv \<in> set QUERIES. \<forall>w. reads (os_run os argv) w) \<and>
      (\<forall>user w. reads (os_run os (linger_query user)) w \<and> reads (exec_run os (run_opts False False) (linger_query user)) w) \<and>
      (\<forall>script \<in> set OWNER_QUERIES. \<forall>ok w. reads (ask_owner os ctx script ok) w))"

lemma answers_query:
  assumes "answers os ctx"
  shows "argv \<in> set QUERIES \<Longrightarrow> reads (os_run os argv) w" "argv \<in> set QUERIES \<Longrightarrow> reads (run_query os argv p) w"
    "reads (run_query os [''loginctl'', ''show-user'', user, ''--property=Linger''] p) w"
    "reads (exec_ok os (run_opts False False) [''loginctl'', ''show-user'', user, ''--property=Linger''] ok) w"
    "script \<in> set OWNER_QUERIES \<Longrightarrow> reads (ask_owner os ctx script ok) w"
  using assms unfolding answers_def run_query_def exec_ok_def linger_query_def
  by (auto intro!: reads_ebind reads_ecatch)

lemma from_host_reads: "reads (from_host f) w"
  by (simp add: reads_def from_host_def)

lemma owner_reads: "reads (owner_crossing ctx) w" "reads (owner_user ctx) w" "reads (daemon_owner_of ctx) w"
    "reads (missing_owner ctx) w"
  by (simp_all add: reads_def owner_crossing_def owner_user_def daemon_owner_of_def from_host_def missing_owner_def
      elift_def eget_def)

lemma reads_pure: "reads (\<lambda>w. (f w, w)) w"
  by (simp add: reads_def)

lemmas reads_steps = from_host_reads owner_reads reads_pure reads_ebind reads_ecatch

section \<open>Every probe only reads\<close>

lemma probes_read:
  assumes "answers os ctx"
  shows "reads (l0_probe os ctx) w" "reads (l1_probe os ctx) w" "reads (l2_probe os ctx) w" "reads (l2a_probe ctx) w"
    "reads (l3_probe os ctx) w" "reads (l3a_probe ctx) w" "reads (l5_probe os ctx) w" "reads (l6_probe os ctx) w"
    "reads (l65_probe os bld ctx) w" "reads (l6a_probe os force ctx) w" "reads (l7_probe os ctx) w" "reads (l8_probe ctx) w"
proof -
  note q = answers_query [OF assms] reads_steps
  show "reads (l3a_probe ctx) w" "reads (l8_probe ctx) w" by (simp_all add: l3a_probe_def l8_probe_def)
  show "reads (l6a_probe os force ctx) w" unfolding l6a_probe_def detect_drift_def by (intro reads_ebind) auto
  show "reads (l7_probe os ctx) w" unfolding l7_probe_def ref_present_def
    by (auto intro!: q simp: OWNER_QUERIES_def)
  show "reads (l65_probe os bld ctx) w" unfolding l65_probe_def read_manifest_def
    by (auto intro!: q split: option.split)
  show "reads (l6_probe os ctx) w" unfolding l6_probe_def daemon_json_path_def read_doc_def runtime_registered_def
    by (auto intro!: q simp: OWNER_QUERIES_def split: option.split)
  show "reads (l5_probe os ctx) w" unfolding l5_probe_def dockerd_reachable_def linger_enabled_def
    by (auto intro!: q simp: OWNER_QUERIES_def split: option.split)
  show "reads (l3_probe os ctx) w"
    unfolding l3_probe_def expected_body_def resolve_systemd_run_path_def resolve_secure_path_binary_def secure_path_dirs_def
    by (auto intro!: q simp: QUERIES_def split: option.split sum.split)
  show "reads (l2a_probe ctx) w" unfolding l2a_probe_def compare_file_def
    by (auto intro!: q split: sum.split)
  show "reads (l2_probe os ctx) w" unfolding l2_probe_def machined_active_def
    by (auto intro!: q simp: QUERIES_def split: prod.split)
  show "reads (l1_probe os ctx) w" unfolding l1_probe_def compare_file_def acl_fs_supported_def cgroup_v2_active_def
    render_sysctl_dropin_def is_debian_family_def
    by (auto intro!: q simp: QUERIES_def)
  show "reads (l0_probe os ctx) w" unfolding l0_probe_def classify_distro_def distro_identity_def missing_binaries_def
    secure_path_dirs_def l0_detail_def read_os_release_def sudo_floor_warning_def parse_sudo_version_def
    by (auto intro!: q simp: QUERIES_def split: option.split sum.split)
qed

lemma trust_lines_read: "reads (trust_lines xe paths) w"
proof (induction paths)
  case (Cons path rest)
  then show ?case
    unfolding trust_lines.simps trust_line_def read_bytes_def by (intro reads_ebind) (auto split: option.split)
qed (simp add: reads_def)

lemma extra_probes_read: "reads (fapolicyd_probe os xe ctx) w" "reads (aide_probe os xe ctx) w"
  unfolding fapolicyd_probe_def aide_probe_def on_path_def render_trust_content_def
  by (auto intro!: reads_ebind trust_lines_read)

lemma phase_module_names:
  "map is_phase_module_name (map fst (setup_modules os bld force)) =
     [False, False, False, True, True, True, True, True, True, True, True, True, True, True, True, False, False]"
  by code_simp

lemma setup_modules_found:
  "discover_phases (setup_modules os bld force) =
     Inr [l0_phase os, l1_phase os, l2_phase os, l2a_phase os, l3_phase os, l3a_phase os, l5_phase os, l65_phase os bld,
       l6_phase os, l6a_phase os force, l7_phase os, l8_phase os]"
  using phase_module_names [of os bld force] by (simp add: setup_modules_def)

lemmas phase_defs = l0_phase_def l1_phase_def l2_phase_def l2a_phase_def l3_phase_def l3a_phase_def l5_phase_def
  l65_phase_def l6_phase_def l6a_phase_def l7_phase_def l8_phase_def

lemma phase_ids:
  "ph_id (l0_phase os) = ''l0''" "ph_id (l1_phase os) = ''l1''" "ph_id (l2_phase os) = ''l2''" "ph_id (l2a_phase os) = ''l2a''"
  "ph_id (l3_phase os) = ''l3''" "ph_id (l3a_phase os) = ''l3a''" "ph_id (l5_phase os) = ''l5''"
  "ph_id (l65_phase os bld) = ''l65''" "ph_id (l6_phase os) = ''l6''" "ph_id (l6a_phase os force) = ''l6a''"
  "ph_id (l7_phase os) = ''l7''" "ph_id (l8_phase os) = ''l8''" "ph_id (fapolicyd_phase os xe) = ''fapolicyd''"
  "ph_id (aide_phase os xe) = ''aide''"
  by (simp_all add: phase_defs fapolicyd_phase_def aide_phase_def)

lemma base_phases_found:
  assumes "base_phases os bld force = Inr ps"
  shows "set ps = {l0_phase os, l1_phase os, l2_phase os, l2a_phase os, l3_phase os, l3a_phase os, l5_phase os,
    l65_phase os bld, l6_phase os, l6a_phase os force, l7_phase os, l8_phase os}"
proof -
  define found where "found = [l0_phase os, l1_phase os, l2_phase os, l2a_phase os, l3_phase os, l3a_phase os, l5_phase os,
    l65_phase os bld, l6_phase os, l6a_phase os force, l7_phase os, l8_phase os]"
  have o: "order_phases False found = Inr ps"
    using assms unfolding base_phases_def setup_modules_found found_def [symmetric]
    by (cases "order_phases False found") auto
  have inj: "inj_on ph_id (set found)"
    by (rule distinct_map [THEN iffD1, THEN conjunct2]) (simp add: found_def phase_ids)
  have "set found \<subseteq> set ps"
    using order_phases_Inr(2,3) [OF o] inj by (metis inj_on_image_eq_iff order_refl)
  then have "set ps = set found" using order_phases_Inr(3) [OF o] by blast
  then show ?thesis by (simp add: found_def)
qed

lemma base_phases_ok:
  "is_ok (bindE (base_phases os bld force) (\<lambda>ps. map_sum dependency_text (map ph_id) (order_phases False ps)))"
  by code_simp

lemma base_phases_l6a:
  assumes "base_phases os bld force = Inr ps"
  shows "filter (\<lambda>p. ph_id p = ''l6a'') ps = [l6a_phase os force]"
proof -
  have "distinct (map ph_id ps)"
    using assms unfolding base_phases_def by (auto simp: bindE_Inr_iff dest: order_phases_Inr(1) elim!: map_sum_InrE)
  moreover have "set (filter (\<lambda>p. ph_id p = ''l6a'') ps) = {l6a_phase os force}"
    unfolding set_filter base_phases_found [OF assms] by (auto simp: phase_ids)
  ultimately show ?thesis
    by (intro distinct_single) (auto simp: distinct_map)
qed

lemma phase_list_Inr:
  assumes "phase_list se force names w = (Inr phases, w')"
  obtains base ext where "base_phases (se_os se) (se_build se) force = Inr base" "phases = base @ ext" "w' = w"
    "set ext \<subseteq> {fapolicyd_phase (se_os se) (se_extras se), aide_phase (se_os se) (se_extras se)}"
proof -
  from assms obtain base where b: "base_phases (se_os se) (se_build se) force = Inr base" "w' = w"
    "phases = base @ List.map_filter (\<lambda>name. map_option (load_phase (se_os se) (se_extras se)) (map_of EXTRAS name)) names"
    by (auto simp: phase_list_def build_phase_list_def elift_def bindE_Inr_iff split: sum.splits)
  have "set (List.map_filter (\<lambda>name. map_option (load_phase (se_os se) (se_extras se)) (map_of EXTRAS name)) names)
      \<subseteq> {fapolicyd_phase (se_os se) (se_extras se), aide_phase (se_os se) (se_extras se)}"
    by (auto simp: map_filter_def load_phase_def)
  with b that show thesis by blast
qed

lemma phase_list_probes_read:
  assumes "answers (se_os se) ctx" "phase_list se force names w = (Inr phases, w')" "p \<in> set phases"
  shows "reads (ph_probe p ctx) v"
  using assms(2,3) probes_read [OF assms(1)] extra_probes_read
  by (elim phase_list_Inr) (auto dest!: base_phases_found simp: phase_defs fapolicyd_phase_def aide_phase_def)

lemma plan_pass_reads:
  assumes "\<And>p v. p \<in> set phases \<Longrightarrow> reads (ph_probe p ctx) v"
  shows "reads (plan_pass ext ctx phases) w"
proof (cases "order_phases ext phases")
  case (Inr ys)
  have "snd (plan_one ctx y t) = w" if "y \<in> set ys" "t = w" for y t
    using assms [of y t] that order_phases_Inr(3) [OF Inr]
    by (auto simp: plan_one_def reads_def split: prod.splits sum.splits)
  then have "snd (sweep ph_id (\<lambda>_. False) (\<lambda>_. plan_one ctx) [] ys w) = w"
    using sweep_invariant [of ys "\<lambda>t. t = w" "\<lambda>_. plan_one ctx" w] by simp
  then obtain plan where "sweep ph_id (\<lambda>_. False) (\<lambda>_. plan_one ctx) [] ys w = (plan, w)" by (metis prod.collapse)
  with Inr show ?thesis by (simp add: reads_def plan_pass_def run_plan_pass_def)
qed (simp add: reads_def plan_pass_def run_plan_pass_def)

text \<open>The plan has an outcome for every phase whose id no other phase has.\<close>

lemma plan_pass_outcome:
  assumes "plan_pass ext ctx phases w = (Inr plan, w')" "p \<in> set phases"
    and "\<And>q. q \<in> set phases \<Longrightarrow> ph_id q = ph_id p \<Longrightarrow> q = p"
  shows "\<exists>t. fst (plan_one ctx p t) \<in> set plan"
proof -
  from assms(1) obtain ys where ys: "order_phases ext phases = Inr ys"
    and sw: "sweep ph_id (\<lambda>_. False) (\<lambda>_. plan_one ctx) [] ys w = (plan, w')"
    by (auto simp: plan_pass_def run_plan_pass_def bindE_def split: sum.splits)
  have "ph_id p \<in> ph_id ` set ys" using order_phases_Inr(2) [OF ys] assms(2) by blast
  then obtain q where q: "q \<in> set ys" "ph_id q = ph_id p" by auto
  then have "q = p" using order_phases_Inr(3) [OF ys] assms(3) by blast
  with q have "p \<in> set ys" by simp
  then obtain i where i: "i < length ys" "ys ! i = p" by (auto simp: in_set_conv_nth)
  have "length plan = length ys"
    using length_sweep [of ph_id "\<lambda>_. False" "\<lambda>_. plan_one ctx" "[]" ys w] unfolding sw by simp
  then have "plan ! i \<in> set plan" using i by simp
  moreover obtain t where "plan ! i = fst (plan_one ctx p t)" using sweep_nth [OF i(1) sw] i(2) by blast
  ultimately show ?thesis by metis
qed

section \<open>The gate\<close>

lemma tally_plan_counts:
  "pt_mutate (tally_plan plan) = length (filter (\<lambda>p. pp_result p \<in> {MISSING, DRIFT}) plan)"
  "pt_refused (tally_plan plan) = length (filter (\<lambda>p. pp_result p \<in> {CONFLICT, FAIL}) plan)"
proof -
  have "pt_mutate (fold tally_step plan t) = pt_mutate t + length (filter (\<lambda>p. pp_result p \<in> {MISSING, DRIFT}) plan) \<and>
    pt_refused (fold tally_step plan t) = pt_refused t + length (filter (\<lambda>p. pp_result p \<in> {CONFLICT, FAIL}) plan)" for t
    by (induction plan arbitrary: t) (auto simp: tally_step_def)
  then show "pt_mutate (tally_plan plan) = length (filter (\<lambda>p. pp_result p \<in> {MISSING, DRIFT}) plan)"
    "pt_refused (tally_plan plan) = length (filter (\<lambda>p. pp_result p \<in> {CONFLICT, FAIL}) plan)"
    by (simp_all add: tally_plan_def)
qed

lemma separate_plan_pending:
  assumes "phase_list se force names w0 = (Inr phases, w0')" "plan_pass ext ctx phases w = (Inr plan, w')"
    and "docker_execution_mode (ctx_host ctx) = SEPARATE_USER"
  shows "\<exists>p \<in> set plan. pp_id p = ''l3a'' \<and> pp_result p = MISSING"
proof -
  let ?p = "l3a_phase (se_os se)"
  obtain base ext where b: "base_phases (se_os se) (se_build se) force = Inr base" "phases = base @ ext"
    "set ext \<subseteq> {fapolicyd_phase (se_os se) (se_extras se), aide_phase (se_os se) (se_extras se)}"
    using assms(1) by (rule phase_list_Inr) blast
  have mem: "?p \<in> set phases" using b(2) base_phases_found [OF b(1)] by simp
  have uniq: "q = ?p" if "q \<in> set phases" "ph_id q = ph_id ?p" for q
  proof -
    from that(1) b(2) consider "q \<in> set base" | "q \<in> set ext" by auto
    then show ?thesis
    proof cases
      case 1
      then show ?thesis using that(2) unfolding base_phases_found [OF b(1)] by (elim insertE) (simp_all add: phase_ids)
    next
      case 2
      then show ?thesis using that(2) b(3) by (auto simp: phase_ids)
    qed
  qed
  obtain t where "fst (plan_one ctx ?p t) \<in> set plan"
    using plan_pass_outcome [OF assms(2) mem] uniq by blast
  moreover have "pp_result (fst (plan_one ctx ?p t)) = MISSING" "pp_id (fst (plan_one ctx ?p t)) = ''l3a''"
    using assms(3) by (simp_all add: plan_one_def mode_excluded_def l3a_phase_def l3a_probe_def eret_def)
  ultimately show ?thesis by blast
qed


lemma separate_never_nothing:
  assumes "phase_list se force names w0 = (Inr phases, w0')" "plan_pass ext ctx phases w = (Inr plan, w')"
    and "docker_execution_mode (ctx_host ctx) = SEPARATE_USER"
  shows "fst (decide_gate plan tty yes extra) \<noteq> NOTHING_TO_APPLY"
proof -
  have "filter (\<lambda>p. pp_result p \<in> {MISSING, DRIFT}) plan \<noteq> []"
    using separate_plan_pending [OF assms] by (auto simp: filter_empty_conv)
  then show ?thesis by (simp add: decide_gate_def tally_plan_counts Let_def)
qed

text \<open>Without \<open>--yes\<close>, nothing is applied unless the operator agreed at a terminal.\<close>

lemma gate_unconfirmed:
  assumes "\<not> yes" "\<not> (sp_tty pr \<and> prompt_response_proceeds (sp_reply pr))"
  shows "gate_result pr phases plan (fst (decide_gate plan (sp_tty pr) yes extra)) \<noteq> None"
  using assms by (auto simp: gate_result_def decide_gate_def Let_def split: gate_outcome.split)

lemma gate_distro_reads: "reads (gate_distro se yes) w"
  unfolding gate_distro_def classify_distro_def distro_identity_def read_os_release_def
  by (auto intro!: reads_ebind split: prod.split option.split)

lemma active_extras_reads: "reads (active_extras flags) w"
  by (simp add: active_extras_def)

lemma phase_list_reads: "reads (phase_list se force names) w"
  by (simp add: phase_list_def)

lemma all_loaded_reads: "answers os ctx \<Longrightarrow> reads (all_loaded os mods) w"
proof (induction mods)
  case (Cons m mods)
  then show ?case
    unfolding all_loaded.simps module_loaded_def by (intro reads_ebind answers_query) (auto simp: QUERIES_def)
qed (simp add: reads_def eret_def)

lemma classify_batch_reads:
  assumes "answers os ctx"
  shows "reads (classify_host_root_batch os ctx) w"
  unfolding classify_host_root_batch_def classify_params_def select_item_def subid_satisfied_def group_satisfied_def
    sysctl_satisfied_def nftables_satisfied_def delegation_present_def linger_satisfied_def runsc_satisfied_def
    marker_satisfied_def render_sysctl_dropin_def is_debian_family_def detect_drift_def read_entry_def load_marker_def
  by (auto intro!: answers_query [OF assms] all_loaded_reads [OF assms] reads_steps simp: QUERIES_def
      split: option.split prod.split)

text \<open>A later step may rely on what an earlier one returned.\<close>

lemma reads_ebind_result:
  "reads m w \<Longrightarrow> (\<And>a. m w = (Inr a, w) \<Longrightarrow> reads (f a) w) \<Longrightarrow> reads (ebind m f) w"
  by (cases "m w") (auto simp: reads_def ebind_def split: sum.splits)

lemma setup_body_separate_unconfirmed:
  assumes "answers (se_os se) ctx" "docker_execution_mode (ctx_host ctx) = SEPARATE_USER"
    and idle: "dry_run \<or> \<not> yes \<and> \<not> (sp_tty (se_proc se) \<and> prompt_response_proceeds (sp_reply (se_proc se)))"
  shows "reads (setup_body_separate se ctx dry_run yes flags) w"
proof -
  have gated: "reads (setup_gated_separate se ctx yes phases plan printed) w"
    if go: "\<not> dry_run" "phase_list se False names w = (Inr phases, w)" "plan_pass False ctx phases w = (Inr plan, w)"
    for names phases plan printed
  proof -
    obtain code extra where g: "gate_result (se_proc se) phases plan
        (fst (decide_gate plan (sp_tty (se_proc se)) yes 0)) = Some (code, extra)"
      using gate_unconfirmed [of yes "se_proc se" phases plan 0] idle go(1) by auto
    then show ?thesis
      using separate_never_nothing [OF go(2,3) assms(2)]
      by (simp add: setup_gated_separate_def Let_def ewhen_def reads_def ebind_def eret_def)
  qed
  show ?thesis
    unfolding setup_body_separate_def Let_def
    by (intro reads_ebind_result gate_distro_reads active_extras_reads phase_list_reads plan_pass_reads
        phase_list_probes_read [OF assms(1)])
      (auto intro!: gated reads_ebind_result active_extras_reads phase_list_reads plan_pass_reads
        phase_list_probes_read [OF assms(1)] split: option.split)
qed

lemma setup_body_rootless_unconfirmed:
  assumes "answers (se_os se) ctx"
    and idle: "dry_run \<or> \<not> yes \<and> \<not> (sp_tty (se_proc se) \<and> prompt_response_proceeds (sp_reply (se_proc se)))"
  shows "reads (setup_body_operator_rootless se exe ctx dry_run yes flags) w"
proof -
  have gated: "gate_result (se_proc se) phases plan
      (fst (decide_gate plan (sp_tty (se_proc se)) yes extra)) \<noteq> None" if "\<not> dry_run" for phases plan extra
    using gate_unconfirmed [of yes "se_proc se" phases plan extra] idle that by auto
  show ?thesis
    unfolding setup_body_operator_rootless_def Let_def
    by (auto intro!: reads_ebind_result gate_distro_reads active_extras_reads phase_list_reads plan_pass_reads
        phase_list_probes_read [OF assms(1)] classify_batch_reads [OF assms(1)] simp: gated split: option.split prod.split)
qed


section \<open>Properties\<close>



definition sample_setup :: setup_env where
  "sample_setup = \<lparr>se_os = silent_os, se_build = sample_build, se_extras = \<lparr>xe_sha256 = id, xe_isdir = (\<lambda>_. True)\<rparr>,
     se_proc = \<lparr>sp_euid = 0, sp_environ = [], sp_tty = True, sp_reply = ''no''\<rparr>\<rparr>"

definition debian_host :: host_world where
  "debian_host = empty_host\<lparr>w_files := (\<lambda>_. FAbsent)(''/etc/os-release'' := FText ''ID=debian'' 420 0 0)\<rparr>"

lemma silent_os_answers: "answers silent_os ctx"
  by (auto simp: answers_def reads_def ask_owner_def exec_ok_def exec_run_def exec_on_host_def silent_os_def Let_def
      ebind_def ecatch_def eret_def owner_crossing_def elift_def eget_def from_host_def split: sum.splits prod.splits)


text \<open>Claim C23: in the separate-user mode the gate never reports that nothing is left to apply: the per-op probe
  announces itself as missing on every run, so that a run on a converged host prompts again and rewrites what the
  later phases write.\<close>

theorem separate_setup_never_settled:
  assumes "phase_list se force names w0 = (Inr phases, w0')"
    and "plan_pass False ctx phases w = (Inr plan, w')"
    and "docker_execution_mode (ctx_host ctx) = SEPARATE_USER"
  shows "fst (decide_gate plan tty yes extra) \<noteq> NOTHING_TO_APPLY \<and>
    (\<exists>p \<in> set plan. pp_id p = ''l3a'' \<and> pp_result p = MISSING)"
  using separate_never_nothing [OF assms] separate_plan_pending [OF assms] by blast


theorem separate_setup_never_settled_witness:
  "\<exists>phases plan. fst (plan_pass False build_ctx phases debian_host) = Inr plan \<and>
     fst (decide_gate plan True False 0) \<noteq> NOTHING_TO_APPLY"
proof -
  obtain phases ys where base: "base_phases silent_os sample_build False = Inr phases" "order_phases False phases = Inr ys"
    using base_phases_ok [of silent_os sample_build False]
    by (auto simp: is_ok_iff bindE_Inr_iff elim!: map_sum_InrE)
  have ph: "phase_list sample_setup False [] debian_host = (Inr phases, debian_host)"
    using base(1) by (simp add: phase_list_def build_phase_list_def sample_setup_def elift_def)
  obtain plan w2 where "sweep ph_id (\<lambda>_. False) (\<lambda>_. plan_one build_ctx) [] ys debian_host = (plan, w2)"
    by fastforce
  then have pl: "plan_pass False build_ctx phases debian_host = (Inr plan, w2)"
    using base(2) by (simp add: plan_pass_def run_plan_pass_def)
  have "docker_execution_mode (ctx_host build_ctx) = SEPARATE_USER" by (simp add: build_ctx_def)
  then have "fst (decide_gate plan True False 0) \<noteq> NOTHING_TO_APPLY"
    using separate_setup_never_settled [OF ph pl] by blast
  with pl show ?thesis by (intro exI [of _ phases] exI [of _ plan]) simp
qed

text \<open>The runsc update overrides the dry run. With \<open>--dry-run --update-runsc\<close>, no \<open>--yes\<close> and a negative reply
  at the terminal, an empty host has the downloaded binary installed afterwards and the command reports success.\<close>

theorem update_runsc_ignores_dry_run:
  "w_files empty_host (target_path ''runsc'') = FAbsent \<and>
   w_files (snd (setup_body sample_setup ''/usr/bin/sandbox'' build_ctx True False True [] empty_host))
     (target_path ''runsc'') = FText ''elf'' 493 0 0"
proof
  obtain phases where base: "base_phases silent_os sample_build True = Inr phases"
    using base_phases_ok [of silent_os sample_build True] by (auto simp: is_ok_iff bindE_Inr_iff)
  let ?l6a = "[l6a_phase silent_os True]"
  have "setup_body sample_setup ''/usr/bin/sandbox'' build_ctx True False True [] empty_host =
    ebind (plan_pass True build_ctx ?l6a) (\<lambda>plan. ebind (apply_pass True build_ctx ?l6a) (\<lambda>outs.
      eret (finish_apply ?l6a outs (render_plan ?l6a plan @ [plan_summary_line (tally_plan plan)])))) empty_host"
    using base base_phases_l6a [OF base]
    by (simp add: setup_body_def is_operator_rootless_def build_ctx_def run_setup_update_runsc_def phase_list_def
        build_phase_list_def sample_setup_def elift_def ebind_def Let_def)
  moreover have "w_files (snd (ebind (plan_pass True build_ctx ?l6a) (\<lambda>plan. ebind (apply_pass True build_ctx ?l6a) (\<lambda>outs.
      eret (finish_apply ?l6a outs (render_plan ?l6a plan @ [plan_summary_line (tally_plan plan)])))) empty_host))
      (target_path ''runsc'') = FText ''elf'' 493 0 0"
    by code_simp
  ultimately show "w_files (snd (setup_body sample_setup ''/usr/bin/sandbox'' build_ctx True False True [] empty_host))
      (target_path ''runsc'') = FText ''elf'' 493 0 0"
    by simp
qed (simp add: empty_host_def)

end
