(* ===== verification/Doctor.thy ===== *)
theory Doctor
  imports Phase_Runner
begin

text \<open>
  The doctor's runner, \<open>src/src/core/doctor/types.py\<close>, \<open>registry.py\<close> and \<open>render.py\<close>, and the \<open>doctor\<close> command of
  \<open>src/src/cli/main.py\<close>: the registry, the topological order, the pass with its mode and dependency skips, the
  subsets by category and the lines that are printed. What the single checks do is an argument, given by their ids;
  a check may raise, which ends the run.
\<close>

section \<open>Checks and results\<close>

datatype check_status = SPass | SFail | SSkip | SWarn

record check_result =
  cr_status :: check_status
  cr_name :: string
  cr_detail :: string
  cr_remediation :: "string option"
  cr_doc_ref :: "string option"
  cr_category :: string

record 'w check =
  ck_id :: string
  ck_name :: string
  ck_category :: string
  ck_depends_on :: "string list"
  ck_run :: "string \<Rightarrow> string option \<Rightarrow> ('w, check_result) effect"
  ck_applies_in :: "docker_execution_mode list"

definition skip_result :: "string \<Rightarrow> string \<Rightarrow> check_result" where
  "skip_result name detail =
     \<lparr>cr_status = SSkip, cr_name = name, cr_detail = detail, cr_remediation = None, cr_doc_ref = None, cr_category = []\<rparr>"

section \<open>Topological order\<close>

definition id_to_check :: "'w check list \<Rightarrow> (string, 'w check) dict" where
  "id_to_check checks = fold (\<lambda>c d. dict_set (ck_id c) c d) checks []"

text \<open>The pairs appended to \<open>adjacency\<close>, in order; a dependency outside the list is ignored.\<close>

definition dep_edges :: "'w check list \<Rightarrow> (string \<times> string) list" where
  "dep_edges checks =
     concat (map (\<lambda>c. map (\<lambda>dep. (dep, ck_id c)) (filter (\<lambda>dep. dep \<in> ck_id ` set checks) (ck_depends_on c))) checks)"

definition adjacency :: "(string \<times> string) list \<Rightarrow> string \<Rightarrow> string list" where
  "adjacency edges current = map snd (filter (\<lambda>e. fst e = current) edges)"

text \<open>\<open>in_degree[cid] += n\<close> on the entry of a key.\<close>

definition degree_add :: "int \<Rightarrow> string \<Rightarrow> (string, int) dict \<Rightarrow> (string, int) dict" where
  "degree_add n cid deg = map (\<lambda>(k, d). (k, if k = cid then d + n else d)) deg"

definition in_degree :: "'w check list \<Rightarrow> (string, int) dict" where
  "in_degree checks =
     fold (\<lambda>(_, cid). degree_add 1 cid) (dep_edges checks) (fold (\<lambda>c d. dict_set (ck_id c) 0 d) checks [])"

text \<open>The loop over the neighbours of one check.\<close>

fun relax :: "string list \<Rightarrow> (string, int) dict \<Rightarrow> string list \<Rightarrow> (string, int) dict \<times> string list" where
  "relax [] deg queue = (deg, queue)"
| "relax (n # ns) deg queue =
     (let deg' = degree_add (-1) n deg in
      relax ns deg' (if map_of deg' n = Some 0 then queue @ [n] else queue))"

definition positive_degrees :: "(string, int) dict \<Rightarrow> nat" where
  "positive_degrees deg = length (filter (\<lambda>(_, d). d > 0) deg)"

lemma positive_degrees_dec:
  "positive_degrees (degree_add (-1) n deg) + (if map_of (degree_add (-1) n deg) n = Some 0 then 1 else 0)
     \<le> positive_degrees deg"
proof -
  have mono: "positive_degrees (degree_add (-1) n xs) \<le> positive_degrees xs" for xs
    by (induction xs) (auto simp: positive_degrees_def degree_add_def split: if_splits)
  show ?thesis
  proof (induction deg)
    case (Cons p deg)
    then show ?case using mono [of deg]
      by (cases p) (auto simp: positive_degrees_def degree_add_def split: if_splits)
  qed (simp add: positive_degrees_def degree_add_def)
qed

lemma relax_measure:
  "relax ns deg queue = (deg', queue') \<Longrightarrow> positive_degrees deg' + length queue' \<le> positive_degrees deg + length queue"
proof (induction ns deg queue rule: relax.induct)
  case (2 n ns deg queue)
  from 2(1) [OF refl] 2(2) positive_degrees_dec [of n deg] show ?case
    by (auto simp: Let_def split: if_splits)
qed simp

function kahn :: "(string \<Rightarrow> string list) \<Rightarrow> (string, int) dict \<Rightarrow> string list \<Rightarrow> string list \<Rightarrow> string list" where
  "kahn adj deg [] sorted_ids = sorted_ids"
| "kahn adj deg (current # queue) sorted_ids =
     (let (deg', queue') = relax (adj current) deg queue in kahn adj deg' queue' (sorted_ids @ [current]))"
  by pat_completeness auto
termination
  by (relation "measure (\<lambda>(adj, deg, queue, sorted_ids). positive_degrees deg + length queue)")
    (auto dest!: relax_measure [OF sym])

definition topological_sort :: "'w check list \<Rightarrow> 'w check list" where
  "topological_sort checks =
     (let deg = in_degree checks;
          queue = map fst (filter (\<lambda>(_, d). d = 0) deg)
      in map (\<lambda>cid. the (map_of (id_to_check checks) cid)) (kahn (adjacency (dep_edges checks)) deg queue []))"

section \<open>The pass\<close>

definition failed_deps ::
  "(string, check_result) dict \<Rightarrow> string list \<Rightarrow> 'w check \<Rightarrow> string list" where
  "failed_deps results mode_skipped c =
     filter (\<lambda>dep. dep \<notin> set mode_skipped \<and>
       (case map_of results dep of None \<Rightarrow> False | Some r \<Rightarrow> cr_status r \<in> {SFail, SSkip})) (ck_depends_on c)"

fun run_ordered ::
  "docker_execution_mode \<Rightarrow> string \<Rightarrow> string option \<Rightarrow> (string, check_result) dict \<Rightarrow> string list \<Rightarrow> 'w check list \<Rightarrow>
   ('w, check_result list) effect" where
  "run_ordered mode user distro results mode_skipped [] = eret []"
| "run_ordered mode user distro results mode_skipped (c # cs) =
     (if mode \<notin> set (ck_applies_in c) then
        (let r = skip_result (ck_name c) (''skipped ('' @ mode_value mode @ '')'') in
         ebind (run_ordered mode user distro (dict_set (ck_id c) r results) (ck_id c # mode_skipped) cs) (\<lambda>rs. eret (r # rs)))
      else
        (let failed = failed_deps results mode_skipped c in
         ebind (if failed \<noteq> [] then
                  eret (skip_result (ck_name c) (''skipped (requires: '' @ py_join '', '' failed @ '')''))
                else ck_run c user distro) (\<lambda>r.
         ebind (run_ordered mode user distro (dict_set (ck_id c) r results) mode_skipped cs) (\<lambda>rs. eret (r # rs)))))"

definition run_checks ::
  "'w check list \<Rightarrow> string \<Rightarrow> string option \<Rightarrow> docker_execution_mode \<Rightarrow> ('w, check_result list) effect" where
  "run_checks checks user distro mode = run_ordered mode user distro [] [] (topological_sort checks)"

section \<open>The registry\<close>

text \<open>What a check does: its id and the mode bound into it select it.\<close>

type_synonym 'w check_impl = "string \<Rightarrow> docker_execution_mode \<Rightarrow> string \<Rightarrow> string option \<Rightarrow> ('w, check_result) effect"

type_synonym check_row = "string \<times> string \<times> string \<times> string list \<times> docker_execution_mode list"

definition chain1 :: "check_row list" where
  "chain1 =
     [(''sudo'', ''sudo binary'', ''Privilege Boundary'', [], both_modes),
      (''machinectl'', ''machinectl binary'', ''Privilege Boundary'', [], both_modes),
      (''tlog'', ''tlog binary'', ''Privilege Boundary'', [], both_modes),
      (''user_exists'', ''unprivileged user'', ''Privilege Boundary'', [], [SEPARATE_USER]),
      (''systemd_machined'', ''systemd-machined'', ''Privilege Boundary'', [''machinectl''], [SEPARATE_USER]),
      (''machinectl_reachable'', ''boundary reachable'', ''Privilege Boundary'', [''sudo'', ''machinectl'', ''user_exists'', ''systemd_machined''], [SEPARATE_USER]),
      (''docker_available'', ''Docker available'', ''Privilege Boundary'', [''machinectl_reachable''], both_modes),
      (''docker_rootless'', ''Docker rootless'', ''Privilege Boundary'', [''docker_available''], both_modes),
      (''runsc'', ''gVisor runsc'', ''Privilege Boundary'', [''docker_available''], both_modes),
      (''runsc_runtimeargs'', ''runsc runtimeArgs'', ''Privilege Boundary'', [''runsc''], both_modes),
      (''host_uds'', ''--host-uds=none'', ''Privilege Boundary'', [''runsc''], both_modes),
      (''compose_project_name_collision'', ''compose project name collision'', ''Privilege Boundary'', [''machinectl_reachable''], both_modes)]"

definition chains_2_to_5 :: "check_row list" where
  "chains_2_to_5 =
     [(''setfacl'', ''setfacl binary'', ''Filesystem'', [], both_modes),
      (''acl_support'', ''ACL support'', ''Filesystem'', [''setfacl''], both_modes),
      (''cgroup_v2'', ''cgroup v2'', ''Filesystem'', [], both_modes),
      (''ancestor_traverse'', ''ancestor traverse'', ''Filesystem'', [''acl_support''], both_modes),
      (''tooling_plane'', ''tooling plane'', ''Repo Integrity'', [], both_modes),
      (''state_dir'', ''state dir writable'', ''Repo Integrity'', [], both_modes),
      (''image_digests'', ''image digests'', ''Supply Chain'', [''docker_available''], both_modes),
      (''per_user_tree_exists'', ''per-user tree exists'', ''Per-User Tree'', [], both_modes),
      (''per_user_tree_mode'', ''per-user tree mode'', ''Per-User Tree'', [''per_user_tree_exists''], both_modes),
      (''legacy_cwd_files'', ''legacy CWD files'', ''Per-User Tree'', [], both_modes),
      (''obsolete_host_toml'', ''obsolete host toml'', ''Per-User Tree'', [], both_modes)]"

definition chain6 :: "check_row list" where
  "chain6 =
     [(''workspace_bridge_group_exists'', ''workspace bridge group'', ''Workspace Bridge'', [], both_modes),
      (''dev_in_workspace_bridge_group'', ''operator in workspace bridge group'', ''Workspace Bridge'', [''workspace_bridge_group_exists''], both_modes),
      (''subuid_resolver_works'', ''subuid resolver'', ''Workspace Bridge'', [], both_modes),
      (''secrets_hydrated_restrictively'', ''secrets hydrated restrictively'', ''Workspace Bridge'', [], both_modes),
      (''pre_existing_instance_layout'', ''pre-existing instance layout'', ''Workspace Bridge'', [''subuid_resolver_works''], both_modes),
      (''backups_disk_pressure'', ''backups disk pressure'', ''Workspace Bridge'', [], both_modes),
      (''backups_partial_dirs_present'', ''backups partial dirs'', ''Workspace Bridge'', [], both_modes),
      (''dev_umask_workspace_friendly'', ''operator umask workspace-friendly'', ''Workspace Bridge'', [], both_modes),
      (''workspace_path_in_walker_boundary'', ''workspace path in walker boundary'', ''Workspace Bridge'', [], both_modes),
      (''workspace_home_single_filesystem'', ''workspace home single filesystem'', ''Workspace Bridge'', [], both_modes),
      (''legacy_sandboxes_dir_detected'', ''legacy sandboxes dir detected'', ''Per-User Tree'', [], both_modes),
      (''legacy_workspace_in_user_project_root'', ''legacy user_project_root field'', ''Per-User Tree'', [], both_modes),
      (''legacy_registry_shape'', ''legacy registry shape'', ''Per-User Tree'', [], both_modes)]"

definition chain7 :: "check_row list" where
  "chain7 =
     [(''host_cpu_capacity'', ''host CPU capacity'', ''Instance Resources'', [], both_modes),
      (''instance_memory_overcommit'', ''instance memory over-commit'', ''Instance Resources'', [], both_modes),
      (''runsc_pinned_match'', ''runsc pinned match'', ''Setup Integrity'', [], both_modes),
      (''dispatcher_sha_drift'', ''dispatcher sha drift'', ''Setup Integrity'', [], [SEPARATE_USER]),
      (''binary_integrity_posture'', ''binary integrity posture'', ''Setup Integrity'', [], both_modes),
      (''setup_invariants'', ''setup invariants'', ''Setup Integrity'', [], both_modes),
      (''daemon_owner_sudo'', ''daemon owner sudo'', ''Setup Integrity'', [], [OPERATOR_ROOTLESS])]"

definition CHECK_TABLE :: "check_row list" where
  "CHECK_TABLE = chain1 @ chains_2_to_5 @ chain6 @ chain7"

definition build_check_registry :: "'w check_impl \<Rightarrow> docker_execution_mode \<Rightarrow> 'w check list" where
  "build_check_registry impl mode =
     map (\<lambda>(cid, name, category, deps, modes).
       \<lparr>ck_id = cid, ck_name = name, ck_category = category, ck_depends_on = deps, ck_run = impl cid mode,
        ck_applies_in = modes\<rparr>) CHECK_TABLE"

section \<open>Subsets\<close>

datatype subset_error = OutsideSubset string string

definition outside_dep :: "string list \<Rightarrow> 'w check list \<Rightarrow> (string \<times> string) option" where
  "outside_dep excluded picked =
     find (\<lambda>(_, dep). dep \<notin> ck_id ` set picked \<and> dep \<notin> set excluded)
       (concat (map (\<lambda>c. map (\<lambda>dep. (ck_id c, dep)) (ck_depends_on c)) picked))"

definition subset_of :: "'w check list \<Rightarrow> string list \<Rightarrow> string list \<Rightarrow> 'w check list" where
  "subset_of registry categories excluded =
     filter (\<lambda>c. ck_category c \<in> set categories \<and> ck_id c \<notin> set excluded) registry"

definition run_check_subset ::
  "'w check_impl \<Rightarrow> string list \<Rightarrow> string \<Rightarrow> string option \<Rightarrow> string list \<Rightarrow> docker_execution_mode \<Rightarrow>
   subset_error + ('w, check_result list) effect" where
  "run_check_subset impl categories user distro excluded mode =
     (if categories = [] then Inr (eret [])
      else
        (let picked = subset_of (build_check_registry impl mode) categories excluded in
         case outside_dep excluded picked of
           Some (cid, dep) \<Rightarrow> Inl (OutsideSubset cid dep)
         | None \<Rightarrow> Inr (run_checks picked user distro mode)))"

section \<open>Rendering and the command\<close>

definition has_failures :: "check_result list \<Rightarrow> bool" where
  "has_failures results = list_ex (\<lambda>r. cr_status r = SFail) results"

definition status_count :: "check_status \<Rightarrow> check_result list \<Rightarrow> nat" where
  "status_count st results = length (filter (\<lambda>r. cr_status r = st) results)"

definition fix_line :: "check_result \<Rightarrow> string list" where
  "fix_line r = (case cr_remediation r of None \<Rightarrow> [] | Some fix_text \<Rightarrow> if fix_text = [] then [] else [''    Fix: '' @ fix_text])"

definition render_result :: "check_result \<Rightarrow> string list" where
  "render_result r =
     (case cr_status r of
        SPass \<Rightarrow> [''  '' @ [CHR 0xE2, CHR 0x9C, CHR 0x93] @ '' '' @ cr_name r @ (if cr_detail r = [] then [] else ''  '' @ cr_detail r)]
      | SFail \<Rightarrow> [''  '' @ [CHR 0xE2, CHR 0x9C, CHR 0x97] @ '' '' @ cr_name r, ''    '' @ cr_detail r] @ fix_line r @
          (case cr_doc_ref r of None \<Rightarrow> [] | Some ref \<Rightarrow> if ref = [] then [] else [''    Docs: '' @ ref])
      | SWarn \<Rightarrow> [''  '' @ [CHR 0xE2, CHR 0x9A, CHR 0xA0] @ '' '' @ cr_name r, ''    '' @ cr_detail r] @ fix_line r
      | SSkip \<Rightarrow> [''  '' @ [CHR 0xE2, CHR 0x8A, CHR 0x98] @ '' '' @ cr_name r @ '' '' @ em_dash @ '' '' @ cr_detail r])"

definition result_group :: "check_result \<Rightarrow> string" where
  "result_group r = (if cr_category r = [] then ''General'' else cr_category r)"

text \<open>The categories in the order of their first result.\<close>

definition grouped :: "check_result list \<Rightarrow> (string, check_result list) dict" where
  "grouped results =
     fold (\<lambda>r d. dict_set (result_group r) ((case map_of d (result_group r) of None \<Rightarrow> [] | Some rs \<Rightarrow> rs) @ [r]) d) results []"

definition results_summary :: "check_result list \<Rightarrow> string" where
  "results_summary results =
     (let part = (\<lambda>st label. if status_count st results = 0 then []
            else [CHR 0x20, CHR 0xC2, CHR 0xB7, CHR 0x20] @ nat_str (status_count st results) @ label)
      in nat_str (status_count SPass results) @ ''/'' @ nat_str (length results) @ '' passed'' @
         part SWarn '' warnings'' @ part SFail '' failed'' @ part SSkip '' skipped'')"

definition render_results :: "check_result list \<Rightarrow> string list" where
  "render_results results =
     concat (map (\<lambda>(category, rs). [newline # category] @ concat (map render_result rs)) (grouped results)) @
     [[], results_summary results]"

definition MODE_INVARIANT_DOCTOR_CATEGORIES :: "string list" where
  "MODE_INVARIANT_DOCTOR_CATEGORIES = [''Filesystem'', ''Repo Integrity'', ''Per-User Tree'']"

definition run_unprovisioned_doctor ::
  "'w check_impl \<Rightarrow> string \<Rightarrow> string option \<Rightarrow> subset_error + ('w, check_result list) effect" where
  "run_unprovisioned_doctor impl user distro =
     map_sum id (\<lambda>run. ebind run (\<lambda>invariant_results.
         eret (invariant_results @
           map (\<lambda>c. skip_result (ck_name c) (''not set up yet '' @ em_dash @ '' run `sudo sandbox setup`''))
             (filter (\<lambda>c. ck_category c \<notin> set MODE_INVARIANT_DOCTOR_CATEGORIES)
               (build_check_registry impl DEFAULT_PROVISIONING_MODE)))))
       (run_check_subset impl MODE_INVARIANT_DOCTOR_CATEGORIES user distro [] DEFAULT_PROVISIONING_MODE)"

section \<open>Lemmas: the order\<close>

lemma map_of_degree_add:
  "map_of (degree_add n c deg) k = map_option (\<lambda>d. if k = c then d + n else d) (map_of deg k)"
  by (induction deg) (auto simp: degree_add_def)

lemma keys_degree_add [simp]: "map fst (degree_add n c deg) = map fst deg"
  by (induction deg) (auto simp: degree_add_def)

lemma degrees_fold_add:
  "map_of (fold (\<lambda>(_, cid). degree_add 1 cid) edges deg) k =
     map_option (\<lambda>d. d + int (length (filter (\<lambda>e. snd e = k) edges))) (map_of deg k)"
  "map fst (fold (\<lambda>(_, cid). degree_add 1 cid) edges deg) = map fst deg"
proof (induction edges arbitrary: deg)
  case (Cons e edges)
  {
    case 1
    show ?case using Cons.IH(1) by (cases e; cases "map_of deg k") (auto simp: map_of_degree_add)
  next
    case 2
    show ?case using Cons.IH(2) by (cases e) auto
  }
qed (simp_all add: option.map_ident)

lemma zero_degrees:
  "map_of (fold (\<lambda>c d. dict_set (ck_id c) 0 d) checks deg) k =
     (if k \<in> ck_id ` set checks then Some (0::int) else map_of deg k)"
  by (induction checks arbitrary: deg) (auto simp: map_of_dict_set)

lemma zero_degrees_wf: "dict_wf deg \<Longrightarrow> dict_wf (fold (\<lambda>c d. dict_set (ck_id c) (0::int) d) checks deg)"
  by (induction checks arbitrary: deg) auto

lemma map_of_in_degree:
  "map_of (in_degree checks) k =
     (if k \<in> ck_id ` set checks then Some (int (length (filter (\<lambda>e. snd e = k) (dep_edges checks)))) else None)"
  by (auto simp: in_degree_def degrees_fold_add zero_degrees)

lemma in_degree_wf: "distinct (map fst (in_degree checks))"
  using zero_degrees_wf [of "[]" checks] by (simp add: in_degree_def degrees_fold_add(2) dict_wf_def dict_keys_def)

lemma map_of_id_to_check:
  "map_of (id_to_check checks) k = find (\<lambda>c. ck_id c = k) (rev checks)"
proof -
  have "map_of (fold (\<lambda>c d. dict_set (ck_id c) c d) checks d) k =
      (case find (\<lambda>c. ck_id c = k) (rev checks) of None \<Rightarrow> map_of d k | Some c \<Rightarrow> Some c)" for d
    by (induction checks rule: rev_induct) (auto simp: map_of_dict_set)
  then show ?thesis by (simp add: id_to_check_def split: option.splits)
qed

lemma relax_degrees:
  "relax ns deg queue = (deg', queue') \<Longrightarrow> map_of deg' k = map_option (\<lambda>d. d - int (count_list ns k)) (map_of deg k)"
proof (induction ns deg queue rule: relax.induct)
  case (2 n ns deg queue)
  from 2(2) have r: "relax ns (degree_add (-1) n deg)
      (if map_of (degree_add (-1) n deg) n = Some 0 then queue @ [n] else queue) = (deg', queue')"
    by (simp only: relax.simps Let_def)
  show ?case using 2(1) [OF refl r] by (cases "map_of deg k") (auto simp: map_of_degree_add)
qed (simp add: option.map_ident)

text \<open>A check is queued when its last dependency is placed, once.\<close>

lemma relax_queue:
  "relax ns deg queue = (deg', queue') \<Longrightarrow> \<exists>fresh. queue' = queue @ fresh \<and> distinct fresh \<and>
     set fresh = {k. \<exists>d. map_of deg k = Some d \<and> 0 < d \<and> d \<le> int (count_list ns k)}"
proof (induction ns deg queue rule: relax.induct)
  case (2 n ns deg queue)
  let ?deg = "degree_add (-1) n deg"
  let ?q = "if map_of ?deg n = Some 0 then queue @ [n] else queue"
  from 2(2) have r: "relax ns ?deg ?q = (deg', queue')" by (simp only: relax.simps Let_def)
  from 2(1) [OF refl r] obtain fresh where f: "queue' = ?q @ fresh" "distinct fresh"
    "set fresh = {k. \<exists>d. map_of ?deg k = Some d \<and> 0 < d \<and> d \<le> int (count_list ns k)}" by blast
  show ?case
  proof (cases "map_of deg n = Some 1")
    case True
    have "set fresh = {k. \<exists>d. map_of deg k = Some d \<and> 0 < d \<and> d \<le> int (count_list (n # ns) k)} - {n}"
      using f(3) True by (auto simp: map_of_degree_add)
    with f(1,2) True show ?thesis by (intro exI [of _ "n # fresh"]) (auto simp: map_of_degree_add)
  next
    case False
    have "map_of ?deg n \<noteq> Some 0" using False by (auto simp: map_of_degree_add)
    moreover have "k \<in> set fresh \<longleftrightarrow> (\<exists>d. map_of deg k = Some d \<and> 0 < d \<and> d \<le> int (count_list (n # ns) k))" for k
      using f(3) False by (cases "map_of deg k") (auto simp: map_of_degree_add)
    ultimately show ?thesis using f(1,2) by (intro exI [of _ fresh]) auto
  qed
qed auto

text \<open>The state of the loop: the degree of a check is the number of its edges from checks not yet placed, and what is
  placed or queued is what has degree zero.\<close>

definition open_edges :: "(string \<times> string) list \<Rightarrow> string list \<Rightarrow> string \<Rightarrow> nat" where
  "open_edges edges acc k = length (filter (\<lambda>e. snd e = k \<and> fst e \<notin> set acc) edges)"

definition kahn_inv ::
  "string set \<Rightarrow> (string \<times> string) list \<Rightarrow> (string, int) dict \<Rightarrow> string list \<Rightarrow> string list \<Rightarrow> bool" where
  "kahn_inv ids edges deg queue acc =
     ((\<forall>k. map_of deg k = (if k \<in> ids then Some (int (open_edges edges acc k)) else None)) \<and>
      distinct (acc @ queue) \<and> set (acc @ queue) = {k \<in> ids. open_edges edges acc k = 0} \<and>
      (\<forall>i < length acc. \<forall>d. (d, acc ! i) \<in> set edges \<longrightarrow> d \<in> set (take i acc)))"

lemma open_edges_step:
  assumes "current \<notin> set acc"
  shows "open_edges edges acc k = open_edges edges (acc @ [current]) k + count_list (adjacency edges current) k"
  using assms by (induction edges) (auto simp: open_edges_def adjacency_def)

lemma open_edges_0_iff: "open_edges edges acc k = 0 \<longleftrightarrow> (\<forall>d. (d, k) \<in> set edges \<longrightarrow> d \<in> set acc)"
  by (auto simp: open_edges_def filter_empty_conv)

lemma kahn_inv_step:
  assumes inv: "kahn_inv ids edges deg (current # queue) acc"
    and r: "relax (adjacency edges current) deg queue = (deg', queue')"
  shows "kahn_inv ids edges deg' queue' (acc @ [current])"
proof -
  let ?acc = "acc @ [current]"
  have deg: "\<And>k. map_of deg k = (if k \<in> ids then Some (int (open_edges edges acc k)) else None)"
    and dist: "distinct (acc @ current # queue)"
    and zero: "set (acc @ current # queue) = {k \<in> ids. open_edges edges acc k = 0}"
    and first: "\<And>i d. i < length acc \<Longrightarrow> (d, acc ! i) \<in> set edges \<Longrightarrow> d \<in> set (take i acc)"
    using inv by (auto simp: kahn_inv_def)
  have cur: "current \<notin> set acc" using dist by simp
  note step = open_edges_step [OF cur, of edges]
  obtain fresh where f: "queue' = queue @ fresh" "distinct fresh"
    "set fresh = {k. \<exists>d. map_of deg k = Some d \<and> 0 < d \<and> d \<le> int (count_list (adjacency edges current) k)}"
    using relax_queue [OF r] by blast
  have fresh: "set fresh = {k \<in> ids. 0 < open_edges edges acc k \<and> open_edges edges ?acc k = 0}"
    unfolding f(3) using step by (auto simp: deg)
  have "\<forall>k. map_of deg' k = (if k \<in> ids then Some (int (open_edges edges ?acc k)) else None)"
    using relax_degrees [OF r] step by (auto simp: deg)
  moreover have "distinct (?acc @ queue')"
    using dist f(1,2) fresh zero by auto
  moreover have "set (?acc @ queue') = {k \<in> ids. open_edges edges ?acc k = 0}"
  proof -
    have "set (?acc @ queue') = {k \<in> ids. open_edges edges acc k = 0} \<union> set fresh"
      using zero f(1) by auto
    also have "\<dots> = {k \<in> ids. open_edges edges ?acc k = 0}"
      unfolding fresh using step by auto
    finally show ?thesis .
  qed
  moreover have "d \<in> set (take i ?acc)" if i: "i < length ?acc" and e: "(d, ?acc ! i) \<in> set edges" for i d
  proof (cases "i < length acc")
    case True
    then show ?thesis using first e by (simp add: nth_append)
  next
    case False
    then have "i = length acc" using i by simp
    moreover have "open_edges edges acc current = 0" using zero by auto
    ultimately show ?thesis using e by (simp add: open_edges_0_iff)
  qed
  ultimately show ?thesis unfolding kahn_inv_def by blast
qed

lemma kahn_inv_final: "kahn_inv ids edges deg queue acc \<Longrightarrow> \<exists>deg'. kahn_inv ids edges deg' [] (kahn (adjacency edges) deg queue acc)"
proof (induction "adjacency edges" deg queue acc rule: kahn.induct)
  case (2 deg current queue acc)
  obtain deg' queue' where r: "relax (adjacency edges current) deg queue = (deg', queue')" by fastforce
  from 2(1) [OF r [symmetric] refl kahn_inv_step [OF 2(2) r]] r show ?case by simp
qed auto

lemma kahn_inv_start:
  "kahn_inv (ck_id ` set checks) (dep_edges checks) (in_degree checks)
     (map fst (filter (\<lambda>(_, d). d = 0) (in_degree checks))) []"
proof -
  have "set (map fst (filter (\<lambda>(_, d). d = 0) (in_degree checks))) = {k. map_of (in_degree checks) k = Some 0}"
    using in_degree_wf [of checks] by (force simp: map_of_eq_Some_iff)
  moreover have "distinct (map fst (filter (\<lambda>(_, d). d = 0) (in_degree checks)))"
    using in_degree_wf [of checks] by (simp add: distinct_map_filter)
  ultimately show ?thesis
    by (auto simp: kahn_inv_def map_of_in_degree open_edges_def)
qed


text \<open>The reference: a check can be placed when all its known dependencies can.\<close>

inductive placeable :: "'w check list \<Rightarrow> string \<Rightarrow> bool" for checks where
  "cid \<in> ck_id ` set checks \<Longrightarrow> (\<And>d. (d, cid) \<in> set (dep_edges checks) \<Longrightarrow> placeable checks d) \<Longrightarrow> placeable checks cid"

definition sorted_ids :: "'w check list \<Rightarrow> string list" where
  "sorted_ids checks = kahn (adjacency (dep_edges checks)) (in_degree checks)
     (map fst (filter (\<lambda>(_, d). d = 0) (in_degree checks))) []"

lemma sorted_ids_facts:
  shows "distinct (sorted_ids checks)"
    and "i < length (sorted_ids checks) \<Longrightarrow> (d, sorted_ids checks ! i) \<in> set (dep_edges checks) \<Longrightarrow>
      d \<in> set (take i (sorted_ids checks))"
    and "set (sorted_ids checks) =
      {k \<in> ck_id ` set checks. \<forall>d. (d, k) \<in> set (dep_edges checks) \<longrightarrow> d \<in> set (sorted_ids checks)}"
proof -
  obtain deg where inv: "kahn_inv (ck_id ` set checks) (dep_edges checks) deg [] (sorted_ids checks)"
    using kahn_inv_final [OF kahn_inv_start [of checks]] by (auto simp: sorted_ids_def)
  show "distinct (sorted_ids checks)" using inv by (simp add: kahn_inv_def)
  show "i < length (sorted_ids checks) \<Longrightarrow> (d, sorted_ids checks ! i) \<in> set (dep_edges checks) \<Longrightarrow>
      d \<in> set (take i (sorted_ids checks))" using inv by (simp add: kahn_inv_def)
  show "set (sorted_ids checks) =
      {k \<in> ck_id ` set checks. \<forall>d. (d, k) \<in> set (dep_edges checks) \<longrightarrow> d \<in> set (sorted_ids checks)}"
    using inv by (simp add: kahn_inv_def open_edges_0_iff)
qed

lemma sorted_ids_placeable: "set (sorted_ids checks) = {k. placeable checks k}"
proof
  have "placeable checks (sorted_ids checks ! i)" if "i < length (sorted_ids checks)" for i
    using that
  proof (induction i rule: less_induct)
    case (less i)
    have "placeable checks d" if "(d, sorted_ids checks ! i) \<in> set (dep_edges checks)" for d
    proof -
      have "d \<in> set (take i (sorted_ids checks))" using sorted_ids_facts(2) [OF less(2) that] .
      then obtain j where "j < i" "d = sorted_ids checks ! j" "j < length (sorted_ids checks)"
        by (auto simp: in_set_conv_nth)
      with less(1) show ?thesis by simp
    qed
    moreover have "sorted_ids checks ! i \<in> ck_id ` set checks"
      using sorted_ids_facts(3) [of checks] less(2) nth_mem by blast
    ultimately show ?case by (blast intro: placeable.intros)
  qed
  then show "set (sorted_ids checks) \<subseteq> {k. placeable checks k}" by (auto simp: in_set_conv_nth)
  have "k \<in> set (sorted_ids checks)" if "placeable checks k" for k
    using that
  proof (induction rule: placeable.induct)
    case (1 cid)
    then show ?case by (subst sorted_ids_facts(3)) blast
  qed
  then show "{k. placeable checks k} \<subseteq> set (sorted_ids checks)" by auto
qed

lemma topological_sort_eq:
  "topological_sort checks = map (\<lambda>cid. the (map_of (id_to_check checks) cid)) (sorted_ids checks)"
  by (simp add: topological_sort_def sorted_ids_def Let_def)

lemma id_to_check_found:
  assumes "k \<in> ck_id ` set checks"
  shows "the (map_of (id_to_check checks) k) \<in> set checks" "ck_id (the (map_of (id_to_check checks) k)) = k"
proof -
  have "find (\<lambda>c. ck_id c = k) (rev checks) \<noteq> None" using assms by (auto simp: find_None_iff)
  then obtain c where c: "find (\<lambda>c. ck_id c = k) (rev checks) = Some c" by blast
  then have "c \<in> set (rev checks) \<and> ck_id c = k" using find_Some_in_set by force
  with c show "the (map_of (id_to_check checks) k) \<in> set checks" "ck_id (the (map_of (id_to_check checks) k)) = k"
    by (simp_all add: map_of_id_to_check)
qed

lemma topological_sort_ids: "map ck_id (topological_sort checks) = sorted_ids checks"
proof -
  have "ck_id (the (map_of (id_to_check checks) k)) = k" if "k \<in> set (sorted_ids checks)" for k
    using that sorted_ids_facts(3) [of checks] id_to_check_found(2) by blast
  then show ?thesis by (simp add: topological_sort_eq map_idI)
qed

lemma topological_sort_subset: "set (topological_sort checks) \<subseteq> set checks"
  using sorted_ids_facts(3) [of checks] id_to_check_found(1) [of _ checks] by (auto simp: topological_sort_eq)

lemma dep_edgesI: "c \<in> set checks \<Longrightarrow> d \<in> set (ck_depends_on c) \<Longrightarrow> d \<in> ck_id ` set checks \<Longrightarrow> (d, ck_id c) \<in> set (dep_edges checks)"
  by (force simp: dep_edges_def)

interpretation doctor: dep_schedule ck_id ck_depends_on "\<lambda>checks. Inr (topological_sort checks) :: unit + 'w check list"
proof
  fix xs :: "'w check list" and ys :: "'w check list"
  assume s: "Inr (topological_sort xs) = (Inr ys :: unit + 'w check list)"
  show "distinct (map ck_id ys)" using s sorted_ids_facts(1) [of xs] topological_sort_ids [of xs] by simp
next
  fix xs ys :: "'w check list" and i d
  assume s: "Inr (topological_sort xs) = (Inr ys :: unit + 'w check list)" and i: "i < length ys"
    and d: "d \<in> set (ck_depends_on (ys ! i))" "d \<in> ck_id ` set ys"
  have ids: "map ck_id ys = sorted_ids xs" using s topological_sort_ids [of xs] by simp
  have mem: "ys ! i \<in> set xs" "d \<in> ck_id ` set xs" using s i d(2) topological_sort_subset [of xs] by auto
  have "(d, sorted_ids xs ! i) \<in> set (dep_edges xs)"
    using dep_edgesI [OF mem(1) d(1) mem(2)] ids i by (metis nth_map)
  then have "d \<in> set (take i (sorted_ids xs))" using sorted_ids_facts(2) ids i by (metis length_map)
  then show "d \<in> ck_id ` set (take i ys)" by (metis ids take_map set_map)
qed


section \<open>Lemmas: the pass\<close>

definition doctor_step ::
  "docker_execution_mode \<Rightarrow> string \<Rightarrow> string option \<Rightarrow> string list \<Rightarrow> 'w check \<Rightarrow> 'w \<Rightarrow> (check_result option \<times> bool) \<times> 'w" where
  "doctor_step mode user distro failed c w =
     (if mode \<notin> set (ck_applies_in c) then ((Some (skip_result (ck_name c) (''skipped ('' @ mode_value mode @ '')'')), True), w)
      else (let blockers = filter (\<lambda>dep. dep \<in> set failed) (ck_depends_on c) in
        if blockers \<noteq> [] then
          ((Some (skip_result (ck_name c) (''skipped (requires: '' @ py_join '', '' blockers @ '')'')), False), w)
        else case ck_run c user distro w of
          (Inr r, w') \<Rightarrow> ((Some r, False), w')
        | (Inl _, w') \<Rightarrow> ((None, False), w')))"

definition blocks :: "check_result option \<times> bool \<Rightarrow> bool" where
  "blocks out = (\<not> snd out \<and> map_option cr_status (fst out) \<in> {Some SFail, Some SSkip})"

lemma doctor_step_mode: "snd (fst (doctor_step mode user distro failed c w)) \<longleftrightarrow> mode \<notin> set (ck_applies_in c)"
  by (auto simp: doctor_step_def Let_def split: prod.split sum.split)

text \<open>A run that raises nothing is a sweep; the third component is the list of keys that block.\<close>

lemma run_ordered_sweep:
  assumes "run_ordered mode user distro results mode_skipped cs w = (Inr rs, w')"
    and "\<And>d. d \<in> set failed \<longleftrightarrow> d \<notin> set mode_skipped \<and> (\<exists>r. map_of results d = Some r \<and> cr_status r \<in> {SFail, SSkip})"
    and "distinct (map ck_id cs)" and "\<And>c. c \<in> set cs \<Longrightarrow> ck_id c \<notin> set mode_skipped \<and> map_of results (ck_id c) = None"
  shows "\<exists>outs. sweep ck_id blocks (doctor_step mode user distro) failed cs w = (outs, w') \<and> map fst outs = map Some rs"
  using assms
proof (induction cs arbitrary: results mode_skipped failed w rs)
  case (Cons c cs)
  have deps: "failed_deps results mode_skipped c = filter (\<lambda>dep. dep \<in> set failed) (ck_depends_on c)"
    unfolding failed_deps_def using Cons.prems(2) by (intro filter_cong) (auto split: option.splits)
  obtain ro ms w1 where st: "doctor_step mode user distro failed c w = ((ro, ms), w1)" by (metis prod.collapse)
  obtain r rs' where rest: "run_ordered mode user distro (dict_set (ck_id c) r results)
      (if ms then ck_id c # mode_skipped else mode_skipped) cs w1 = (Inr rs', w')" and rs: "rs = r # rs'" and ro: "ro = Some r"
    using Cons.prems(1) st unfolding doctor_step_def
    by (auto simp: deps ebind_Inr_iff eret_def Let_def split: if_splits prod.splits sum.splits)
  have ne: "ck_id x \<noteq> ck_id c" if "x \<in> set cs" for x using Cons.prems(3) that by (metis distinct.simps(2) image_eqI list.map(2) list.set_map)
  have "\<exists>outs. sweep ck_id blocks (doctor_step mode user distro) (if blocks (Some r, ms) then ck_id c # failed else failed) cs w1 =
      (outs, w') \<and> map fst outs = map Some rs'"
    by (rule Cons.IH [OF rest])
      (use Cons.prems(2,3,4) in \<open>auto simp: map_of_dict_set blocks_def dest: ne\<close>)
  then show ?case using st rs ro by auto
qed (auto simp: eret_def)

lemma run_checks_sweep:
  assumes "run_checks checks user distro mode w = (Inr rs, w')"
  obtains outs where "sweep ck_id blocks (doctor_step mode user distro) [] (topological_sort checks) w = (outs, w')"
    "map fst outs = map Some rs"
proof -
  have "distinct (map ck_id (topological_sort checks))" by (simp add: topological_sort_ids sorted_ids_facts(1))
  then show thesis
    using run_ordered_sweep [OF assms [unfolded run_checks_def], of "[]"] that by auto
qed


lemma run_checks_outcome:
  assumes run: "run_checks checks user distro mode w = (Inr rs, w')" and i: "i < length (topological_sort checks)"
    and ys: "ys = topological_sort checks"
  shows "length rs = length ys"
    and "mode \<notin> set (ck_applies_in (ys ! i)) \<Longrightarrow> rs ! i = skip_result (ck_name (ys ! i)) (''skipped ('' @ mode_value mode @ '')'')"
    and "mode \<in> set (ck_applies_in (ys ! i)) \<Longrightarrow>
      \<exists>j < length ys. ck_id (ys ! j) \<in> set (ck_depends_on (ys ! i)) \<and> mode \<in> set (ck_applies_in (ys ! j)) \<and>
        cr_status (rs ! j) \<in> {SFail, SSkip} \<Longrightarrow> cr_status (rs ! i) = SSkip"
    and "mode \<in> set (ck_applies_in (ys ! i)) \<Longrightarrow>
      \<not> (\<exists>j < length ys. ck_id (ys ! j) \<in> set (ck_depends_on (ys ! i)) \<and> mode \<in> set (ck_applies_in (ys ! j)) \<and>
        cr_status (rs ! j) \<in> {SFail, SSkip}) \<Longrightarrow> \<exists>t t'. ck_run (ys ! i) user distro t = (Inr (rs ! i), t')"
proof -
  obtain outs where sw: "sweep ck_id blocks (doctor_step mode user distro) [] ys w = (outs, w')" and rs: "map fst outs = map Some rs"
    using run_checks_sweep [OF run] ys by blast
  have len: "length outs = length ys"
    using length_sweep [of ck_id blocks "doctor_step mode user distro" "[]" ys w] unfolding sw by simp
  have out: "fst (outs ! j) = Some (rs ! j)" if "j < length ys" for j
    using that len rs by (metis length_map nth_map)
  show "length rs = length ys" using len rs by (metis length_map)
  have ms: "snd (outs ! j) \<longleftrightarrow> mode \<notin> set (ck_applies_in (ys ! j))" if "j < length ys" for j
    using sweep_nth [OF that sw] doctor_step_mode by metis
  have bad: "blocks (outs ! j) \<longleftrightarrow> mode \<in> set (ck_applies_in (ys ! j)) \<and> cr_status (rs ! j) \<in> {SFail, SSkip}"
    if "j < length ys" for j
    using ms [OF that] out [OF that] by (auto simp: blocks_def)
  obtain failed t where st: "outs ! i = fst (doctor_step mode user distro failed (ys ! i) t)"
    and deps: "\<And>d. d \<in> set (ck_depends_on (ys ! i)) \<Longrightarrow>
      d \<in> set failed \<longleftrightarrow> (\<exists>j < length ys. ck_id (ys ! j) = d \<and> blocks (outs ! j))"
    using doctor.sweep_outcome [OF _ sw] i ys by fastforce
  have nth: "fst (outs ! i) = Some (rs ! i)" using out i ys by simp
  show "rs ! i = skip_result (ck_name (ys ! i)) (''skipped ('' @ mode_value mode @ '')'')"
    if "mode \<notin> set (ck_applies_in (ys ! i))"
    using that nth st by (simp add: doctor_step_def)
  show "cr_status (rs ! i) = SSkip" if "mode \<in> set (ck_applies_in (ys ! i))"
    "\<exists>j < length ys. ck_id (ys ! j) \<in> set (ck_depends_on (ys ! i)) \<and> mode \<in> set (ck_applies_in (ys ! j)) \<and>
        cr_status (rs ! j) \<in> {SFail, SSkip}"
  proof -
    have "filter (\<lambda>dep. dep \<in> set failed) (ck_depends_on (ys ! i)) \<noteq> []"
      using that(2) deps bad by (auto simp: filter_empty_conv)
    then have "\<exists>detail. fst (outs ! i) = Some (skip_result (ck_name (ys ! i)) detail)"
      using that(1) st by (auto simp: doctor_step_def Let_def)
    then show ?thesis using nth by (auto simp: skip_result_def)
  qed
  show "\<exists>t t'. ck_run (ys ! i) user distro t = (Inr (rs ! i), t')" if "mode \<in> set (ck_applies_in (ys ! i))"
    "\<not> (\<exists>j < length ys. ck_id (ys ! j) \<in> set (ck_depends_on (ys ! i)) \<and> mode \<in> set (ck_applies_in (ys ! j)) \<and>
        cr_status (rs ! j) \<in> {SFail, SSkip})"
  proof -
    have "filter (\<lambda>dep. dep \<in> set failed) (ck_depends_on (ys ! i)) = []"
      using that(2) deps bad by (auto simp: filter_empty_conv)
    then show ?thesis using that(1) nth st
      by (cases "ck_run (ys ! i) user distro t") (auto simp: doctor_step_def split: sum.splits)
  qed
qed


section \<open>Lemmas: the registry\<close>

fun deps_above :: "string list \<Rightarrow> (string \<times> string list) list \<Rightarrow> bool" where
  "deps_above seen [] = True"
| "deps_above seen ((cid, deps) # rest) =
     (list_all (\<lambda>d. d \<in> set seen) deps \<and> cid \<notin> set seen \<and> deps_above (cid # seen) rest)"

lemma deps_above_facts:
  "deps_above seen (map (\<lambda>c. (ck_id c, ck_depends_on c)) cs) \<Longrightarrow>
     distinct (map ck_id cs) \<and> (\<forall>c \<in> set cs. ck_id c \<notin> set seen) \<and>
     (\<forall>i < length cs. \<forall>d \<in> set (ck_depends_on (cs ! i)). d \<in> set seen \<or> d \<in> ck_id ` set (take i cs))"
proof (induction cs arbitrary: seen)
  case (Cons c cs)
  note ih = Cons.IH [of "ck_id c # seen"]
  have "d \<in> set seen \<or> d \<in> ck_id ` set (take i (c # cs))"
    if "i < length (c # cs)" "d \<in> set (ck_depends_on ((c # cs) ! i))" for i d
    using that Cons.prems ih by (cases i) (auto simp: list_all_iff)
  then show ?case using Cons.prems ih by auto
qed simp

lemma placeable_in_order:
  assumes "deps_above [] (map (\<lambda>c. (ck_id c, ck_depends_on c)) checks)" and "c \<in> set checks"
  shows "placeable checks (ck_id c)"
proof -
  note f = deps_above_facts [OF assms(1)]
  have "placeable checks (ck_id (checks ! i))" if "i < length checks" for i
    using that
  proof (induction i rule: less_induct)
    case (less i)
    have "placeable checks d" if e: "(d, ck_id (checks ! i)) \<in> set (dep_edges checks)" for d
    proof -
      obtain c' where c': "c' \<in> set checks" "ck_id c' = ck_id (checks ! i)" "d \<in> set (ck_depends_on c')"
        using e by (auto simp: dep_edges_def)
      then have "c' = checks ! i" using f less.prems by (metis distinct_map inj_on_contraD nth_mem)
      then have "d \<in> ck_id ` set (take i checks)" using f c' less.prems by auto
      then obtain j where "j < i" "d = ck_id (checks ! j)" "j < length checks" by (auto simp: in_set_conv_nth)
      with less.IH show ?thesis by simp
    qed
    then show ?case using less.prems by (auto intro: placeable.intros)
  qed
  with assms(2) show ?thesis by (auto simp: in_set_conv_nth)
qed

lemma CHECK_TABLE_length: "length CHECK_TABLE = 43"
  by code_simp

lemma registry_in_order: "deps_above [] (map (\<lambda>(cid, _, _, deps, _). (cid, deps)) CHECK_TABLE)"
  by code_simp

lemma registry_rows:
  "map (\<lambda>c. (ck_id c, ck_depends_on c)) (build_check_registry impl mode) =
     map (\<lambda>(cid, _, _, deps, _). (cid, deps)) CHECK_TABLE"
  by (auto simp: build_check_registry_def)

lemma registry_placeable:
  "c \<in> set (build_check_registry impl mode) \<Longrightarrow> placeable (build_check_registry impl mode) (ck_id c)"
  using placeable_in_order [of "build_check_registry impl mode"] registry_in_order by (simp add: registry_rows)


lemma registry_sorted:
  "set (topological_sort (build_check_registry impl mode)) = set (build_check_registry impl mode)"
  "length (topological_sort (build_check_registry impl mode)) = length CHECK_TABLE"
proof -
  let ?reg = "build_check_registry impl mode"
  have dist: "distinct (map ck_id ?reg)"
    using deps_above_facts [of "[]" ?reg] registry_in_order by (simp add: registry_rows)
  have ids: "set (map ck_id (topological_sort ?reg)) = set (map ck_id ?reg)"
    unfolding topological_sort_ids sorted_ids_placeable
    using registry_placeable [of _ impl mode] by (auto elim: placeable.cases)
  have "length (topological_sort ?reg) = card (set (map ck_id (topological_sort ?reg)))"
    using sorted_ids_facts(1) [of ?reg] distinct_card [of "sorted_ids ?reg"] by (metis length_map topological_sort_ids)
  also have "\<dots> = length ?reg" unfolding ids using distinct_card [OF dist] by simp
  finally show "length (topological_sort ?reg) = length CHECK_TABLE" by (simp add: build_check_registry_def)
  show "set (topological_sort ?reg) = set ?reg"
  proof (rule subset_antisym [OF topological_sort_subset subsetI])
    fix c assume c: "c \<in> set ?reg"
    then obtain c' where c': "c' \<in> set (topological_sort ?reg)" "ck_id c' = ck_id c" using ids by (metis image_iff image_set)
    then have "c' = c" using c dist topological_sort_subset [of ?reg] by (metis distinct_map inj_on_contraD subsetD)
    with c' show "c \<in> set (topological_sort ?reg)" by simp
  qed
qed

section \<open>Properties\<close>

text \<open>Claim C13: the queue-based ordering equals its reference. The ids that come out, once each, are exactly those that
  can be placed after all their known dependencies, and every dependency stands before its dependents. A check on a
  dependency cycle, or behind one, is left out without an error.\<close>

theorem topological_sort_reference:
  "distinct (map ck_id (topological_sort checks)) \<and>
   ck_id ` set (topological_sort checks) = {k. placeable checks k} \<and>
   (\<forall>i < length (topological_sort checks). \<forall>d \<in> set (ck_depends_on (topological_sort checks ! i)).
      d \<in> ck_id ` set (topological_sort checks) \<longrightarrow> d \<in> ck_id ` set (take i (topological_sort checks)))"
proof (intro conjI allI impI ballI)
  show "distinct (map ck_id (topological_sort checks))" by (simp add: topological_sort_ids sorted_ids_facts(1))
  show "ck_id ` set (topological_sort checks) = {k. placeable checks k}"
    using sorted_ids_placeable [of checks] by (simp flip: topological_sort_ids)
  show "d \<in> ck_id ` set (take i (topological_sort checks))"
    if "i < length (topological_sort checks)" "d \<in> set (ck_depends_on (topological_sort checks ! i))"
      "d \<in> ck_id ` set (topological_sort checks)" for i d
    using doctor.deps_first [OF refl that] .
qed

definition sample_check :: "string \<Rightarrow> string list \<Rightarrow> docker_execution_mode list \<Rightarrow> check_status \<Rightarrow> nat check" where
  "sample_check k deps modes st =
     \<lparr>ck_id = k, ck_name = k, ck_category = ''Sample'', ck_depends_on = deps,
      ck_run = (\<lambda>_ _ w. (Inr ((skip_result k [])\<lparr>cr_status := st\<rparr>), Suc w)), ck_applies_in = modes\<rparr>"

definition looped_checks :: "nat check list" where
  "looped_checks =
     [sample_check ''c'' [''b'', ''a''] both_modes SPass, sample_check ''b'' [''c''] both_modes SPass,
      sample_check ''e'' [''d''] both_modes SPass, sample_check ''a'' [] both_modes SPass,
      sample_check ''d'' [''a'', ''x''] both_modes SPass]"

theorem topological_sort_reference_witness:
  "map ck_id (topological_sort looped_checks) = [''a'', ''d'', ''e''] \<and> {k. placeable looped_checks k} = {''a'', ''d'', ''e''}"
proof -
  have sorted: "map ck_id (topological_sort looped_checks) = [''a'', ''d'', ''e'']" by code_simp
  have "ck_id ` set (topological_sort looped_checks) = {k. placeable looped_checks k}"
    using topological_sort_reference [of looped_checks] by blast
  moreover have "ck_id ` set (topological_sort looped_checks) = set [''a'', ''d'', ''e'']"
    by (simp only: sorted [symmetric] set_map)
  ultimately show ?thesis using sorted by simp
qed


definition sample_checks :: "nat check list" where
  "sample_checks =
     [sample_check ''sudo'' [] both_modes SFail, sample_check ''boundary'' [''sudo''] [SEPARATE_USER] SPass,
      sample_check ''docker'' [''boundary''] both_modes SPass]"


text \<open>The doctor leaves no check out. A run over the registry, in either mode and whatever the checks do,
  reports on each of its 43 checks: the registry has no duplicate and no cycle.\<close>

theorem doctor_reports_every_check:
  assumes "run_checks (build_check_registry impl mode) user distro mode w = (Inr rs, w')"
  shows "length rs = 43 \<and> set (topological_sort (build_check_registry impl mode)) = set (build_check_registry impl mode)"
  using assms registry_sorted [of impl mode] run_checks_sweep [OF assms]
    length_sweep [of ck_id blocks "doctor_step mode user distro" "[]" "topological_sort (build_check_registry impl mode)" w]
  by (metis CHECK_TABLE_length fst_conv length_map)

theorem doctor_reports_every_check_witness:
  "\<exists>rs. run_checks (build_check_registry (\<lambda>cid _ _ _ w. (Inr (skip_result cid []), w)) SEPARATE_USER) ''sb'' None SEPARATE_USER (0::nat) =
     (Inr rs, 0) \<and> length rs = 43"
proof -
  let ?impl = "\<lambda>cid _ _ _ w. (Inr (skip_result cid []), w) :: (string + check_result) \<times> nat"
  let ?reg = "build_check_registry ?impl SEPARATE_USER"
  have total: "\<exists>rs. run_ordered SEPARATE_USER ''sb'' None results skipped cs (0::nat) = (Inr rs, 0)"
    if "\<And>c. c \<in> set cs \<Longrightarrow> \<exists>r. \<forall>w. ck_run c ''sb'' None w = (Inr r, w)" for results skipped cs
    using that
  proof (induction cs arbitrary: results skipped)
    case (Cons c cs)
    obtain r where r: "\<And>w. ck_run c ''sb'' None w = (Inr r, w)" using Cons.prems by auto
    have "\<exists>rs. run_ordered SEPARATE_USER ''sb'' None res sk cs (0::nat) = (Inr rs, 0)" for res sk
      using Cons.IH Cons.prems by auto
    then show ?case using r by (auto simp: ebind_def eret_def Let_def split: sum.splits prod.splits) (metis Inr_not_Inl prod.inject)+
  qed (simp add: eret_def)
  have "\<exists>r. \<forall>w. ck_run c ''sb'' None w = (Inr r, w)" if "c \<in> set (topological_sort ?reg)" for c
    using that registry_sorted(1) [of ?impl SEPARATE_USER] by (auto simp: build_check_registry_def)
  then obtain rs where "run_checks ?reg ''sb'' None SEPARATE_USER 0 = (Inr rs, 0)"
    using total [of "topological_sort ?reg" "[]" "[]"] by (auto simp: run_checks_def)
  with doctor_reports_every_check [OF this] show ?thesis by blast
qed

text \<open>The subsets that \<open>sandbox init\<close> and an unprovisioned \<open>doctor\<close> run resolve; a dependency that was excluded does not
  skip its dependents, which run.\<close>

lemma doctor_subsets_resolve:
  "outside_dep [''ancestor_traverse''] (subset_of (build_check_registry impl mode) [''Filesystem'', ''Repo Integrity''] [''ancestor_traverse'']) = None"
  "outside_dep [] (subset_of (build_check_registry impl mode) MODE_INVARIANT_DOCTOR_CATEGORIES []) = None"
  "outside_dep [] (subset_of (build_check_registry impl mode) [''Supply Chain''] []) = Some (''image_digests'', ''docker_available'')"
  by code_simp+

lemma excluded_dependency_does_not_skip:
  "map_sum id (map cr_status) (fst (run_checks (filter (\<lambda>c. ck_id c \<noteq> ''boundary'') sample_checks) ''sb'' None SEPARATE_USER 0)) =
     Inr [SFail, SPass]"
  by code_simp

end
