(* ===== verification/Py_Time.thy ===== *)
theory Py_Time
  imports Py_Strings
begin

text \<open>
  The part of \<open>datetime\<close> the sources use: UTC datetimes, their ordinal, \<open>strftime\<close> and \<open>strptime\<close> for the two formats
  of the lock metadata and the backups. \<open>strptime\<close> follows CPython: each directive is a regular expression whose
  alternatives are tried in order, literals ignore case, and the whole text has to be consumed.
\<close>

section \<open>Datetimes\<close>

record datetime =
  dt_year :: nat
  dt_month :: nat
  dt_day :: nat
  dt_hour :: nat
  dt_minute :: nat
  dt_second :: nat

definition is_leap :: "nat \<Rightarrow> bool" where
  "is_leap y = (y mod 4 = 0 \<and> (y mod 100 \<noteq> 0 \<or> y mod 400 = 0))"

definition month_lengths :: "nat \<Rightarrow> nat list" where
  "month_lengths y = [31, if is_leap y then 29 else 28, 31, 30, 31, 30, 31, 31, 30, 31, 30, 31]"

definition days_in_month :: "nat \<Rightarrow> nat \<Rightarrow> nat" where
  "days_in_month y m = (if 1 \<le> m \<and> m \<le> 12 then month_lengths y ! (m - 1) else 0)"

definition valid_datetime :: "datetime \<Rightarrow> bool" where
  "valid_datetime t =
     (1 \<le> dt_year t \<and> dt_year t \<le> 9999 \<and> 1 \<le> dt_month t \<and> dt_month t \<le> 12 \<and>
      1 \<le> dt_day t \<and> dt_day t \<le> days_in_month (dt_year t) (dt_month t) \<and>
      dt_hour t < 24 \<and> dt_minute t < 60 \<and> dt_second t < 60)"

definition days_before_year :: "nat \<Rightarrow> nat" where
  "days_before_year y = (y - 1) * 365 + (y - 1) div 4 - (y - 1) div 100 + (y - 1) div 400"

definition toordinal :: "datetime \<Rightarrow> nat" where
  "toordinal t = days_before_year (dt_year t) + sum_list (take (dt_month t - 1) (month_lengths (dt_year t))) + dt_day t"

definition datetime_seconds :: "datetime \<Rightarrow> int" where
  "datetime_seconds t =
     int (toordinal t) * 86400 + int (dt_hour t) * 3600 + int (dt_minute t) * 60 + int (dt_second t)"

section \<open>Formats\<close>

datatype fmt_item = Dir char | Lit char

definition ISO_FORMAT :: "fmt_item list" where
  "ISO_FORMAT = [Dir CHR ''Y'', Lit CHR ''-'', Dir CHR ''m'', Lit CHR ''-'', Dir CHR ''d'', Lit CHR ''T'', Dir CHR ''H'', Lit CHR '':'',
     Dir CHR ''M'', Lit CHR '':'', Dir CHR ''S'', Lit CHR ''Z'']"

definition TIMESTAMP_FORMAT :: "fmt_item list" where
  "TIMESTAMP_FORMAT = [Dir CHR ''Y'', Lit CHR ''-'', Dir CHR ''m'', Lit CHR ''-'', Dir CHR ''d'', Lit CHR ''-'', Dir CHR ''H'', Lit CHR ''-'',
     Dir CHR ''M'', Lit CHR ''-'', Dir CHR ''S'']"

definition pad2 :: "nat \<Rightarrow> string" where
  "pad2 n = [digit_of (n div 10 mod 10), digit_of (n mod 10)]"

text \<open>Years have four digits here; the clock of a host stands after 1970.\<close>

definition pad4 :: "nat \<Rightarrow> string" where
  "pad4 n = pad2 (n div 100) @ pad2 (n mod 100)"

definition show_directive :: "char \<Rightarrow> datetime \<Rightarrow> string" where
  "show_directive d t =
     (if d = CHR ''Y'' then pad4 (dt_year t) else if d = CHR ''m'' then pad2 (dt_month t) else if d = CHR ''d'' then pad2 (dt_day t)
      else if d = CHR ''H'' then pad2 (dt_hour t) else if d = CHR ''M'' then pad2 (dt_minute t) else pad2 (dt_second t))"

fun strftime :: "fmt_item list \<Rightarrow> datetime \<Rightarrow> string" where
  "strftime [] t = []"
| "strftime (Lit c # f) t = c # strftime f t"
| "strftime (Dir d # f) t = show_directive d t @ strftime f t"

definition two_digits :: "nat \<Rightarrow> nat \<Rightarrow> string \<Rightarrow> (nat \<times> string) list" where
  "two_digits lo hi s =
     (case s of a # b # r \<Rightarrow>
        (let v = digits_value [a, b] in if is_decimal a \<and> is_decimal b \<and> lo \<le> v \<and> v \<le> hi then [(v, r)] else [])
      | _ \<Rightarrow> [])"

definition one_digit :: "nat \<Rightarrow> string \<Rightarrow> (nat \<times> string) list" where
  "one_digit lo s =
     (case s of a # r \<Rightarrow> if is_decimal a \<and> lo \<le> digits_value [a] then [(digits_value [a], r)] else [] | [] \<Rightarrow> [])"

definition four_digits :: "string \<Rightarrow> (nat \<times> string) list" where
  "four_digits s = (if length s \<ge> 4 \<and> list_all is_decimal (take 4 s) then [(digits_value (take 4 s), drop 4 s)] else [])"

text \<open>The alternatives of a directive: value and rest, in the order they are tried.\<close>

definition directive :: "char \<Rightarrow> string \<Rightarrow> (nat \<times> string) list" where
  "directive d s =
     (if d = CHR ''Y'' then four_digits s
      else if d = CHR ''m'' then two_digits 1 12 s @ one_digit 1 s
      else if d = CHR ''d'' then two_digits 1 31 s @ one_digit 1 s @ (if prefix '' '' s then one_digit 1 (drop 1 s) else [])
      else if d = CHR ''H'' then two_digits 0 23 s @ one_digit 0 s
      else if d = CHR ''M'' then two_digits 0 59 s @ one_digit 0 s
      else two_digits 0 61 s @ one_digit 0 s)"

fun first_some :: "'a option list \<Rightarrow> 'a option" where
  "first_some [] = None"
| "first_some (Some a # xs) = Some a"
| "first_some (None # xs) = first_some xs"

fun scan_format :: "fmt_item list \<Rightarrow> string \<Rightarrow> (nat list \<times> string) option" where
  "scan_format [] s = Some ([], s)"
| "scan_format (Lit c # f) s =
     (case s of x # r \<Rightarrow> if py_lower [x] = py_lower [c] then scan_format f r else None | [] \<Rightarrow> None)"
| "scan_format (Dir d # f) s =
     first_some (map (\<lambda>(v, r). map_option (\<lambda>(vs, t). (v # vs, t)) (scan_format f r)) (directive d s))"

text \<open>\<open>None\<close> is the \<open>ValueError\<close> of the parser or of the \<open>datetime\<close> constructor.\<close>

definition strptime :: "fmt_item list \<Rightarrow> string \<Rightarrow> datetime option" where
  "strptime f s =
     (case scan_format f s of
        Some ([y, mo, d, h, mi, se], []) \<Rightarrow>
          (let t = \<lparr>dt_year = y, dt_month = mo, dt_day = d, dt_hour = h, dt_minute = mi, dt_second = se\<rparr>
           in if valid_datetime t then Some t else None)
      | _ \<Rightarrow> None)"

section \<open>Lemmas\<close>

lemma digits_value_pad2 [simp]: "n < 100 \<Longrightarrow> digits_value (pad2 n) = n"
  by (simp add: pad2_def digits_value_def digit_value_digit_of)

lemma pad2_decimal [simp]: "list_all is_decimal (pad2 n)"
  by (simp add: pad2_def digit_of_decimal)

lemma two_digits_pad2: "lo \<le> n \<Longrightarrow> n \<le> hi \<Longrightarrow> n < 100 \<Longrightarrow> two_digits lo hi (pad2 n @ r) = [(n, r)]"
  using digits_value_pad2 [of n] pad2_decimal [of n] by (simp add: two_digits_def pad2_def)

lemma four_digits_pad4: "n < 10000 \<Longrightarrow> four_digits (pad4 n @ r) = [(n, r)]"
proof -
  assume "n < 10000"
  then have "digits_value (pad4 n) = n"
    by (simp add: pad4_def pad2_def digits_value_def digit_value_digit_of)
  moreover have "list_all is_decimal (pad4 n)" "length (pad4 n) = 4" by (simp_all add: pad4_def) (simp add: pad2_def)
  ultimately show ?thesis by (simp add: four_digits_def)
qed

text \<open>The first alternative succeeds on what \<open>strftime\<close> printed.\<close>

lemma directive_show:
  assumes "valid_datetime t" "d \<in> set ''YmdHMS''"
  obtains rest where "directive d (show_directive d t @ r) =
    (if d = CHR ''Y'' then dt_year t else if d = CHR ''m'' then dt_month t else if d = CHR ''d'' then dt_day t
     else if d = CHR ''H'' then dt_hour t else if d = CHR ''M'' then dt_minute t else dt_second t, r) # rest"
proof -
  have "dt_day t \<le> 31"
    using assms(1) by (auto simp: valid_datetime_def days_in_month_def month_lengths_def less_Suc_eq_0_disj nth_Cons'
        split: if_splits)
  with assms that show thesis
    by (auto simp: directive_def show_directive_def valid_datetime_def two_digits_pad2 four_digits_pad4)
qed

lemma scan_format_show:
  assumes "valid_datetime t" "d \<in> set ''YmdHMS''" "scan_format f r = Some (vs, u)"
  shows "scan_format (Dir d # f) (show_directive d t @ r) =
    Some ((if d = CHR ''Y'' then dt_year t else if d = CHR ''m'' then dt_month t else if d = CHR ''d'' then dt_day t
     else if d = CHR ''H'' then dt_hour t else if d = CHR ''M'' then dt_minute t else dt_second t) # vs, u)"
  by (rule directive_show [OF assms(1,2), of r]) (simp add: assms(3))

lemmas scan_format_show_last = scan_format_show [where r = "[]", simplified append_Nil2]

lemma strptime_strftime:
  assumes "valid_datetime t" "f \<in> {ISO_FORMAT, TIMESTAMP_FORMAT}"
  shows "strptime f (strftime f t) = Some t"
  using assms
  by (cases t) (auto simp: strptime_def ISO_FORMAT_def TIMESTAMP_FORMAT_def scan_format_show scan_format_show_last
      simp del: scan_format.simps(3))

end
