(* ===== verification/Backup_Lock.thy ===== *)
theory Backup_Lock
  imports Py_Time Py_Dict
begin

text \<open>
  The per-instance backup lock, \<open>src/src/core/locks.py\<close>: staleness of the recorded metadata, the check that the lifecycle
  commands make, and acquisition. Each system call of \<open>acquire_backup_lock\<close> and \<open>is_backup_lock_held\<close> is a step of a
  process; processes interleave, the clock may move between any two steps, and a process may die at any point, which
  makes the kernel drop its lock and leaves the file as it is. The lock file is never removed. The JSON library is an
  argument.
\<close>

section \<open>Metadata\<close>

text \<open>A moment of the clock: a datetime and its microseconds.\<close>

type_synonym moment = "datetime \<times> nat"

record json_codec =
  jc_loads :: "string \<Rightarrow> string + json"
  jc_dumps :: "json \<Rightarrow> string"

definition micros :: "moment \<Rightarrow> int" where
  "micros m = datetime_seconds (fst m) * 1000000 + int (snd m)"

definition STALE_GRACE_SECONDS :: int where
  "STALE_GRACE_SECONDS = 60"

text \<open>The content is \<open>None\<close> when the file cannot be opened.\<close>

definition read_lock_metadata :: "json_codec \<Rightarrow> string option \<Rightarrow> (string, json) dict option" where
  "read_lock_metadata jc content =
     (case content of
        None \<Rightarrow> None
      | Some raw \<Rightarrow> (case jc_loads jc raw of Inr (JObj data) \<Rightarrow> Some data | _ \<Rightarrow> None))"

definition is_lock_stale :: "json_codec \<Rightarrow> string option \<Rightarrow> moment \<Rightarrow> bool" where
  "is_lock_stale jc content now =
     (case read_lock_metadata jc content of
        None \<Rightarrow> True
      | Some meta \<Rightarrow>
          (case map_of meta ''started_at_utc'' of
             Some (JStr started) \<Rightarrow>
               (case strptime ISO_FORMAT started of
                  None \<Rightarrow> True
                | Some ts \<Rightarrow> micros now - micros (ts, 0) > STALE_GRACE_SECONDS * 1000000)
           | _ \<Rightarrow> True))"

definition lock_metadata :: "json_codec \<Rightarrow> nat \<Rightarrow> moment \<Rightarrow> string" where
  "lock_metadata jc pid now =
     jc_dumps jc (JObj [(''pid'', JInt (int pid)), (''started_at_utc'', JStr (strftime ISO_FORMAT (fst now)))])"

section \<open>Processes\<close>

datatype lock_pc =
    Idle
  | Opened
  | Contended
  | Overriding
  | Truncated
  | Locked
  | Cleared
  | InBackup moment
  | Leaving
  | HeldByOther
  | WouldBlock
  | CheckOpened
  | CheckLocked
  | Answered bool

record lock_sys =
  ls_content :: "string option"
  ls_holder :: "nat option"
  ls_pc :: "nat \<Rightarrow> lock_pc"
  ls_now :: moment

definition goto :: "nat \<Rightarrow> lock_pc \<Rightarrow> lock_sys \<Rightarrow> lock_sys" where
  "goto p pc s = s\<lparr>ls_pc := (ls_pc s)(p := pc)\<rparr>"

text \<open>\<open>os.write\<close> at the start of the file.\<close>

definition overwrite :: "string \<Rightarrow> string \<Rightarrow> string" where
  "overwrite body old = body @ drop (length body) old"

definition content_text :: "lock_sys \<Rightarrow> string" where
  "content_text s = (case ls_content s of None \<Rightarrow> [] | Some c \<Rightarrow> c)"

text \<open>The check as one look at the file, the lock and the clock.\<close>

definition is_backup_lock_held :: "json_codec \<Rightarrow> lock_sys \<Rightarrow> bool" where
  "is_backup_lock_held jc s =
     (if ls_content s = None then False
      else if is_lock_stale jc (ls_content s) (ls_now s) then False
      else ls_holder s \<noteq> None)"

inductive lock_step :: "json_codec \<Rightarrow> lock_sys \<Rightarrow> lock_sys \<Rightarrow> bool" for jc where
  tick: "valid_datetime (fst m) \<Longrightarrow> lock_step jc s (s\<lparr>ls_now := m\<rparr>)"
| crash: "lock_step jc s (goto p Idle (s\<lparr>ls_holder := (if ls_holder s = Some p then None else ls_holder s)\<rparr>))"
| acquire: "ls_pc s p = Idle \<Longrightarrow> lock_step jc s (goto p Opened (s\<lparr>ls_content := Some (content_text s)\<rparr>))"
| flock: "ls_pc s p = Opened \<Longrightarrow> ls_holder s = None \<Longrightarrow> lock_step jc s (goto p Locked (s\<lparr>ls_holder := Some p\<rparr>))"
| flock_busy: "ls_pc s p = Opened \<Longrightarrow> ls_holder s \<noteq> None \<Longrightarrow> lock_step jc s (goto p Contended s)"
| refuse: "ls_pc s p = Contended \<Longrightarrow> \<not> is_lock_stale jc (ls_content s) (ls_now s) \<Longrightarrow> lock_step jc s (goto p HeldByOther s)"
| override: "ls_pc s p = Contended \<Longrightarrow> is_lock_stale jc (ls_content s) (ls_now s) \<Longrightarrow> lock_step jc s (goto p Overriding s)"
| override_truncate: "ls_pc s p = Overriding \<Longrightarrow> lock_step jc s (goto p Truncated (s\<lparr>ls_content := Some []\<rparr>))"
| reflock: "ls_pc s p = Truncated \<Longrightarrow> ls_holder s = None \<Longrightarrow> lock_step jc s (goto p Locked (s\<lparr>ls_holder := Some p\<rparr>))"
| reflock_busy: "ls_pc s p = Truncated \<Longrightarrow> ls_holder s \<noteq> None \<Longrightarrow> lock_step jc s (goto p WouldBlock s)"
| clear: "ls_pc s p = Locked \<Longrightarrow> lock_step jc s (goto p Cleared (s\<lparr>ls_content := Some []\<rparr>))"
| record_meta: "ls_pc s p = Cleared \<Longrightarrow> lock_step jc s (goto p (InBackup (ls_now s))
    (s\<lparr>ls_content := Some (overwrite (lock_metadata jc p (ls_now s)) (content_text s))\<rparr>))"
| leave: "ls_pc s p = InBackup t \<Longrightarrow> lock_step jc s (goto p Leaving (s\<lparr>ls_content := Some []\<rparr>))"
| unlock: "ls_pc s p = Leaving \<Longrightarrow> lock_step jc s (goto p Idle (s\<lparr>ls_holder := None\<rparr>))"
| check_no: "ls_pc s p = Idle \<Longrightarrow> ls_content s = None \<or> is_lock_stale jc (ls_content s) (ls_now s) \<Longrightarrow>
    lock_step jc s (goto p (Answered False) s)"
| check_open: "ls_pc s p = Idle \<Longrightarrow> ls_content s \<noteq> None \<Longrightarrow> \<not> is_lock_stale jc (ls_content s) (ls_now s) \<Longrightarrow>
    lock_step jc s (goto p CheckOpened s)"
| check_busy: "ls_pc s p = CheckOpened \<Longrightarrow> ls_holder s \<noteq> None \<Longrightarrow> lock_step jc s (goto p (Answered True) s)"
| check_free: "ls_pc s p = CheckOpened \<Longrightarrow> ls_holder s = None \<Longrightarrow> lock_step jc s (goto p CheckLocked (s\<lparr>ls_holder := Some p\<rparr>))"
| check_unlock: "ls_pc s p = CheckLocked \<Longrightarrow> lock_step jc s (goto p (Answered False) (s\<lparr>ls_holder := None\<rparr>))"
| again: "ls_pc s p \<in> {HeldByOther, WouldBlock, Answered True, Answered False} \<Longrightarrow> lock_step jc s (goto p Idle s)"

inductive lock_reachable :: "json_codec \<Rightarrow> lock_sys \<Rightarrow> bool" for jc where
  start: "ls_holder s = None \<Longrightarrow> (\<And>p. ls_pc s p = Idle) \<Longrightarrow> valid_datetime (fst (ls_now s)) \<Longrightarrow> lock_reachable jc s"
| step: "lock_reachable jc s \<Longrightarrow> lock_step jc s t \<Longrightarrow> lock_reachable jc t"

inductive_cases lock_stepE: "lock_step jc s t"

section \<open>Invariant\<close>

fun owns :: "lock_pc \<Rightarrow> bool" where
  "owns Locked = True" | "owns Cleared = True" | "owns (InBackup t) = True" | "owns Leaving = True"
| "owns CheckLocked = True" | "owns _ = False"

definition owner_inv :: "lock_sys \<Rightarrow> bool" where
  "owner_inv s = (\<forall>p. owns (ls_pc s p) \<longleftrightarrow> ls_holder s = Some p)"

lemma owner_invD: "owner_inv s \<Longrightarrow> owns (ls_pc s p) \<longleftrightarrow> ls_holder s = Some p"
  by (simp add: owner_inv_def)

lemma owner_inv_step:
  assumes "lock_step jc s t" "owner_inv s"
  shows "owner_inv t"
proof -
  note inv = owner_invD [OF assms(2)]
  show ?thesis
    using assms(1)
    by (cases rule: lock_step.cases)
      (auto simp: owner_inv_def goto_def split: if_splits dest: arg_cong [where f = owns] simp flip: inv,
        (metis inv option.inject option.distinct(1) owns.simps)+)
qed

text \<open>What the file holds while its owner is between clearing it and leaving.\<close>

definition content_inv :: "json_codec \<Rightarrow> lock_sys \<Rightarrow> bool" where
  "content_inv jc s =
     (valid_datetime (fst (ls_now s)) \<and> (\<forall>p. ls_pc s p = Cleared \<longrightarrow> ls_content s = Some []) \<and>
      (\<forall>p m. ls_pc s p = InBackup m \<longrightarrow>
         valid_datetime (fst m) \<and> (ls_content s = Some (lock_metadata jc p m) \<or> ls_content s = Some [])))"

lemma content_inv_step:
  assumes st: "lock_step jc s t" and own: "owner_inv s" and inv: "content_inv jc s"
  shows "content_inv jc t"
proof -
  have sole: "q = p" if "owns (ls_pc s p)" "owns (ls_pc s q)" for p q
    using that owner_invD [OF own] by simp
  from st show ?thesis
  proof (cases rule: lock_step.cases)
    case (record_meta p)
    have "q = p" if "ls_pc s q = Cleared \<or> (\<exists>m. ls_pc s q = InBackup m)" for q
      using that sole [of p q] record_meta by auto
    with record_meta inv show ?thesis
      by (auto simp: content_inv_def goto_def overwrite_def content_text_def)
  qed (use inv in \<open>simp_all add: content_inv_def goto_def content_text_def\<close>, fastforce+)
qed

lemma lock_reachable_inv: "lock_reachable jc s \<Longrightarrow> owner_inv s \<and> content_inv jc s"
proof (induction rule: lock_reachable.induct)
  case (start s)
  then show ?case by (simp add: owner_inv_def content_inv_def)
next
  case (step s t)
  then show ?case using owner_inv_step content_inv_step by blast
qed

text \<open>The library: what was dumped is loaded, and the empty text is no JSON.\<close>

definition codec_ok :: "json_codec \<Rightarrow> bool" where
  "codec_ok jc =
     ((\<forall>pid started. let v = JObj [(''pid'', JInt (int pid)), (''started_at_utc'', JStr started)] in
         jc_loads jc (jc_dumps jc v) = Inr v) \<and>
      (\<exists>e. jc_loads jc [] = Inl e))"

lemma metadata_stale:
  assumes "codec_ok jc" "valid_datetime (fst m)"
  shows "is_lock_stale jc (Some (lock_metadata jc p m)) now \<longleftrightarrow>
    micros now - micros (fst m, 0) > STALE_GRACE_SECONDS * 1000000"
    and "is_lock_stale jc (Some []) now"
  using assms
  by (auto simp: is_lock_stale_def read_lock_metadata_def lock_metadata_def codec_ok_def Let_def strptime_strftime)

section \<open>Properties\<close>

text \<open>Claim C10: the backup lock excludes. In every reachable interleaving of acquisitions, checks, releases and crashes at
  most one process owns the lock, and so at most one is inside a backup, although a process that takes the lock for
  stale truncates the file of its owner.\<close>

theorem backup_lock_exclusive:
  assumes "lock_reachable jc s" "owns (ls_pc s p)" "owns (ls_pc s q)"
  shows "p = q"
  using lock_reachable_inv [OF assms(1)] assms(2,3) owner_invD by (metis option.inject)

text \<open>Claim C11: what the lifecycle commands can see of a running backup. While a process is inside a backup that it began
  at \<open>m\<close>, the check reports the lock as held exactly when the file still has the process's own record and no more than
  60 seconds have passed since \<open>m\<close>, its microseconds dropped. A backup that takes longer is reported as not held although its
  process is alive.\<close>

theorem backup_lock_visibility:
  assumes "codec_ok jc" "lock_reachable jc s" "ls_pc s p = InBackup m"
  shows "is_backup_lock_held jc s \<longleftrightarrow>
    ls_content s = Some (lock_metadata jc p m) \<and> micros (ls_now s) - micros (fst m, 0) \<le> 60 * 1000000"
proof -
  have inv: "owner_inv s" "content_inv jc s" using lock_reachable_inv [OF assms(2)] by blast+
  have own: "ls_holder s = Some p" using owner_invD [OF inv(1), of p] assms(3) by simp
  have m: "valid_datetime (fst m)" and c: "ls_content s = Some (lock_metadata jc p m) \<or> ls_content s = Some []"
    using inv(2) assms(3) unfolding content_inv_def by blast+
  have "lock_metadata jc p m \<noteq> []"
  proof
    assume "lock_metadata jc p m = []"
    moreover obtain v where "jc_loads jc (lock_metadata jc p m) = Inr v"
      using assms(1) by (auto simp: codec_ok_def lock_metadata_def Let_def)
    ultimately show False using assms(1) by (auto simp: codec_ok_def)
  qed
  with c own metadata_stale(1) [OF assms(1) m, of p "ls_now s"] metadata_stale(2) [OF assms(1) m, of "ls_now s"] show ?thesis
    by (auto simp: is_backup_lock_held_def STALE_GRACE_SECONDS_def)
qed

text \<open>A codec for the records of the lock, and a quiet start.\<close>

definition sample_codec :: json_codec where
  "sample_codec =
     \<lparr>jc_loads = (\<lambda>s. case py_int (takeWhile (\<lambda>c. c \<noteq> CHR ''@'') s) of
        None \<Rightarrow> Inl ''Expecting value''
      | Some pid \<Rightarrow> Inr (JObj [(''pid'', JInt pid), (''started_at_utc'', JStr (tl (dropWhile (\<lambda>c. c \<noteq> CHR ''@'') s)))])),
      jc_dumps = (\<lambda>v. case v of
        JObj [(_, JInt pid), (_, JStr started)] \<Rightarrow> nat_str (nat pid) @ ''@'' @ started
      | _ \<Rightarrow> [])\<rparr>"

lemma sample_codec_ok: "codec_ok sample_codec"
proof -
  have "takeWhile (\<lambda>c. c \<noteq> CHR ''@'') (nat_str n @ ''@'' @ r) = nat_str n"
    "dropWhile (\<lambda>c. c \<noteq> CHR ''@'') (nat_str n @ ''@'' @ r) = ''@'' @ r" for n r
    using nat_str_avoids [of "CHR ''@''" n]
    by (auto simp: is_decimal_def digit_chars_def takeWhile_append dropWhile_append)
  moreover have "py_int [] = None" by code_simp
  ultimately show ?thesis by (simp add: codec_ok_def sample_codec_def Let_def)
qed

definition noon :: moment where
  "noon = (\<lparr>dt_year = 2026, dt_month = 2, dt_day = 3, dt_hour = 12, dt_minute = 0, dt_second = 0\<rparr>, 5)"

definition at_noon :: "string option \<Rightarrow> nat option \<Rightarrow> lock_pc \<Rightarrow> lock_pc \<Rightarrow> lock_sys" where
  "at_noon content holder pc1 pc2 =
     \<lparr>ls_content = content, ls_holder = holder, ls_pc = ((\<lambda>_. Idle)(2 := pc2))(1 := pc1), ls_now = noon\<rparr>"

lemma noon_valid: "valid_datetime (fst noon)"
  by code_simp

lemma at_noon_start: "lock_reachable jc (at_noon None None Idle Idle)"
  by (rule lock_reachable.start) (simp_all add: at_noon_def noon_valid)

lemma at_noon_step: "lock_reachable jc s \<Longrightarrow> lock_step jc s s' \<Longrightarrow> s' = t \<Longrightarrow> lock_reachable jc t"
  by (blast intro: lock_reachable.step)

lemmas at_noon_simps = at_noon_def goto_def content_text_def overwrite_def fun_upd_twist

lemma at_noon_locked: "lock_reachable jc (at_noon (Some []) (Some 1) Locked Idle)"
proof -
  have 1: "lock_reachable jc (at_noon (Some []) None Opened Idle)"
    by (rule at_noon_step [OF at_noon_start lock_step.acquire [of _ 1]]) (simp_all add: at_noon_simps)
  show ?thesis
    by (rule at_noon_step [OF 1 lock_step.flock [of _ 1]]) (simp_all add: at_noon_simps)
qed

lemma at_noon_backup: "lock_reachable jc (at_noon (Some []) (Some 1) Locked pc) \<Longrightarrow>
  lock_reachable jc (at_noon (Some (lock_metadata jc 1 noon)) (Some 1) (InBackup noon) pc)"
  by (rule at_noon_step [OF at_noon_step [OF _ lock_step.clear [of _ 1]] lock_step.record_meta [of _ 1]])
    (auto simp: at_noon_simps)

theorem backup_lock_exclusive_witness:
  "\<exists>s. lock_reachable sample_codec s \<and> owns (ls_pc s 1) \<and> (\<forall>q. owns (ls_pc s q) \<longrightarrow> q = 1)"
proof -
  let ?s = "at_noon (Some []) (Some 1) Locked Idle"
  have r: "lock_reachable sample_codec ?s" "owns (ls_pc ?s 1)" using at_noon_locked by (simp_all add: at_noon_def)
  have "q = 1" if "owns (ls_pc ?s q)" for q using backup_lock_exclusive [OF r(1) that r(2)] .
  with r show ?thesis by blast
qed

theorem backup_lock_visibility_witness:
  "\<exists>s. lock_reachable sample_codec s \<and> ls_pc s 1 = InBackup noon \<and> is_backup_lock_held sample_codec s"
proof -
  let ?s = "at_noon (Some (lock_metadata sample_codec 1 noon)) (Some 1) (InBackup noon) Idle"
  have r: "lock_reachable sample_codec ?s" "ls_pc ?s 1 = InBackup noon"
    using at_noon_backup [OF at_noon_locked] by (simp_all add: at_noon_def)
  from backup_lock_visibility [OF sample_codec_ok r] r show ?thesis
    by (auto simp: at_noon_def micros_def noon_def)
qed

text \<open>Claim C40: a backup can be hidden from its first moment. A process that tries to take the lock between the
  owner's locking and its writing of the record finds an empty file, takes the lock for stale, and truncates the file
  once the record is there: then the check does not see the running backup at all.\<close>

theorem fresh_backup_hidden:
  assumes "codec_ok jc"
  shows "\<exists>s m. lock_reachable jc s \<and> ls_pc s 1 = InBackup m \<and> ls_now s = m \<and> \<not> is_backup_lock_held jc s"
proof -
  have 1: "lock_reachable jc (at_noon (Some []) (Some 1) Locked Opened)"
    by (rule at_noon_step [OF at_noon_locked lock_step.acquire [of _ 2]]) (simp_all add: at_noon_simps)
  have 2: "lock_reachable jc (at_noon (Some []) (Some 1) Locked Contended)"
    by (rule at_noon_step [OF 1 lock_step.flock_busy [of _ 2]]) (simp_all add: at_noon_simps)
  have 3: "lock_reachable jc (at_noon (Some []) (Some 1) Locked Overriding)"
    by (rule at_noon_step [OF 2 lock_step.override [of _ 2]])
      (simp_all add: at_noon_simps metadata_stale(2) [OF assms noon_valid])
  have 4: "lock_reachable jc (at_noon (Some []) (Some 1) (InBackup noon) Truncated)"
    by (rule at_noon_step [OF at_noon_backup [OF 3] lock_step.override_truncate [of _ 2]]) (simp_all add: at_noon_simps)
  have "\<not> is_backup_lock_held jc (at_noon (Some []) (Some 1) (InBackup noon) Truncated)"
    by (simp add: is_backup_lock_held_def at_noon_def metadata_stale(2) [OF assms noon_valid])
  with 4 show ?thesis by (intro exI [of _ "at_noon (Some []) (Some 1) (InBackup noon) Truncated"] exI [of _ noon]) (simp add: at_noon_def)
qed

theorem fresh_backup_hidden_witness:
  "\<exists>s. lock_reachable sample_codec s \<and> owns (ls_pc s 1) \<and> \<not> is_backup_lock_held sample_codec s"
  using fresh_backup_hidden [OF sample_codec_ok] by (metis owns.simps(3))

end
