(* ===== verification/Acl_Plan.thy ===== *)
theory Acl_Plan
  imports Py_Path Host_World
begin

text \<open>
  Access of the daemon's account to an instance, \<open>src/src/core/actions\<close> and the planning functions of
  \<open>src/src/cli/main.py\<close>: the ancestors that are opened, the grant and the revoke plan, the helper recipes, and the phases
  that carry plans out. A plan is data, shared by the preview and the live run. Users and modes of files and the
  working directory are the environment; \<open>None\<close> for a plan means that the climb to the root does not return.
\<close>

section \<open>Environment and ancestors\<close>

record acl_env =
  ae_cwd :: string
  ae_uid :: int
  ae_stat :: "string \<Rightarrow> (int \<times> int \<times> nat) option"

definition owned_elsewhere :: "acl_env \<Rightarrow> string \<Rightarrow> bool" where
  "owned_elsewhere ae d = (case ae_stat ae d of None \<Rightarrow> True | Some (uid, _, _) \<Rightarrow> uid \<noteq> ae_uid ae)"

definition compute_ancestors :: "acl_env \<Rightarrow> string \<Rightarrow> string list option" where
  "compute_ancestors ae instance_dir = climb (owned_elsewhere ae) (dirname (abspath (ae_cwd ae) instance_dir)) []"

definition compute_workspace_ancestors :: "acl_env \<Rightarrow> string \<Rightarrow> string list option" where
  "compute_workspace_ancestors ae workspace_path =
     climb (owned_elsewhere ae) (dirname (abspath (ae_cwd ae) workspace_path)) []"

section \<open>Actions\<close>

record named_acl_grant =
  ag_command :: "string list"
  ag_description :: string
  ag_target :: "string list"
  ag_entry :: string
  ag_default :: bool
  ag_recursive :: bool

record named_acl_revoke =
  ar_command :: "string list"
  ar_description :: string
  ar_target :: "string list"
  ar_entry :: string
  ar_default :: bool

definition grant :: "bool \<Rightarrow> bool \<Rightarrow> string \<Rightarrow> string \<Rightarrow> string \<Rightarrow> named_acl_grant" where
  "grant dflt recursive entry path label =
     \<lparr>ag_command = [''setfacl''] @ (if dflt then [''-d''] else []) @ (if recursive then [''-R''] else []) @ [''-m'', entry, path],
      ag_description = label @ '': '' @ path, ag_target = path_parts path, ag_entry = entry, ag_default = dflt,
      ag_recursive = recursive\<rparr>"

definition revoke :: "bool \<Rightarrow> string \<Rightarrow> string \<Rightarrow> string \<Rightarrow> named_acl_revoke" where
  "revoke dflt entry path label =
     \<lparr>ar_command = [''setfacl''] @ (if dflt then [''-d''] else []) @ [''-x'', entry, path],
      ar_description = label @ '': '' @ path, ar_target = path_parts path, ar_entry = entry, ar_default = dflt\<rparr>"

definition describe_acl :: "string list \<Rightarrow> string \<Rightarrow> string" where
  "describe_acl command description = ''    $ '' @ py_join '' '' command @ ''  # '' @ description"

definition perm_entry :: "string \<Rightarrow> string \<Rightarrow> string" where
  "perm_entry user perms = ''u:'' @ user @ '':'' @ perms"

section \<open>The grant plan\<close>

fun fresh_ancestors :: "string list \<Rightarrow> string list \<Rightarrow> string list \<times> string list" where
  "fresh_ancestors seen [] = ([], seen)"
| "fresh_ancestors seen (d # ds) =
     (if d \<in> set seen then fresh_ancestors seen ds
      else (let (fresh, seen') = fresh_ancestors (d # seen) ds in (d # fresh, seen')))"

definition workspace_default_entry :: "string \<Rightarrow> string option \<Rightarrow> string" where
  "workspace_default_entry host_user dev_user =
     ''u::rwx,g::rwx,o::---,m::rwx,'' @ perm_entry host_user ''rwx'' @
     (case dev_user of None \<Rightarrow> [] | Some dev \<Rightarrow> if dev = [] then [] else '','' @ perm_entry dev ''rwx'')"

fun workspace_grants ::
  "acl_env \<Rightarrow> string \<Rightarrow> string option \<Rightarrow> string list \<Rightarrow> string list \<Rightarrow> named_acl_grant list option" where
  "workspace_grants ae host_user dev_user seen [] = Some []"
| "workspace_grants ae host_user dev_user seen (ws # rest) =
     Option.bind (compute_workspace_ancestors ae ws) (\<lambda>ancestors.
     (let (fresh, seen') = fresh_ancestors seen ancestors in
      Option.bind (workspace_grants ae host_user dev_user seen' rest) (\<lambda>more_grants.
      Some (map (\<lambda>d. grant False False (perm_entry host_user ''--x'') d ''workspace ancestor traverse'') fresh @
        [grant False False (perm_entry host_user ''rwx'') ws ''workspace named-ACL'',
         grant True False (workspace_default_entry host_user dev_user) ws ''workspace default ACL''] @ more_grants))))"

definition CONFIG_SUBDIRS :: "string list" where
  "CONFIG_SUBDIRS = [''config/coredns'', ''config/dnsdist'', ''config/proxy'', ''config/core'']"

definition instance_grants :: "string \<Rightarrow> string \<Rightarrow> named_acl_grant list" where
  "instance_grants instance_dir host_user =
     (let at = path_join instance_dir; u = perm_entry host_user in
      [grant False False (u ''r-x'') instance_dir ''instance root'',
       grant False True (u ''rX'') (at ''docker/'') ''docker config'',
       grant False False (u ''rwx'') (at ''docker/core'') ''helper-cp parent'',
       grant False True (u ''rX'') (at ''config/'') ''config files''] @
      map (\<lambda>rel. grant False False (u ''rwx'') (at rel) ''helper-cp parent'') CONFIG_SUBDIRS @
      [grant False False (u ''r'') (at ''.sandbox.env'') ''env file'',
       grant False False (u ''rwx'') (at ''secrets/'') ''secrets dir provisioning write'',
       grant True False (''u::rw-,g::---,o::---,m::r--,'' @ u ''r'') (at ''secrets/'') ''secrets default ACL''] @
      map (\<lambda>rel. grant True False (u ''r'') (at rel) ''helper-cp parent default ACL'') (CONFIG_SUBDIRS @ [''secrets'']) @
      concat (map (\<lambda>rel.
        [grant False False (u ''rwx'') (at rel) ''helper-recipe parent'',
         grant True False (''u::rwx,g::rwx,o::---,m::rwx,'' @ u ''rwx'') (at rel) ''helper-recipe parent default ACL''])
        [''cache/core'', ''log'']))"

definition acl_grant_plan ::
  "acl_env \<Rightarrow> string \<Rightarrow> string \<Rightarrow> string list \<Rightarrow> string option \<Rightarrow> named_acl_grant list option" where
  "acl_grant_plan ae instance_dir host_user workspace_paths dev_user =
     Option.bind (compute_ancestors ae instance_dir) (\<lambda>ancestors.
     Option.bind (workspace_grants ae host_user dev_user [] workspace_paths) (\<lambda>ws_grants.
     Some (map (\<lambda>d. grant False False (perm_entry host_user ''--x'') d ''ancestor traverse'') ancestors @
       instance_grants instance_dir host_user @ ws_grants)))"

section \<open>The revoke plan\<close>

definition acl_revoke_plan :: "string \<Rightarrow> string \<Rightarrow> string list \<Rightarrow> named_acl_revoke list" where
  "acl_revoke_plan instance_dir host_user workspace_paths =
     (let at = path_join instance_dir; user_entry = ''u:'' @ host_user in
      [revoke False user_entry instance_dir ''instance root'',
       revoke False user_entry (at ''docker/'') ''docker config'',
       revoke False user_entry (at ''config/'') ''config files'',
       revoke False user_entry (at ''secrets/'') ''secrets dir traverse'',
       revoke True user_entry (at ''secrets/'') ''secrets default ACL''] @
      concat (map (\<lambda>ws.
        [revoke False user_entry ws ''workspace named-ACL'', revoke True user_entry ws ''workspace default named entry''])
        workspace_paths))"

section \<open>Helper recipes\<close>

type_synonym file_recipe = "string \<times> string list \<times> int \<times> nat"

definition RO_FILE_RECIPES :: "file_recipe list" where
  "RO_FILE_RECIPES =
     [(''config/coredns'', [''Corefile''], 65532, 416),
      (''config/dnsdist'', [''dnsdist.conf''], 953, 416),
      (''config/proxy'', [''squid.conf'', ''allowed_domains.txt'', ''read_only_domains.txt'', ''ERR_SANDBOX_403'', ''.htpasswd''], 13, 416),
      (''config/core'', [''.bashrc'', ''.npmrc'', ''.gitconfig'', ''CLAUDE.md'', ''sshd_config''], 1000, 416),
      (''secrets'', [''authorized_keys'', ''ipc_host_key''], 1000, 384)]"

definition EXEC_FILE_RECIPES :: "file_recipe list" where
  "EXEC_FILE_RECIPES = [(''docker/core'', [''entrypoint.sh''], 1000, 320)]"

definition RW_FILE_RECIPES :: "file_recipe list" where
  "RW_FILE_RECIPES = [(''config/core'', [''.claude.json''], 1000, 432)]"

definition FILE_RECIPES :: "file_recipe list" where
  "FILE_RECIPES = RO_FILE_RECIPES @ EXEC_FILE_RECIPES @ RW_FILE_RECIPES"

definition CACHE_LOG_LEAVES_BY_PARENT :: "(string \<times> string list) list" where
  "CACHE_LOG_LEAVES_BY_PARENT = [(''cache/core'', [''.claude'']), (''log'', [''core''])]"

record helper_cp_chown =
  hc_parent :: "string list"
  hc_files :: "string list"
  hc_uid :: int
  hc_gid :: int
  hc_mode :: nat

record helper_mkdir_chown =
  hm_parent :: "string list"
  hm_leaves :: "string list"
  hm_uid :: int
  hm_gid :: int

definition helper_mkdir_chown_plan :: "host_env \<Rightarrow> string \<Rightarrow> string \<Rightarrow> host_error + helper_mkdir_chown list" where
  "helper_mkdir_chown_plan env instance_dir host_user =
     bindE (host_id_for_in_container env 1000 host_user) (\<lambda>uid.
     bindE (host_gid_for_in_container env 1000 host_user) (\<lambda>gid.
     Inr (map (\<lambda>(parent, leaves). \<lparr>hm_parent = path_parts (path_join instance_dir parent), hm_leaves = leaves,
         hm_uid = uid, hm_gid = gid\<rparr>) CACHE_LOG_LEAVES_BY_PARENT)))"

fun cp_chown_actions :: "host_env \<Rightarrow> string \<Rightarrow> string \<Rightarrow> file_recipe list \<Rightarrow> host_error + helper_cp_chown list" where
  "cp_chown_actions env instance_dir host_user [] = Inr []"
| "cp_chown_actions env instance_dir host_user ((parent, files, consumer_uid, mode) # rest) =
     bindE (host_id_for_in_container env consumer_uid host_user) (\<lambda>uid.
     bindE (host_gid_for_in_container env consumer_uid host_user) (\<lambda>gid.
     bindE (cp_chown_actions env instance_dir host_user rest) (\<lambda>acts.
     Inr (\<lparr>hc_parent = path_parts (path_join instance_dir parent), hc_files = files, hc_uid = uid, hc_gid = gid,
         hc_mode = mode\<rparr> # acts))))"

definition helper_cp_chown_plan :: "host_env \<Rightarrow> string \<Rightarrow> string \<Rightarrow> host_error + helper_cp_chown list" where
  "helper_cp_chown_plan env instance_dir host_user = cp_chown_actions env instance_dir host_user FILE_RECIPES"

section \<open>Files the daemon reads in place\<close>

definition DAEMON_READ_DIRECT_FILES :: "(string \<times> string list) list" where
  "DAEMON_READ_DIRECT_FILES =
     [(''docker'', [''compose.yml'']),
      (''docker/extras'', [''db-postgres.yml'', ''mcp-firecrawl.yml'']),
      (''docker/core'', [''Dockerfile.core'']),
      (''docker/admin'', [''Dockerfile.admin'', ''fwd.go'']),
      (''docker/coredns'', [''Dockerfile.coredns'']),
      (''docker/extras'', [''Dockerfile.mcp-firecrawl''])]"

definition post_hydrate_daemon_read_targets :: "(string \<Rightarrow> bool) \<Rightarrow> string \<Rightarrow> string list" where
  "post_hydrate_daemon_read_targets isfile instance_dir =
     filter isfile (concat (map (\<lambda>(parent, files). map (path_join (path_join instance_dir parent)) files)
       (map (\<lambda>(parent, files, _, _). (parent, files)) FILE_RECIPES @ DAEMON_READ_DIRECT_FILES)))"

section \<open>The shared group of a workspace\<close>

datatype group_step = ChgrpStep | Chmod2770Step | SetfaclEffective | SetfaclDefault

record workspace_shared_group =
  wg_path :: string
  wg_gid :: int
  wg_step :: group_step
  wg_op :: string
  wg_command :: "string list"

definition workspace_shared_group_plan :: "string \<Rightarrow> int \<Rightarrow> string option \<Rightarrow> string \<Rightarrow> workspace_shared_group list" where
  "workspace_shared_group_plan workspace_path bridge_gid dev_user host_user =
     (let ws = parts_str (path_parts workspace_path);
          step = (\<lambda>st summary cmd. \<lparr>wg_path = ws, wg_gid = bridge_gid, wg_step = st, wg_op = summary, wg_command = cmd\<rparr>);
          default_entry = workspace_default_entry host_user dev_user
      in [step ChgrpStep (''chgrp '' @ int_str bridge_gid) [],
          step Chmod2770Step ''chmod 2770'' [],
          step SetfaclEffective (''setfacl -m '' @ perm_entry host_user ''rwx'') [''setfacl'', ''-m'', perm_entry host_user ''rwx'', ws],
          step SetfaclDefault (''setfacl -d -m '' @ default_entry) [''setfacl'', ''-d'', ''-m'', default_entry, ws]])"

definition workspace_needs_recursive_setup :: "acl_env \<Rightarrow> string \<Rightarrow> int \<Rightarrow> bool" where
  "workspace_needs_recursive_setup ae workspace bridge_gid =
     (case ae_stat ae workspace of
        None \<Rightarrow> True
      | Some (_, gid, mode) \<Rightarrow> \<not> (mode div 1024 mod 2 = 1 \<and> gid = bridge_gid))"

section \<open>Carrying plans out\<close>

text \<open>A \<open>SandboxExecutionError\<close> is the inner \<open>Inl\<close>; any other exception is the one of the effect.\<close>

definition program_complaint :: "proc \<Rightarrow> string" where
  "program_complaint p = (if p_err p = [] then ''exit '' @ int_str (p_rc p) else py_strip (p_err p))"

definition grant_execute :: "os_iface \<Rightarrow> named_acl_grant \<Rightarrow> (string + unit) host_effect" where
  "grant_execute os a = ebind (os_run os (ag_command a)) (\<lambda>p.
     eret (if p_rc p = 0 then Inr ()
       else Inl (''ACL grant failed for '' @ ag_description a @ '': '' @ program_complaint p)))"

definition revoke_execute :: "os_iface \<Rightarrow> named_acl_revoke \<Rightarrow> (string + unit) host_effect" where
  "revoke_execute os a =
     ecatch (ebind (os_run os (ar_command a)) (\<lambda>p.
         eret (if p_rc p = 0 then Inr ()
           else Inl (''ACL revoke warning for '' @ ar_description a @ '': '' @ program_complaint p))))
       (\<lambda>exc. eret (Inl (''ACL revoke OS error for '' @ ar_description a @ '': '' @ exc)))"

definition has_exec :: "int \<Rightarrow> int \<Rightarrow> int \<times> int \<times> nat \<Rightarrow> bool" where
  "has_exec target_uid target_gid st =
     (let (uid, gid, mode) = st in
      if uid = target_uid then mode div 64 mod 2 = 1
      else if gid = target_gid then mode div 8 mod 2 = 1
      else mode mod 2 = 1)"

fun first_blocked :: "acl_env \<Rightarrow> string \<Rightarrow> int \<Rightarrow> int \<Rightarrow> string list \<Rightarrow> string" where
  "first_blocked ae host_user uid gid [] = []"
| "first_blocked ae host_user uid gid (d # ds) =
     (case ae_stat ae d of
        None \<Rightarrow> ''Diagnosis: cannot stat '' @ sq d @ ''.'' @ [newline] @ ''Fix: verify directory exists and is accessible.''
      | Some st \<Rightarrow>
          if \<not> has_exec uid gid st then
            ''Diagnosis: sandbox user '' @ sq host_user @ '' lacks execute permission on '' @ d @ [newline] @
            ''Fix: setfacl -m '' @ perm_entry host_user ''--x'' @ '' '' @ d @ [newline] @
            ''Run '' @ sq ''sandbox doctor'' @ '' for full host readiness diagnostics.''
          else first_blocked ae host_user uid gid ds)"

definition diagnose_traverse_failure :: "host_env \<Rightarrow> acl_env \<Rightarrow> string \<Rightarrow> string \<Rightarrow> string option" where
  "diagnose_traverse_failure env ae instance_dir host_user =
     (case getpwnam env host_user of
        None \<Rightarrow> Some (''Diagnosis: user '' @ sq host_user @ '' does not exist on this host.'')
      | Some pw \<Rightarrow>
          map_option (\<lambda>components. first_blocked ae host_user (pw_uid pw) (pw_gid pw) (''/'' # components))
            (climb (\<lambda>_. False) (abspath (ae_cwd ae) instance_dir) []))"

datatype grant_outcome = Granted | GrantFailed string | NoReturn

fun run_grants :: "os_iface \<Rightarrow> string option \<Rightarrow> named_acl_grant list \<Rightarrow> grant_outcome host_effect" where
  "run_grants os diag [] = eret Granted"
| "run_grants os diag (a # plan) = ebind (grant_execute os a) (\<lambda>r.
     case r of
       Inr _ \<Rightarrow> run_grants os diag plan
     | Inl e \<Rightarrow> eret (case diag of None \<Rightarrow> NoReturn | Some d \<Rightarrow> GrantFailed (if d = [] then e else e @ newline # d)))"

definition phase_acl_grant ::
  "os_iface \<Rightarrow> acl_env \<Rightarrow> string \<Rightarrow> string \<Rightarrow> string list \<Rightarrow> string option \<Rightarrow> grant_outcome host_effect" where
  "phase_acl_grant os ae instance_dir host_user workspace_paths dev_user = ebind (eget w_env) (\<lambda>env.
     case acl_grant_plan ae instance_dir host_user workspace_paths dev_user of
       None \<Rightarrow> eret NoReturn
     | Some plan \<Rightarrow> run_grants os (diagnose_traverse_failure env ae instance_dir host_user) plan)"

fun revoke_acls :: "os_iface \<Rightarrow> named_acl_revoke list \<Rightarrow> string list host_effect" where
  "revoke_acls os [] = eret []"
| "revoke_acls os (a # plan) = ebind (revoke_execute os a) (\<lambda>r. ebind (revoke_acls os plan) (\<lambda>warnings.
     eret ((case r of Inl e \<Rightarrow> [e] | Inr _ \<Rightarrow> []) @ warnings)))"

section \<open>Lemmas\<close>

lemma rel_parts:
  "path_parts ''docker/'' = [''docker'']" "path_parts ''docker/core'' = [''docker'', ''core'']" "path_parts ''config/'' = [''config'']"
  "path_parts ''config/coredns'' = [''config'', ''coredns'']" "path_parts ''config/dnsdist'' = [''config'', ''dnsdist'']"
  "path_parts ''config/proxy'' = [''config'', ''proxy'']" "path_parts ''config/core'' = [''config'', ''core'']"
  "path_parts ''.sandbox.env'' = [''.sandbox.env'']" "path_parts ''secrets/'' = [''secrets'']" "path_parts ''secrets'' = [''secrets'']"
  "path_parts ''cache/core'' = [''cache'', ''core'']" "path_parts ''log'' = [''log'']"
  by code_simp+

lemma grant_simps [simp]:
  "ag_target (grant dflt recursive entry path label) = path_parts path" "ag_default (grant dflt recursive entry path label) = dflt"
  "ag_recursive (grant dflt recursive entry path label) = recursive" "ag_entry (grant dflt recursive entry path label) = entry"
  "ar_target (revoke dflt entry path label) = path_parts path" "ar_default (revoke dflt entry path label) = dflt"
  by (simp_all add: grant_def revoke_def)

text \<open>The named entries a plan touches: target and whether it is the default list.\<close>

definition grant_keys :: "named_acl_grant list \<Rightarrow> (string list \<times> bool) set" where
  "grant_keys plan = (\<lambda>a. (ag_target a, ag_default a)) ` set plan"

definition revoke_keys :: "named_acl_revoke list \<Rightarrow> (string list \<times> bool) set" where
  "revoke_keys plan = (\<lambda>a. (ar_target a, ar_default a)) ` set plan"

definition workspace_ancestor_set :: "acl_env \<Rightarrow> string list \<Rightarrow> string set" where
  "workspace_ancestor_set ae wss = {d. \<exists>w \<in> set wss. \<exists>ds. compute_workspace_ancestors ae w = Some ds \<and> d \<in> set ds}"

text \<open>What stays after a stop: traversal, the environment file, and the directories the helpers write to.\<close>

definition PERSISTENT_PARTS :: "(string list \<times> bool) list" where
  "PERSISTENT_PARTS =
     [([''docker'', ''core''], False), ([''.sandbox.env''], False),
      ([''config'', ''coredns''], False), ([''config'', ''dnsdist''], False), ([''config'', ''proxy''], False), ([''config'', ''core''], False),
      ([''config'', ''coredns''], True), ([''config'', ''dnsdist''], True), ([''config'', ''proxy''], True), ([''config'', ''core''], True),
      ([''cache'', ''core''], False), ([''cache'', ''core''], True), ([''log''], False), ([''log''], True)]"

definition persistent_entries :: "acl_env \<Rightarrow> string \<Rightarrow> string list \<Rightarrow> string list \<Rightarrow> (string list \<times> bool) set" where
  "persistent_entries ae instance_dir ancestors workspace_paths =
     (\<lambda>d. (path_parts d, False)) ` (set ancestors \<union> workspace_ancestor_set ae workspace_paths) \<union>
     (\<lambda>(sub, dflt). (path_parts instance_dir @ sub, dflt)) ` set PERSISTENT_PARTS"

definition REVOKED_PARTS :: "(string list \<times> bool) list" where
  "REVOKED_PARTS = [([], False), ([''docker''], False), ([''config''], False), ([''secrets''], False), ([''secrets''], True)]"

definition GRANTED_PARTS :: "(string list \<times> bool) list" where
  "GRANTED_PARTS =
     [([], False), ([''docker''], False), ([''docker'', ''core''], False), ([''config''], False),
      ([''config'', ''coredns''], False), ([''config'', ''dnsdist''], False), ([''config'', ''proxy''], False), ([''config'', ''core''], False),
      ([''.sandbox.env''], False), ([''secrets''], False), ([''secrets''], True),
      ([''config'', ''coredns''], True), ([''config'', ''dnsdist''], True), ([''config'', ''proxy''], True), ([''config'', ''core''], True),
      ([''secrets''], True), ([''cache'', ''core''], False), ([''cache'', ''core''], True), ([''log''], False), ([''log''], True)]"

lemma granted_parts: "set GRANTED_PARTS = set REVOKED_PARTS \<union> set PERSISTENT_PARTS"
  by code_simp

lemma instance_grants_parts:
  "map (\<lambda>a. (ag_target a, ag_default a)) (instance_grants instance_dir host_user) =
     map (\<lambda>(sub, dflt). (path_parts instance_dir @ sub, dflt)) GRANTED_PARTS"
  by (simp add: instance_grants_def Let_def CONFIG_SUBDIRS_def GRANTED_PARTS_def path_parts_join rel_parts)

lemma revoke_plan_parts:
  "revoke_keys (acl_revoke_plan instance_dir host_user wss) =
     (\<lambda>(sub, dflt). (path_parts instance_dir @ sub, dflt)) ` set REVOKED_PARTS \<union>
     (\<lambda>w. (path_parts w, False)) ` set wss \<union> (\<lambda>w. (path_parts w, True)) ` set wss"
proof -
  have "(\<lambda>a. (ar_target a, ar_default a)) ` set (concat (map (\<lambda>ws. [revoke False e ws l, revoke True e ws l']) wss)) =
      (\<lambda>w. (path_parts w, False)) ` set wss \<union> (\<lambda>w. (path_parts w, True)) ` set wss" for e l l'
    by (induction wss) auto
  then show ?thesis
    by (simp add: revoke_keys_def acl_revoke_plan_def Let_def REVOKED_PARTS_def path_parts_join rel_parts image_Un)
qed

lemma fresh_ancestors_sets:
  "fresh_ancestors seen ds = (fresh, seen') \<Longrightarrow> set fresh = set ds - set seen \<and> set seen' = set seen \<union> set ds"
proof (induction ds arbitrary: seen fresh seen')
  case (Cons d ds)
  show ?case
  proof (cases "d \<in> set seen")
    case True
    then show ?thesis using Cons by auto
  next
    case False
    obtain f s where f: "fresh_ancestors (d # seen) ds = (f, s)" by fastforce
    with False Cons.prems have "fresh = d # f" "seen' = s" by auto
    with Cons.IH [OF f] False show ?thesis by auto
  qed
qed simp

lemma workspace_grants_keys:
  assumes "workspace_grants ae host_user dev_user seen wss = Some gs"
  shows "grant_keys gs \<union> (\<lambda>d. (path_parts d, False)) ` set seen =
    (\<lambda>d. (path_parts d, False)) ` (set seen \<union> workspace_ancestor_set ae wss) \<union>
    (\<lambda>w. (path_parts w, False)) ` set wss \<union> (\<lambda>w. (path_parts w, True)) ` set wss"
  using assms
proof (induction wss arbitrary: seen gs)
  case (Cons w wss)
  from Cons.prems obtain ds where ds: "compute_workspace_ancestors ae w = Some ds" by (auto simp: Option.bind_eq_Some_conv)
  obtain fresh seen' where fr: "fresh_ancestors seen ds = (fresh, seen')" by fastforce
  from Cons.prems ds fr obtain rest where rest: "workspace_grants ae host_user dev_user seen' wss = Some rest"
    and gs: "gs = map (\<lambda>d. grant False False (perm_entry host_user ''--x'') d ''workspace ancestor traverse'') fresh @
        [grant False False (perm_entry host_user ''rwx'') w ''workspace named-ACL'',
         grant True False (workspace_default_entry host_user dev_user) w ''workspace default ACL''] @ rest"
    by (auto simp: Option.bind_eq_Some_conv)
  have anc: "workspace_ancestor_set ae (w # wss) = set ds \<union> workspace_ancestor_set ae wss"
    using ds by (auto simp: workspace_ancestor_set_def)
  have keys: "grant_keys gs = (\<lambda>d. (path_parts d, False)) ` set fresh \<union> {(path_parts w, False), (path_parts w, True)} \<union> grant_keys rest"
    unfolding gs grant_keys_def by (simp add: image_Un image_image)
  have "set fresh \<union> set seen = set seen'" and seen': "set seen' = set seen \<union> set ds"
    using fresh_ancestors_sets [OF fr] by auto
  then have "grant_keys gs \<union> (\<lambda>d. (path_parts d, False)) ` set seen =
      {(path_parts w, False), (path_parts w, True)} \<union> (grant_keys rest \<union> (\<lambda>d. (path_parts d, False)) ` set seen')"
    unfolding keys by (metis (no_types, lifting) Un_assoc Un_commute image_Un)
  also have "\<dots> = {(path_parts w, False), (path_parts w, True)} \<union>
      ((\<lambda>d. (path_parts d, False)) ` (set seen \<union> (set ds \<union> workspace_ancestor_set ae wss)) \<union>
       (\<lambda>w. (path_parts w, False)) ` set wss \<union> (\<lambda>w. (path_parts w, True)) ` set wss)"
    using Cons.IH [OF rest] by (simp only: seen' Un_assoc)
  finally show ?case unfolding anc by (simp add: Un_commute Un_left_commute)
qed (auto simp: grant_keys_def workspace_ancestor_set_def)

section \<open>Properties\<close>


definition acl_sample :: acl_env where
  "acl_sample = \<lparr>ae_cwd = ''/'', ae_uid = 1000,
     ae_stat = (\<lambda>d. if d = ''/home'' then Some (0, 0, 493) else Some (1000, 1000, 448))\<rparr>"

lemma acl_sample_plan:
  "compute_ancestors acl_sample ''/home/u/i'' = Some [''/home/u'']"
  "compute_workspace_ancestors acl_sample ''/home/u/w/main'' = Some [''/home/u'', ''/home/u/w'']"
  by code_simp+


text \<open>The entry a path ends up with: a later \<open>setfacl -m\<close> replaces an earlier one, and a recursive one reaches below.\<close>

definition covers :: "named_acl_grant \<Rightarrow> string list \<Rightarrow> bool" where
  "covers a p = (ag_target a = p \<or> ag_recursive a \<and> prefix (ag_target a) p)"

definition effective_entry :: "named_acl_grant list \<Rightarrow> string list \<Rightarrow> string option" where
  "effective_entry plan p =
     (case rev (filter (\<lambda>a. \<not> ag_default a \<and> covers a p) plan) of [] \<Rightarrow> None | a # _ \<Rightarrow> Some (ag_entry a))"

lemma effective_entry_append:
  "effective_entry (xs @ ys) p = (case effective_entry ys p of None \<Rightarrow> effective_entry xs p | Some e \<Rightarrow> Some e)"
  by (simp add: effective_entry_def split: list.split)

lemma workspace_grants_targets:
  assumes "workspace_grants ae host_user dev_user seen wss = Some gs" "a \<in> set gs"
  shows "\<not> ag_recursive a \<and> ag_target a \<in> path_parts ` (set wss \<union> workspace_ancestor_set ae wss)"
  using assms
proof (induction wss arbitrary: seen gs)
  case (Cons w wss)
  from Cons.prems(1) obtain ds where ds: "compute_workspace_ancestors ae w = Some ds" by (auto simp: Option.bind_eq_Some_conv)
  obtain fresh seen' where fr: "fresh_ancestors seen ds = (fresh, seen')" by fastforce
  have anc: "workspace_ancestor_set ae (w # wss) = set ds \<union> workspace_ancestor_set ae wss"
    using ds by (auto simp: workspace_ancestor_set_def)
  from Cons.prems ds fr obtain rest where rest: "workspace_grants ae host_user dev_user seen' wss = Some rest"
    and a: "a \<in> (\<lambda>d. grant False False (perm_entry host_user ''--x'') d ''workspace ancestor traverse'') ` set fresh \<or>
      a = grant False False (perm_entry host_user ''rwx'') w ''workspace named-ACL'' \<or>
      a = grant True False (workspace_default_entry host_user dev_user) w ''workspace default ACL'' \<or> a \<in> set rest"
    by (auto simp: Option.bind_eq_Some_conv)
  have "set fresh \<subseteq> set ds" using fresh_ancestors_sets [OF fr] by auto
  then show ?case using a Cons.IH [OF rest] unfolding anc by auto
qed auto

lemma effective_entry_none: "(\<And>a. a \<in> set plan \<Longrightarrow> \<not> covers a p) \<Longrightarrow> effective_entry plan p = None"
  by (simp add: effective_entry_def filter_False)

text \<open>The effective entries of the instance, relative to it: parts, whether recursive, permissions.\<close>

definition EFFECTIVE_ROWS :: "(string list \<times> bool \<times> string) list" where
  "EFFECTIVE_ROWS =
     [([], False, ''r-x''), ([''docker''], True, ''rX''), ([''docker'', ''core''], False, ''rwx''), ([''config''], True, ''rX''),
      ([''config'', ''coredns''], False, ''rwx''), ([''config'', ''dnsdist''], False, ''rwx''), ([''config'', ''proxy''], False, ''rwx''),
      ([''config'', ''core''], False, ''rwx''), ([''.sandbox.env''], False, ''r''), ([''secrets''], False, ''rwx''),
      ([''cache'', ''core''], False, ''rwx''), ([''log''], False, ''rwx'')]"

definition HELPER_PARENTS :: "string list" where
  "HELPER_PARENTS = map fst FILE_RECIPES @ map fst CACHE_LOG_LEAVES_BY_PARENT"

lemma effective_rows:
  "map (\<lambda>a. (ag_target a, ag_recursive a, ag_entry a)) (filter (\<lambda>a. \<not> ag_default a) (instance_grants instance_dir host_user)) =
     map (\<lambda>(sub, r, perms). (path_parts instance_dir @ sub, r, perm_entry host_user perms)) EFFECTIVE_ROWS"
  by (simp add: instance_grants_def Let_def CONFIG_SUBDIRS_def EFFECTIVE_ROWS_def path_parts_join rel_parts)

lemma effective_entry_rows:
  "effective_entry plan p =
     (case rev (filter (\<lambda>(t, r, _). t = p \<or> r \<and> prefix t p)
        (map (\<lambda>a. (ag_target a, ag_recursive a, ag_entry a)) (filter (\<lambda>a. \<not> ag_default a) plan))) of
        [] \<Rightarrow> None | (_, _, e) # _ \<Rightarrow> Some e)"
proof -
  have "filter (\<lambda>(t, r, _). t = p \<or> r \<and> prefix t p)
      (map (\<lambda>a. (ag_target a, ag_recursive a, ag_entry a)) (filter (\<lambda>a. \<not> ag_default a) plan)) =
    map (\<lambda>a. (ag_target a, ag_recursive a, ag_entry a)) (filter (\<lambda>a. \<not> ag_default a \<and> covers a p) plan)"
    by (simp add: filter_map comp_def covers_def conj_commute)
  then show ?thesis by (auto simp: effective_entry_def rev_map split: list.split)
qed

lemma helper_parents_last:
  "list_all (\<lambda>rel. \<not> prefix ''/'' rel \<and>
     (case rev (filter (\<lambda>(t, r, _). t = path_parts rel \<or> r \<and> prefix t (path_parts rel)) EFFECTIVE_ROWS) of
        [] \<Rightarrow> False | (_, _, perms) # _ \<Rightarrow> perms = ''rwx'')) HELPER_PARENTS"
  by code_simp

lemma instance_effective:
  assumes "rel \<in> set HELPER_PARENTS"
  shows "effective_entry (instance_grants instance_dir host_user) (path_parts (path_join instance_dir rel)) =
    Some (perm_entry host_user ''rwx'')" and "prefix (path_parts instance_dir) (path_parts (path_join instance_dir rel))"
proof -
  have rel: "\<not> prefix ''/'' rel" "case rev (filter (\<lambda>(t, r, _). t = path_parts rel \<or> r \<and> prefix t (path_parts rel)) EFFECTIVE_ROWS) of
        [] \<Rightarrow> False | (_, _, perms) # _ \<Rightarrow> perms = ''rwx''"
    using helper_parents_last assms by (auto simp: list_all_iff)
  have "filter (\<lambda>(t, r, _). t = path_parts instance_dir @ q \<or> r \<and> prefix t (path_parts instance_dir @ q))
      (map (\<lambda>(sub, r, perms). (path_parts instance_dir @ sub, r, perm_entry host_user perms)) rows) =
    map (\<lambda>(sub, r, perms). (path_parts instance_dir @ sub, r, perm_entry host_user perms))
      (filter (\<lambda>(t, r, _). t = q \<or> r \<and> prefix t q) rows)" for q and rows :: "(string list \<times> bool \<times> string) list"
    by (induction rows) auto
  then show "effective_entry (instance_grants instance_dir host_user) (path_parts (path_join instance_dir rel)) =
    Some (perm_entry host_user ''rwx'')"
    using rel(2) unfolding effective_entry_rows effective_rows path_parts_join [OF rel(1)]
    by (auto simp flip: rev_map split: list.splits)
  show "prefix (path_parts instance_dir) (path_parts (path_join instance_dir rel))"
    by (simp add: path_parts_join [OF rel(1)])
qed

lemma cp_chown_parents:
  "cp_chown_actions env instance_dir host_user recipes = Inr acts \<Longrightarrow>
     map hc_parent acts = map (\<lambda>r. path_parts (path_join instance_dir (fst r))) recipes"
proof (induction env instance_dir host_user recipes arbitrary: acts rule: cp_chown_actions.induct)
  case (2 env instance_dir host_user parent files consumer_uid mode rest)
  then show ?case by (auto simp: bindE_Inr_iff)
qed simp

text \<open>Claim C15: the helpers can write where they work. After the grants have been made in the order of the plan, every
  directory into which a helper recipe copies files or creates directories carries a read-write entry for the daemon's
  account: no later entry, recursive or not, takes it away. The workspaces are assumed to lie outside the instance.\<close>

theorem helper_parents_writable:
  assumes plan: "acl_grant_plan ae instance_dir host_user workspace_paths dev_user = Some plan"
    and outside: "\<forall>d \<in> set workspace_paths \<union> workspace_ancestor_set ae workspace_paths. \<not> prefix (path_parts instance_dir) (path_parts d)"
    and parent: "rel \<in> fst ` set (RO_FILE_RECIPES @ EXEC_FILE_RECIPES @ RW_FILE_RECIPES) \<union> fst ` set CACHE_LOG_LEAVES_BY_PARENT"
  shows "effective_entry plan (path_parts (path_join instance_dir rel)) = Some (perm_entry host_user ''rwx'')"
proof -
  have "rel \<in> set HELPER_PARENTS" using parent unfolding HELPER_PARENTS_def FILE_RECIPES_def by (simp add: image_Un)
  note inst = instance_effective [OF this, of instance_dir]
  obtain ancestors gs where gs: "workspace_grants ae host_user dev_user [] workspace_paths = Some gs"
    and eq: "plan = map (\<lambda>d. grant False False (perm_entry host_user ''--x'') d ''ancestor traverse'') ancestors @
       instance_grants instance_dir host_user @ gs"
    using plan by (auto simp: acl_grant_plan_def Option.bind_eq_Some_conv)
  have "\<not> covers a (path_parts (path_join instance_dir rel))" if "a \<in> set gs" for a
    using workspace_grants_targets [OF gs that] outside inst(2) by (auto simp: covers_def)
  then have "effective_entry gs (path_parts (path_join instance_dir rel)) = None" by (rule effective_entry_none)
  then show ?thesis using inst(1) unfolding eq effective_entry_append by simp
qed

theorem helper_parents_writable_witness:
  "\<exists>plan. acl_grant_plan acl_sample ''/home/u/i'' ''sb'' [''/home/u/w/main''] None = Some plan \<and>
     effective_entry plan (path_parts (path_join ''/home/u/i'' ''docker/core'')) = Some ''u:sb:rwx''"
proof -
  have "acl_grant_plan acl_sample ''/home/u/i'' ''sb'' [''/home/u/w/main''] None \<noteq> None" by code_simp
  then obtain plan where plan: "acl_grant_plan acl_sample ''/home/u/i'' ''sb'' [''/home/u/w/main''] None = Some plan" by auto
  have "list_all (\<lambda>d. \<not> prefix (path_parts ''/home/u/i'') (path_parts d)) [''/home/u/w/main'', ''/home/u'', ''/home/u/w'']"
    by code_simp
  then have "\<forall>d \<in> set [''/home/u/w/main''] \<union> workspace_ancestor_set acl_sample [''/home/u/w/main''].
      \<not> prefix (path_parts ''/home/u/i'') (path_parts d)"
    by (auto simp: workspace_ancestor_set_def acl_sample_plan)
  moreover have "''docker/core'' \<in> fst ` set (RO_FILE_RECIPES @ EXEC_FILE_RECIPES @ RW_FILE_RECIPES) \<union> fst ` set CACHE_LOG_LEAVES_BY_PARENT"
    by (simp add: EXEC_FILE_RECIPES_def)
  ultimately have "effective_entry plan (path_parts (path_join ''/home/u/i'' ''docker/core'')) = Some (perm_entry ''sb'' ''rwx'')"
    by (rule helper_parents_writable [OF plan])
  with plan show ?thesis by (auto simp: perm_entry_def)
qed

end
