(* ===== verification/Walker.thy ===== *)
theory Walker
  imports Py_Path
begin

text \<open>
  The ancestor walker of \<open>src/src/core/walker.py\<close>: the directories between a workspace and the first boundary path,
  which get a traverse grant. The walk is a loop with a bound of its own (\<open>MAX_DEPTH\<close>), so it ends on every file system.
  Paths are absolute and normalised once resolved: there \<open>Path.parent\<close> is \<open>os.path.dirname\<close>.
\<close>

section \<open>Model\<close>

text \<open>What the walk reads of the host: the working directory and the home directory of the process, \<open>os.path.realpath\<close>,
  and \<open>os.lstat\<close>, which raises or says whether the path is a symbolic link.\<close>

record walk_env =
  wk_cwd :: string
  wk_home :: string
  wk_realpath :: "string \<Rightarrow> string"
  wk_lstat :: "string \<Rightarrow> string + bool"

datatype walk_error =
    SymlinkInChainError string
  | BoundaryPathError string
  | DepthExceededError string
  | WalkOSError string

definition MAX_DEPTH :: nat where
  "MAX_DEPTH = 64"

definition BOUNDARY_PATHS :: "walk_env \<Rightarrow> string list" where
  "BOUNDARY_PATHS env =
     [''/'', ''/etc'', ''/usr'', ''/var'', ''/tmp'', ''/proc'', ''/sys'', ''/dev'', ''/boot'', ''/run'', ''/home'', ''/root'', wk_home env]"

definition is_boundary :: "walk_env \<Rightarrow> string \<Rightarrow> bool" where
  "is_boundary env p = (p \<in> set (BOUNDARY_PATHS env))"

text \<open>The loop: \<open>ancestors\<close> holds what was collected before \<open>current\<close>.\<close>

function walk_from :: "walk_env \<Rightarrow> string \<Rightarrow> string list \<Rightarrow> string \<Rightarrow> walk_error + string list" where
  "walk_from env target_path ancestors current =
     (case wk_lstat env current of
        Inl exc \<Rightarrow> Inl (WalkOSError exc)
      | Inr is_link \<Rightarrow>
          if is_link then Inl (SymlinkInChainError (''symlink detected at '' @ current @ '' during walk''))
          else let ancestors' = ancestors @ [current]; parent = dirname current
               in if length ancestors' > MAX_DEPTH
                  then Inl (DepthExceededError
                    (''ancestor chain of '' @ py_repr target_path @ '' exceeds MAX_DEPTH='' @ nat_str MAX_DEPTH))
                  else if parent = current \<or> is_boundary env parent then Inr ancestors'
                  else walk_from env target_path ancestors' parent)"
  by pat_completeness auto
termination
  by (relation "measure (\<lambda>(env, t, ancestors, current). MAX_DEPTH - length ancestors)") auto

declare walk_from.simps [simp del]

definition walk_ancestors :: "walk_env \<Rightarrow> string \<Rightarrow> walk_error + string list" where
  "walk_ancestors env target_path =
     (let abs_path = abspath (wk_cwd env) target_path;
          resolved = wk_realpath env target_path
      in if resolved \<noteq> abs_path
         then Inl (SymlinkInChainError
           (''symlink detected resolving '' @ py_repr target_path @ '': '' @ py_repr resolved @ '' != '' @ py_repr abs_path))
         else if is_boundary env resolved
         then Inl (BoundaryPathError
           (''target '' @ py_repr target_path @ '' resolves to boundary path '' @ py_repr resolved))
         else walk_from env target_path [] resolved)"

section \<open>The chain as a specification\<close>

text \<open>The target and its ancestors, nearest first, up to the first boundary path.\<close>

definition ancestor_chain :: "string list \<Rightarrow> string list" where
  "ancestor_chain ps = map (\<lambda>n. parts_str (take n ps)) (rev [0..<Suc (length ps)])"

definition inner_chain :: "walk_env \<Rightarrow> string list \<Rightarrow> string list" where
  "inner_chain env ps = takeWhile (\<lambda>d. \<not> is_boundary env d) (ancestor_chain ps)"

lemma ancestor_chain_Nil: "ancestor_chain [] = [''/'']"
  by (simp add: ancestor_chain_def parts_str_def)

lemma ancestor_chain_snoc: "ancestor_chain (ps @ [p]) = parts_str (ps @ [p]) # ancestor_chain ps"
  by (auto simp: ancestor_chain_def rev_map)

lemma root_boundary [simp]: "is_boundary env ''/''"
  by (simp add: is_boundary_def BOUNDARY_PATHS_def)

lemma inner_chain_Nil [simp]: "inner_chain env [] = []"
  by (simp add: inner_chain_def ancestor_chain_Nil)

lemma inner_chain_snoc:
  "inner_chain env (ps @ [p]) =
     (if is_boundary env (parts_str (ps @ [p])) then [] else parts_str (ps @ [p]) # inner_chain env ps)"
  by (simp add: inner_chain_def ancestor_chain_snoc)

lemma inner_chain_empty: "inner_chain env ps = [] \<longleftrightarrow> is_boundary env (parts_str ps)"
  by (cases ps rule: rev_cases) (simp_all add: inner_chain_snoc, simp add: parts_str_def)

text \<open>The loop collects the chain unless an entry is unreadable, a link, or too deep.\<close>

lemma walk_from_Inr_iff:
  assumes "clean_parts ps" and "\<not> is_boundary env (parts_str ps)"
  shows "walk_from env t acc (parts_str ps) = Inr chain \<longleftrightarrow>
    chain = acc @ inner_chain env ps \<and> length chain \<le> MAX_DEPTH \<and>
    (\<forall>d \<in> set (inner_chain env ps). wk_lstat env d = Inr False)"
  using assms
proof (induction ps arbitrary: acc rule: rev_induct)
  case Nil
  then show ?case by (simp add: parts_str_def)
next
  case (snoc p ps)
  have ps: "clean_parts ps" using snoc.prems(1) by (simp add: clean_parts_def)
  have up: "dirname (parts_str (ps @ [p])) = parts_str ps" by (rule dirname_parts [OF snoc.prems(1)])
  have neq: "parts_str ps \<noteq> parts_str (ps @ [p])"
    using snoc.prems(1) by (auto simp: parts_str_snoc clean_parts_def dest: arg_cong [where f = length])
      (simp add: parts_str_def)
  show ?case
  proof (cases "is_boundary env (parts_str ps)")
    case True
    then have "inner_chain env ps = []" by (simp add: inner_chain_empty)
    with True snoc.prems(2) up show ?thesis
      by (subst walk_from.simps) (auto simp: inner_chain_snoc Let_def split: sum.split)
  next
    case False
    note IH = snoc.IH [OF ps False, of "acc @ [parts_str (ps @ [p])]"]
    show ?thesis
      using snoc.prems(2) up neq False IH
      by (subst walk_from.simps) (auto simp: inner_chain_snoc Let_def split: sum.split)
  qed
qed

section \<open>Properties\<close>

text \<open>Claim C24: the walk returns exactly the chain of directories from the target up to the first boundary path. For a target
  that names a clean absolute path it returns a list if and only if no link was resolved on the way, the target is no
  boundary path, the chain has at most \<open>MAX_DEPTH\<close> entries and every entry can be inspected and is no link; the list is
  then the target and its ancestors below the first boundary path, nearest first, and holds no boundary path.\<close>

theorem walk_ancestors_chain:
  assumes "abspath (wk_cwd env) t = parts_str ps" and "clean_parts ps"
  shows "(walk_ancestors env t = Inr chain \<longleftrightarrow>
      wk_realpath env t = parts_str ps \<and> \<not> is_boundary env (parts_str ps) \<and>
      chain = inner_chain env ps \<and> length chain \<le> MAX_DEPTH \<and>
      (\<forall>d \<in> set chain. wk_lstat env d = Inr False)) \<and>
    (walk_ancestors env t = Inr chain \<longrightarrow> (\<forall>d \<in> set chain. \<not> is_boundary env d))"
proof -
  have "walk_ancestors env t = Inr chain \<longleftrightarrow>
      wk_realpath env t = parts_str ps \<and> \<not> is_boundary env (parts_str ps) \<and>
      chain = inner_chain env ps \<and> length chain \<le> MAX_DEPTH \<and> (\<forall>d \<in> set chain. wk_lstat env d = Inr False)"
    using walk_from_Inr_iff [OF assms(2), of env t "[]" chain] by (auto simp: walk_ancestors_def assms(1) Let_def)
  then show ?thesis by (auto simp: inner_chain_def dest: set_takeWhileD)
qed

definition walk_sample :: walk_env where
  "walk_sample = \<lparr>wk_cwd = ''/home/dev'', wk_home = ''/home/dev'', wk_realpath = (\<lambda>p. path_join ''/home/dev'' p),
     wk_lstat = (\<lambda>_. Inr False)\<rparr>"

theorem walk_ancestors_chain_witness:
  "walk_ancestors walk_sample ''a/b'' = Inr [''/home/dev/a/b'', ''/home/dev/a'']"
proof -
  have a: "abspath (wk_cwd walk_sample) ''a/b'' = parts_str [''home'', ''dev'', ''a'', ''b'']" by code_simp
  have c: "clean_parts [''home'', ''dev'', ''a'', ''b'']" by code_simp
  have chain: "inner_chain walk_sample [''home'', ''dev'', ''a'', ''b''] = [''/home/dev/a/b'', ''/home/dev/a'']" by code_simp
  have "wk_realpath walk_sample ''a/b'' = parts_str [''home'', ''dev'', ''a'', ''b'']" by code_simp
  moreover have "\<not> is_boundary walk_sample (parts_str [''home'', ''dev'', ''a'', ''b''])" by code_simp
  ultimately show ?thesis
    using walk_ancestors_chain [OF a c, of "[''/home/dev/a/b'', ''/home/dev/a'']"]
    by (simp add: chain MAX_DEPTH_def) (simp add: walk_sample_def)
qed


end
