(* ===== verification/File_Tree.thy ===== *)
theory File_Tree
  imports Py_Dict Py_Path
begin

text \<open>
  A file system as a tree, for the code that copies, moves and removes whole trees: files with their content, symbolic
  links with their target, directories with their entries, each with its group. A directory lists its entries in the
  order of the file system. Lookups follow the names of a path; a link is a leaf, which carries whether its
  target is a directory, as \<open>os.walk\<close> asks.
\<close>

section \<open>Trees\<close>

datatype node =
    NFile int string
  | NLink int string bool
  | NDir int "(string \<times> node) list"

fun is_real_dir :: "node \<Rightarrow> bool" where
  "is_real_dir (NDir g es) = True"
| "is_real_dir n = False"

text \<open>The entries that \<open>os.walk\<close> lists as directories: links to directories are among them.\<close>

fun walks_as_dir :: "node \<Rightarrow> bool" where
  "walks_as_dir (NDir g es) = True"
| "walks_as_dir (NLink g t to_dir) = to_dir"
| "walks_as_dir (NFile g c) = False"

fun node_at :: "node \<Rightarrow> string list \<Rightarrow> node option" where
  "node_at n [] = Some n"
| "node_at (NDir g es) (p # ps) = (case map_of es p of None \<Rightarrow> None | Some m \<Rightarrow> node_at m ps)"
| "node_at n (p # ps) = None"

definition dir_at :: "node \<Rightarrow> string list \<Rightarrow> bool" where
  "dir_at n ps = (case node_at n ps of Some m \<Rightarrow> is_real_dir m | None \<Rightarrow> False)"

text \<open>Put or remove the entry at a path whose parent is a directory.\<close>

fun set_at :: "string list \<Rightarrow> node option \<Rightarrow> node \<Rightarrow> node" where
  "set_at [] c n = (case c of Some m \<Rightarrow> m | None \<Rightarrow> n)"
| "set_at [p] c (NDir g es) = NDir g (case c of Some m \<Rightarrow> dict_set p m es | None \<Rightarrow> dict_pop p es)"
| "set_at (p # q # ps) c (NDir g es) =
     (case map_of es p of Some m \<Rightarrow> NDir g (dict_set p (set_at (q # ps) c m) es) | None \<Rightarrow> NDir g es)"
| "set_at (p # ps) c n = n"

text \<open>\<open>os.makedirs(path, exist_ok=True)\<close>: new directories get the group of the process. \<open>None\<close>: something on the way is
  no directory.\<close>

fun make_dirs :: "int \<Rightarrow> string list \<Rightarrow> node \<Rightarrow> node option" where
  "make_dirs grp [] n = (if is_real_dir n then Some n else None)"
| "make_dirs grp (p # ps) (NDir g es) =
     map_option (\<lambda>m. NDir g (dict_set p m es))
       (make_dirs grp ps (case map_of es p of Some m \<Rightarrow> m | None \<Rightarrow> NDir grp []))"
| "make_dirs grp (p # ps) n = None"

text \<open>\<open>os.rename\<close>: a directory replaces nothing or an empty directory.\<close>

definition rename_dir :: "string list \<Rightarrow> string list \<Rightarrow> node \<Rightarrow> node option" where
  "rename_dir src dst fs =
     (case node_at fs src of
        Some (NDir g es) \<Rightarrow>
          (case node_at fs dst of
             None \<Rightarrow> if dir_at fs (butlast dst) then Some (set_at dst (Some (NDir g es)) (set_at src None fs)) else None
           | Some (NDir g' []) \<Rightarrow> Some (set_at dst (Some (NDir g es)) (set_at src None fs))
           | _ \<Rightarrow> None)
      | _ \<Rightarrow> None)"

text \<open>Writing a new file, or over an old one; a directory of that name is an error.\<close>

definition write_at :: "int \<Rightarrow> string list \<Rightarrow> string \<Rightarrow> node \<Rightarrow> node option" where
  "write_at grp path body fs =
     (if \<not> dir_at fs (butlast path) then None
      else case node_at fs path of
             None \<Rightarrow> Some (set_at path (Some (NFile grp body)) fs)
           | Some (NFile g _) \<Rightarrow> Some (set_at path (Some (NFile g body)) fs)
           | _ \<Rightarrow> None)"

section \<open>Lemmas\<close>

lemma is_real_dirE: "is_real_dir n \<Longrightarrow> (\<And>g es. n = NDir g es \<Longrightarrow> P) \<Longrightarrow> P"
  by (cases n) auto

lemma dir_at_simps [simp]:
  "dir_at n [] = is_real_dir n"
  "dir_at (NDir g es) (p # ps) = (case map_of es p of None \<Rightarrow> False | Some m \<Rightarrow> dir_at m ps)"
  "dir_at (NFile g c) (p # ps) = False"
  "dir_at (NLink g t d) (p # ps) = False"
  by (simp_all add: dir_at_def split: option.split)

lemma dir_atE: "dir_at n ps \<Longrightarrow> (\<And>g es. node_at n ps = Some (NDir g es) \<Longrightarrow> P) \<Longrightarrow> P"
  by (auto simp: dir_at_def split: option.splits elim: is_real_dirE)

lemma node_at_append: "node_at n (a @ b) = (case node_at n a of None \<Rightarrow> None | Some m \<Rightarrow> node_at m b)"
  by (induction n a rule: node_at.induct) (auto split: option.splits)

lemma node_at_snoc:
  "node_at n (ps @ [p]) = (case node_at n ps of Some (NDir g es) \<Rightarrow> map_of es p | _ \<Rightarrow> None)"
  by (auto simp: node_at_append split: option.splits node.splits)

lemma dir_at_prefix: "dir_at n (ps @ qs) \<Longrightarrow> dir_at n ps"
  by (cases qs) (auto simp: dir_at_def node_at_append split: option.splits elim: node_at.elims)

lemma node_at_set_same:
  "dir_at n ps \<Longrightarrow> node_at (set_at (ps @ [p]) c n) (ps @ [p] @ qs) = (case c of None \<Rightarrow> None | Some m \<Rightarrow> node_at m qs)"
proof (induction ps arbitrary: n)
  case Nil
  then show ?case
    by (cases n) (auto simp: dir_at_def map_of_dict_set map_of_dict_pop split: option.splits)
next
  case (Cons a ps)
  then obtain g es m where "n = NDir g es" "map_of es a = Some m" "dir_at m ps"
    by (cases n) (auto simp: dir_at_def split: option.splits)
  with Cons.IH [of m] show ?case by (cases ps) (simp_all add: map_of_dict_set)
qed

text \<open>Paths that do not run through the changed entry see the old tree.\<close>

lemma node_at_set_other:
  "\<not> prefix ps qs \<Longrightarrow> \<not> prefix qs ps \<Longrightarrow> node_at (set_at ps c n) qs = node_at n qs"
proof (induction ps c n arbitrary: qs rule: set_at.induct)
  case (2 p c g es)
  then show ?case by (cases qs) (auto simp: map_of_dict_set map_of_dict_pop split: option.splits)
next
  case (3 p q ps c g es)
  then show ?case by (cases qs) (auto simp: map_of_dict_set split: option.splits)
qed auto

text \<open>A directory on the way stays one; below it only the changed name differs.\<close>

lemma dir_at_set_above:
  "strict_prefix qs ps \<Longrightarrow> dir_at (set_at ps c n) qs = dir_at n qs"
proof (induction ps c n arbitrary: qs rule: set_at.induct)
  case (2 p c g es)
  then show ?case by (cases qs) (auto simp: strict_prefix_def)
next
  case (3 p q ps c g es)
  show ?case
  proof (cases qs)
    case Nil
    then show ?thesis by (auto split: option.splits)
  next
    case (Cons a as)
    with 3 show ?thesis by (auto simp: map_of_dict_set strict_prefix_def split: option.splits)
  qed
qed auto

text \<open>Making directories changes nothing off the path; on it there are directories.\<close>

lemma node_at_make_dirs: "make_dirs grp ps n = Some n' \<Longrightarrow> \<not> prefix qs ps \<Longrightarrow> node_at n' qs = node_at n qs"
proof (induction grp ps n arbitrary: n' qs rule: make_dirs.induct)
  case (2 grp p ps g es)
  then obtain m where m: "make_dirs grp ps (case map_of es p of Some m \<Rightarrow> m | None \<Rightarrow> NDir grp []) = Some m"
    and n': "n' = NDir g (dict_set p m es)" by auto
  obtain q qs' where qs: "qs = q # qs'" using "2.prems" by (cases qs) auto
  show ?case
  proof (cases "q = p")
    case True
    then have "node_at m qs' = node_at (case map_of es p of Some m \<Rightarrow> m | None \<Rightarrow> NDir grp []) qs'"
      using "2.IH" [OF m] "2.prems"(2) qs by simp
    moreover have "qs' \<noteq> []" using "2.prems"(2) qs True by auto
    ultimately show ?thesis using True by (cases qs') (auto simp: n' qs map_of_dict_set split: option.splits)
  qed (simp add: n' qs map_of_dict_set)
qed (auto split: if_splits)

lemma dir_at_make_dirs: "make_dirs grp ps n = Some n' \<Longrightarrow> dir_at n' ps"
  by (induction grp ps n arbitrary: n' rule: make_dirs.induct) (auto simp: map_of_dict_set split: if_splits)

lemma make_dirs_exists: "dir_at n ps \<Longrightarrow> make_dirs grp ps n \<noteq> None"
  by (induction grp ps n rule: make_dirs.induct) (auto split: option.splits)

lemma write_at_Some:
  assumes "write_at grp path body fs = Some fs'"
  obtains g where "fs' = set_at path (Some (NFile g body)) fs" "dir_at fs (butlast path)"
  using assms by (auto simp: write_at_def split: if_splits option.splits node.splits)

lemma rename_dir_Some:
  assumes "rename_dir src dst fs = Some fs'"
  obtains g es where "node_at fs src = Some (NDir g es)" "fs' = set_at dst (Some (NDir g es)) (set_at src None fs)"
  using assms by (auto simp: rename_dir_def split: option.splits node.splits list.splits if_splits)


lemma make_dirs_snoc:
  "dir_at n ps \<Longrightarrow> node_at n (ps @ [p]) = None \<or> dir_at n (ps @ [p]) \<Longrightarrow> make_dirs grp (ps @ [p]) n \<noteq> None"
proof (induction ps arbitrary: n)
  case Nil
  then show ?case by (cases n) (auto split: option.splits)
next
  case (Cons a ps)
  then obtain g es m where "n = NDir g es" "map_of es a = Some m" "dir_at m ps"
    by (cases n) (auto split: option.splits)
  with Cons show ?case by auto
qed


lemma node_at_set_parent:
  "node_at n ps = Some (NDir g es) \<Longrightarrow>
    node_at (set_at (ps @ [p]) c n) ps = Some (NDir g (case c of Some m \<Rightarrow> dict_set p m es | None \<Rightarrow> dict_pop p es))"
proof (induction ps arbitrary: n)
  case Nil
  then show ?case by (cases n) (auto split: option.splits)
next
  case (Cons a ps)
  then obtain h fs m where "n = NDir h fs" "map_of fs a = Some m" "node_at m ps = Some (NDir g es)"
    by (cases n) (auto split: option.splits)
  with Cons.IH [of m] show ?case by (cases ps) (simp_all add: map_of_dict_set)
qed


text \<open>Removing creates nothing.\<close>

lemma node_at_set_None: "node_at n q = None \<Longrightarrow> node_at (set_at p None n) q = None"
proof (induction p "None :: node option" n arbitrary: q rule: set_at.induct)
  case (2 p g es)
  then show ?case by (cases q) (auto simp: map_of_dict_pop split: option.splits)
next
  case (3 p p' ps g es)
  show ?case
  proof (cases q)
    case (Cons a as)
    with "3.prems" "3.hyps" show ?thesis by (cases "map_of es p") (auto simp: map_of_dict_set split: option.splits)
  qed (use "3.prems" in simp)
qed auto


end
