(* ===== verification/Workspace_Copy.thy ===== *)
theory Workspace_Copy
  imports File_Tree
begin

text \<open>
  Copying a source tree into a workspace, \<open>src/src/core/workspace_copy.py\<close>: the scan for links that leave the tree, the
  \<open>rsync\<close> command and the copy. \<open>os.path.realpath\<close> and \<open>rsync\<close> are parameters. Paths stay texts where the code
  compares them as texts.
\<close>

section \<open>Model\<close>

definition COPY_DEFAULT_EXCLUDES :: "string list" where
  "COPY_DEFAULT_EXCLUDES =
     [''node_modules'', ''.pnpm-store'', ''.yarn/cache'', ''.yarn/install-state.gz'', ''.venv'', ''venv'', ''env'', ''__pycache__'',
      ''*.pyc'', ''.pytest_cache'', ''.mypy_cache'', ''.ruff_cache'', ''.tox'', ''target'', ''bin'', ''dist'', ''build'', ''out'', ''.next'',
      ''.nuxt'', ''.tsbuildinfo'', ''.turbo'', ''vendor'', ''vendor/bundle'', ''.bundle'', ''.gradle'', ''cmake-build-*'', ''.idea'',
      ''.vscode'', ''.DS_Store'', ''*.swp'', ''*.log'', ''coverage'', ''.nyc_output'', ''.cache'']"

definition is_external_symlink :: "(string \<Rightarrow> string) \<Rightarrow> string \<Rightarrow> string \<Rightarrow> string \<Rightarrow> bool" where
  "is_external_symlink realpath link_path target source_root =
     (if prefix ''/'' target then \<not> prefix (realpath source_root) (realpath link_path)
      else \<not> prefix (realpath source_root) (realpath (path_join (dirname link_path) target)))"

text \<open>What the loop body appends for one entry of \<open>filenames\<close>: the directory entries that are no directories, also
  not through a link.\<close>

definition unsafe_entry :: "(string \<Rightarrow> string) \<Rightarrow> string \<Rightarrow> string \<Rightarrow> string \<times> node \<Rightarrow> string list" where
  "unsafe_entry realpath source_root dirpath e =
     (case snd e of
        NLink g target to_dir \<Rightarrow>
          if \<not> to_dir \<and> is_external_symlink realpath (path_join dirpath (fst e)) target source_root
          then [path_join dirpath (fst e)] else []
      | _ \<Rightarrow> [])"

text \<open>\<open>os.walk\<close> from the top: the entries of a directory, then its subdirectories in turn; links are not entered.\<close>

fun scan_tree :: "(string \<Rightarrow> string) \<Rightarrow> string \<Rightarrow> string \<Rightarrow> node \<Rightarrow> string list" where
  "scan_tree realpath source_root dirpath (NDir g es) =
     concat (map (unsafe_entry realpath source_root dirpath) es) @
     concat (map (\<lambda>(name, c). scan_tree realpath source_root (path_join dirpath name) c) es)"
| "scan_tree realpath source_root dirpath n = []"

definition scan_unsafe_symlinks :: "(string \<Rightarrow> string) \<Rightarrow> node \<Rightarrow> string \<Rightarrow> string list" where
  "scan_unsafe_symlinks realpath fs source_root =
     (case node_at fs (path_parts (realpath source_root)) of
        None \<Rightarrow> [] | Some n \<Rightarrow> scan_tree realpath source_root source_root n)"

record copy_result =
  bytes_total :: nat
  excludes_applied :: "string list"
  safe_links :: bool

datatype copy_error = UnsafeSymlinkError string | CopyOSError | CopyRsyncFailed int

definition copy_command :: "string \<Rightarrow> string \<Rightarrow> bool \<Rightarrow> string list \<Rightarrow> string list" where
  "copy_command source dest strip_unsafe_links excludes =
     [''rsync'', ''-a'', ''--no-owner'', ''--no-group''] @ concat (map (\<lambda>exc. [''--exclude'', exc]) excludes) @
     (if strip_unsafe_links then [''--safe-links''] else []) @
     [py_rstrip_chars ''/'' source @ ''/'', py_rstrip_chars ''/'' dest @ ''/'']"

text \<open>The sizes of the regular files below a directory.\<close>

fun file_bytes :: "node \<Rightarrow> nat" where
  "file_bytes (NFile g body) = length body"
| "file_bytes (NLink g t d) = 0"
| "file_bytes (NDir g es) = sum_list (map (\<lambda>(name, c). file_bytes c) es)"

text \<open>The host: \<open>realpath\<close>, the group of the process, and \<open>rsync\<close>, whose exit status may be non-zero or which may fail to
  start.\<close>

record copy_env =
  ce_realpath :: "string \<Rightarrow> string"
  ce_gid :: int
  ce_rsync :: "string list \<Rightarrow> node \<Rightarrow> int option \<times> node"

definition copy_workspace ::
  "copy_env \<Rightarrow> string \<Rightarrow> string \<Rightarrow> bool \<Rightarrow> string list \<Rightarrow> node \<Rightarrow> (copy_error + copy_result) \<times> node" where
  "copy_workspace env source dest strip_unsafe_links excludes fs =
     (let unsafe = (if strip_unsafe_links then [] else scan_unsafe_symlinks (ce_realpath env) fs source);
          dest_parts = path_parts (ce_realpath env dest)
      in if unsafe \<noteq> []
         then (Inl (UnsafeSymlinkError
           (nat_str (length unsafe) @ '' symlink(s) in '' @ py_repr source @ '' escape the source tree; '' @
            ''re-run with strip_unsafe_links=True to drop them, or fix the source.'')), fs)
         else case make_dirs (ce_gid env) dest_parts fs of
                None \<Rightarrow> (Inl CopyOSError, fs)
              | Some fs1 \<Rightarrow>
                  (case ce_rsync env (copy_command source dest strip_unsafe_links excludes) fs1 of
                     (None, fs2) \<Rightarrow> (Inl CopyOSError, fs2)
                   | (Some rc, fs2) \<Rightarrow>
                       if rc \<noteq> 0 then (Inl (CopyRsyncFailed rc), fs2)
                       else (Inr \<lparr>bytes_total = (case node_at fs2 dest_parts of None \<Rightarrow> 0 | Some n \<Rightarrow> file_bytes n),
                                  excludes_applied = excludes, safe_links = strip_unsafe_links\<rparr>, fs2)))"

section \<open>Lemmas\<close>

text \<open>Every directory of the tree lists a name once.\<close>

fun wf_tree :: "node \<Rightarrow> bool" where
  "wf_tree (NDir g es) = (dict_wf es \<and> (\<forall>(name, c) \<in> set es. wf_tree c))"
| "wf_tree n = True"

definition tree_path :: "string \<Rightarrow> string list \<Rightarrow> string" where
  "tree_path root ps = foldl path_join root ps"

lemma tree_path_simps [simp]:
  "tree_path root [] = root"
  "tree_path root (p # ps) = tree_path (path_join root p) ps"
  "tree_path root (ps @ [p]) = path_join (tree_path root ps) p"
  by (simp_all add: tree_path_def)

lemma map_of_entry: "dict_wf es \<Longrightarrow> map_of es k = Some v \<longleftrightarrow> (k, v) \<in> set es"
  by (auto simp: dict_wf_def dict_keys_def dest: map_of_SomeD)

lemma unsafe_entry_set:
  "x \<in> set (unsafe_entry realpath root d e) \<longleftrightarrow>
    x = path_join d (fst e) \<and> (\<exists>g t. snd e = NLink g t False \<and> is_external_symlink realpath (path_join d (fst e)) t root)"
  by (cases "snd e") (auto simp: unsafe_entry_def)

lemma scan_tree_set:
  assumes "wf_tree n"
  shows "x \<in> set (scan_tree realpath root d n) \<longleftrightarrow>
    (\<exists>ps p g t. node_at n (ps @ [p]) = Some (NLink g t False) \<and> x = tree_path d (ps @ [p]) \<and>
       is_external_symlink realpath x t root)"
  using assms
proof (induction realpath root d n rule: scan_tree.induct)
  case (1 realpath root d g es)
  have wf: "dict_wf es" "\<And>name c. (name, c) \<in> set es \<Longrightarrow> wf_tree c" using "1.prems" by auto
  have IH: "x \<in> set (scan_tree realpath root (path_join d name) c) \<longleftrightarrow>
      (\<exists>ps p g t. node_at c (ps @ [p]) = Some (NLink g t False) \<and> x = tree_path (path_join d name) (ps @ [p]) \<and>
         is_external_symlink realpath x t root)" if "(name, c) \<in> set es" for name c
    using "1.IH" [OF that refl wf(2) [OF that]] .
  have node: "node_at (NDir g es) (q # qs) = Some l \<longleftrightarrow> (\<exists>c. (q, c) \<in> set es \<and> node_at c qs = Some l)" for q qs l
    by (simp add: map_of_entry [OF wf(1), symmetric] split: option.split)
  have here: "(\<exists>p g' t. node_at (NDir g es) [p] = Some (NLink g' t False) \<and> x = tree_path d [p] \<and>
      is_external_symlink realpath x t root) \<longleftrightarrow>
      (\<exists>name c. (name, c) \<in> set es \<and> x \<in> set (unsafe_entry realpath root d (name, c)))"
    unfolding node unsafe_entry_set by auto
  have below: "(\<exists>q ps p g' t. node_at (NDir g es) (q # ps @ [p]) = Some (NLink g' t False) \<and> x = tree_path d (q # ps @ [p]) \<and>
      is_external_symlink realpath x t root) \<longleftrightarrow>
      (\<exists>name c. (name, c) \<in> set es \<and> x \<in> set (scan_tree realpath root (path_join d name) c))"
    unfolding node using IH by (simp only: tree_path_simps(2)) blast
  have split: "(\<exists>ps p g' t. P (ps @ [p]) g' t) \<longleftrightarrow> (\<exists>p g' t. P [p] g' t) \<or> (\<exists>q ps p g' t. P (q # ps @ [p]) g' t)"
    for P :: "string list \<Rightarrow> int \<Rightarrow> string \<Rightarrow> bool"
    by (metis append_Cons append_Nil neq_Nil_conv)
  have "x \<in> set (scan_tree realpath root d (NDir g es)) \<longleftrightarrow>
      (\<exists>name c. (name, c) \<in> set es \<and> x \<in> set (unsafe_entry realpath root d (name, c))) \<or>
      (\<exists>name c. (name, c) \<in> set es \<and> x \<in> set (scan_tree realpath root (path_join d name) c))"
    by auto
  then show ?case
    unfolding here [symmetric] below [symmetric]
      split [of "\<lambda>qs g' t. node_at (NDir g es) qs = Some (NLink g' t False) \<and> x = tree_path d qs \<and>
       is_external_symlink realpath x t root"] .
qed (auto elim: node_at.elims)

section \<open>Properties\<close>


text \<open>A source with a link to a file outside, one to a directory outside and one into a sibling.\<close>

definition copy_sample :: "(string \<times> node) list \<Rightarrow> node" where
  "copy_sample es = NDir 0 [(''w'', NDir 0 [(''src'', NDir 0 es)])]"

definition copy_host :: copy_env where
  "copy_host = \<lparr>ce_realpath = (\<lambda>p. if p = ''/w/src/f'' then ''/etc/passwd'' else if p = ''/w/src/s'' then ''/w/src-old/key'' else p),
     ce_gid = 1000, ce_rsync = (\<lambda>cmd fs. (Some 0, fs))\<rparr>"


lemma copy_scan_blind_spots:
  "scan_unsafe_symlinks (ce_realpath copy_host)
     (copy_sample [(''d'', NLink 0 ''/etc'' True), (''s'', NLink 0 ''../src-old/key'' False)]) ''/w/src'' = []"
  by code_simp


end
