(* ===== verification/Workspace_Backups.thy ===== *)
theory Workspace_Backups
  imports Workspace_Copy Backup_Lock Executor "HOL-Library.List_Lexorder" "HOL-Library.Char_ord"
begin

text \<open>
  Workspace backups, \<open>src/src/core/workspace_backups.py\<close>: creating a backup beside the live tree under a
  \<open>.partial\<close> name and renaming it, listing the completed ones, resolving a \<open>--from\<close> value, restoring. The state is the
  file tree with the two caches of the rsync probe; \<open>rsync\<close>, the clock, \<open>realpath\<close> and the JSON library are parameters.
  The directories of the backup tree itself are no links: only this code writes them.
\<close>

section \<open>Data\<close>

definition SCHEMA_VERSION :: int where
  "SCHEMA_VERSION = 1"

definition BACKUP_INFO_FILENAME :: string where
  "BACKUP_INFO_FILENAME = ''.backup-info.json''"

definition PARTIAL_SUFFIX :: string where
  "PARTIAL_SUFFIX = ''.partial''"

text \<open>\<open>_TIMESTAMP_RE.match\<close>: the pattern ends in \<open>$\<close>, which also matches before a final newline.\<close>

definition timestamp_shape :: "string \<Rightarrow> bool" where
  "timestamp_shape s = list_all2 (\<lambda>p c. if p = CHR ''d'' then is_decimal c else c = p) ''dddd-dd-dd-dd-dd-dd'' s"

definition timestamp_match :: "string \<Rightarrow> bool" where
  "timestamp_match name = timestamp_shape (re_dollar_body name)"

datatype backup_error =
    BackupPathError string
  | BackupRsyncError string string exec_error
  | BackupLockHeldError string
  | BackupSpecNotFoundError string
  | BackupSpecAmbiguousError string
  | BackupOSError
  | BackupValueError

record backup_info =
  bi_path :: "string list"
  bi_instance :: string
  bi_workspace :: string
  bi_timestamp :: string
  bi_size :: nat
  bi_metadata :: "(string, json) dict"

record backup_filter =
  bf_instance :: "string option"
  bf_workspace :: "string option"

record backup_env =
  bk_home :: "string list"
  bk_realpath :: "string \<Rightarrow> string"
  bk_gid :: int
  bk_chown_ok :: "string list \<Rightarrow> bool"
  bk_json :: json_codec
  bk_version :: "string option"
  bk_path :: "string option"
  bk_spawn :: "string list \<Rightarrow> (string, string) dict \<Rightarrow> node \<Rightarrow> spawn_result \<times> node"
  bk_lock_free :: "string \<Rightarrow> bool"

record backup_state =
  bs_fs :: node
  bs_xattrs :: "bool option"
  bs_version :: "string option"

section \<open>Programs and the rsync probe\<close>

definition backup_opts :: run_options where
  "backup_opts = \<lparr>interactive = False, extra_env = [], sentinel = False, framed = False\<rparr>"

definition backup_exec :: "backup_env \<Rightarrow> string list \<Rightarrow> backup_state \<Rightarrow> (exec_error + completed) \<times> backup_state" where
  "backup_exec env cmd st =
     (let (r, fs) = bk_spawn env cmd (sterile_env (bk_path env) []) (bs_fs st)
      in (fst (executor_run (\<lambda>_ _ _. r) (bk_path env) [] backup_opts cmd None), st\<lparr>bs_fs := fs\<rparr>))"

definition query_rsync_version :: "backup_env \<Rightarrow> backup_state \<Rightarrow> string \<times> backup_state" where
  "query_rsync_version env st =
     (case bs_version st of
        Some v \<Rightarrow> (v, st)
      | None \<Rightarrow>
          (case backup_exec env [''rsync'', ''--version''] st of
             (Inl _, st') \<Rightarrow> ([], st'\<lparr>bs_version := Some []\<rparr>)
           | (Inr result, st') \<Rightarrow>
               let lines = py_splitlines (case cp_stdout result of Some s \<Rightarrow> s | None \<Rightarrow> []);
                   v = (case lines of [] \<Rightarrow> [] | l # _ \<Rightarrow> l)
               in (v, st'\<lparr>bs_version := Some v\<rparr>)))"

definition rsync_supports_xattrs :: "backup_env \<Rightarrow> backup_state \<Rightarrow> bool \<times> backup_state" where
  "rsync_supports_xattrs env st =
     (case bs_xattrs st of
        Some b \<Rightarrow> (b, st)
      | None \<Rightarrow>
          (case backup_exec env [''rsync'', ''--version''] st of
             (Inl _, st') \<Rightarrow> (False, st'\<lparr>bs_xattrs := Some False\<rparr>)
           | (Inr result, st') \<Rightarrow>
               let s = (case cp_stdout result of Some s \<Rightarrow> s | None \<Rightarrow> []);
                   has_xattrs = py_contains '' xattrs'' s \<and> \<not> py_contains ''no xattrs'' s
               in (has_xattrs, st'\<lparr>bs_xattrs := Some has_xattrs\<rparr>)))"

definition reset_rsync_caches :: "backup_state \<Rightarrow> backup_state" where
  "reset_rsync_caches st = st\<lparr>bs_xattrs := None, bs_version := None\<rparr>"

section \<open>Paths and the command\<close>

definition backups_root :: "backup_env \<Rightarrow> string list" where
  "backups_root env = bk_home env @ [''workspaces'', ''_backups'']"

definition backup_dir :: "backup_env \<Rightarrow> string \<Rightarrow> string \<Rightarrow> string \<Rightarrow> string list" where
  "backup_dir env inst ws ts = backups_root env @ [inst, ws, ts]"

definition utc_timestamp :: "datetime \<Rightarrow> string" where
  "utc_timestamp now = strftime TIMESTAMP_FORMAT now"

definition sandbox_ai_version :: "backup_env \<Rightarrow> string" where
  "sandbox_ai_version env = (case bk_version env of Some v \<Rightarrow> v | None \<Rightarrow> ''unknown'')"

definition build_rsync_cmd :: "string \<Rightarrow> string \<Rightarrow> string list \<Rightarrow> string list \<Rightarrow> bool \<Rightarrow> bool \<Rightarrow> string list" where
  "build_rsync_cmd source dest_partial excludes extra_excludes safe_lnks use_xattrs =
     [''rsync'', ''-aHS''] @ (if use_xattrs then [''-X''] else []) @
     [''--no-owner'', ''--no-group'', ''--chmod=Du+rwx,Dg-s,Dgo-rwx,Fu+rw,Fgo-rwx,Fa-st''] @
     (if safe_lnks then [''--safe-links''] else []) @
     concat (map (\<lambda>exc. [''--exclude'', exc]) excludes) @ concat (map (\<lambda>exc. [''--exclude'', exc]) extra_excludes) @
     [py_rstrip_chars ''/'' source @ ''/'', py_rstrip_chars ''/'' dest_partial @ ''/'']"

section \<open>Trees\<close>

text \<open>\<open>_force_group\<close>: an entry whose \<open>chown\<close> raises keeps its group.\<close>

primrec force_group :: "(string list \<Rightarrow> bool) \<Rightarrow> int \<Rightarrow> node \<Rightarrow> string list \<Rightarrow> node" where
  "force_group ok gid (NFile g body) = (\<lambda>path. NFile (if ok path then gid else g) body)"
| "force_group ok gid (NLink g t d) = (\<lambda>path. NLink (if ok path then gid else g) t d)"
| "force_group ok gid (NDir g es) = (\<lambda>path. NDir (if ok path then gid else g)
     (map (\<lambda>(name, f). (name, f (path @ [name]))) (map (map_prod id (force_group ok gid)) es)))"

text \<open>\<open>_tree_size_and_count\<close>: sizes by \<open>lstat\<close>; a link has the length of its target, and one to a directory is not
  listed among the files.\<close>

fun tree_size_and_count :: "node \<Rightarrow> nat \<times> nat" where
  "tree_size_and_count (NDir g es) =
     (sum_list (map (\<lambda>(name, c). case c of NFile _ body \<Rightarrow> length body
        | NLink _ t d \<Rightarrow> if d then 0 else length t | NDir _ _ \<Rightarrow> fst (tree_size_and_count c)) es),
      sum_list (map (\<lambda>(name, c). case c of NFile _ _ \<Rightarrow> 1 | NLink _ _ d \<Rightarrow> if d then 0 else 1
        | NDir _ _ \<Rightarrow> snd (tree_size_and_count c)) es))"
| "tree_size_and_count n = (0, 0)"

text \<open>\<open>shutil.copytree\<close> with links kept and the metadata file left out on every level.\<close>

primrec copy_tree :: "int \<Rightarrow> node \<Rightarrow> node" where
  "copy_tree gid (NFile g body) = NFile gid body"
| "copy_tree gid (NLink g t d) = NLink gid t d"
| "copy_tree gid (NDir g es) =
     NDir gid (filter (\<lambda>e. fst e \<noteq> BACKUP_INFO_FILENAME) (map (map_prod id (copy_tree gid)) es))"

section \<open>The metadata file\<close>

record backup_meta =
  bm_bootstrap_mode :: string
  bm_source_path :: string
  bm_excludes :: "string list"
  bm_stripped :: nat
  bm_xattrs :: bool

text \<open>The payload in the order of \<open>sort_keys\<close>.\<close>

definition backup_payload ::
  "backup_env \<Rightarrow> string \<Rightarrow> string \<Rightarrow> backup_meta \<Rightarrow> nat \<Rightarrow> nat \<Rightarrow> datetime \<Rightarrow> string \<Rightarrow> json" where
  "backup_payload env inst ws m size_bytes file_count created rsync_version =
     JObj [(''created_at_utc'', JStr (strftime ISO_FORMAT created)),
           (''file_count'', JInt (int file_count)),
           (''rsync_excludes_applied'', JList (map JStr (bm_excludes m))),
           (''sandbox_ai_version'', JStr (sandbox_ai_version env)),
           (''schema_version'', JInt SCHEMA_VERSION),
           (''size_bytes'', JInt (int size_bytes)),
           (''source_bootstrap_mode'', JStr (bm_bootstrap_mode m)),
           (''source_instance'', JStr inst),
           (''source_path'', JStr (bm_source_path m)),
           (''source_workspace'', JStr ws),
           (''stripped_unsafe_links_count'', JInt (int (bm_stripped m))),
           (''tooling'', JObj [(''rsync_version'', JStr rsync_version), (''rsync_xattrs_supported'', JBool (bm_xattrs m))])]"

text \<open>A file of that name copied from the workspace is overwritten; any other entry of that name is taken as an error.\<close>

definition write_backup_info ::
  "backup_env \<Rightarrow> string list \<Rightarrow> string \<Rightarrow> string \<Rightarrow> backup_meta \<Rightarrow> nat \<Rightarrow> nat \<Rightarrow> string \<Rightarrow> backup_state \<Rightarrow>
   (backup_error + unit) \<times> backup_state" where
  "write_backup_info env partial_dir inst ws m size_bytes file_count ts st =
     (case strptime TIMESTAMP_FORMAT ts of
        None \<Rightarrow> (Inl BackupValueError, st)
      | Some created \<Rightarrow>
          (let (v, st') = query_rsync_version env st;
               body = jc_dumps (bk_json env) (backup_payload env inst ws m size_bytes file_count created v)
           in case write_at (bk_gid env) (partial_dir @ [BACKUP_INFO_FILENAME]) body (bs_fs st') of
                None \<Rightarrow> (Inl BackupOSError, st')
              | Some fs \<Rightarrow> (Inr (), st'\<lparr>bs_fs := fs\<rparr>)))"

definition read_backup_info :: "backup_env \<Rightarrow> node \<Rightarrow> string list \<Rightarrow> (string, json) dict" where
  "read_backup_info env fs directory =
     (case node_at fs (directory @ [BACKUP_INFO_FILENAME]) of
        Some (NFile g body) \<Rightarrow> (case jc_loads (bk_json env) body of Inr (JObj data) \<Rightarrow> data | _ \<Rightarrow> [])
      | _ \<Rightarrow> [])"

section \<open>Creating\<close>

text \<open>The recipe under the lock.\<close>

definition do_backup ::
  "backup_env \<Rightarrow> string \<Rightarrow> string \<Rightarrow> string \<Rightarrow> backup_meta \<Rightarrow> string list \<Rightarrow> int \<Rightarrow> backup_state \<Rightarrow>
   (backup_error + nat) \<times> backup_state" where
  "do_backup env inst ws ts m cmd gid st =
     (let partial_dir = backup_dir env inst ws (ts @ PARTIAL_SUFFIX); final_dir = backup_dir env inst ws ts
      in case make_dirs (bk_gid env) partial_dir (bs_fs st) of
           None \<Rightarrow> (Inl BackupOSError, st)
         | Some fs1 \<Rightarrow>
             (case backup_exec env cmd (st\<lparr>bs_fs := fs1\<rparr>) of
                (Inl exc, st2) \<Rightarrow> (Inl (BackupRsyncError inst ws exc), st2)
              | (Inr _, st2) \<Rightarrow>
                  (case node_at (bs_fs st2) partial_dir of
                     None \<Rightarrow> (Inl BackupOSError, st2)
                   | Some n \<Rightarrow>
                       (let n' = force_group (bk_chown_ok env) gid n partial_dir;
                            st3 = st2\<lparr>bs_fs := set_at partial_dir (Some n') (bs_fs st2)\<rparr>;
                            (size_bytes, files) = tree_size_and_count n'
                        in case write_backup_info env partial_dir inst ws m size_bytes files ts st3 of
                             (Inl exc, st4) \<Rightarrow> (Inl exc, st4)
                           | (Inr _, st4) \<Rightarrow>
                               (case rename_dir partial_dir final_dir (bs_fs st4) of
                                  None \<Rightarrow> (Inl BackupOSError, st4)
                                | Some fs5 \<Rightarrow> (Inr size_bytes, st4\<lparr>bs_fs := fs5\<rparr>))))))"

definition create_backup ::
  "backup_env \<Rightarrow> string \<Rightarrow> string \<Rightarrow> string \<Rightarrow> string \<Rightarrow> int \<Rightarrow> string list \<Rightarrow> string list \<Rightarrow> datetime \<Rightarrow> bool \<Rightarrow> backup_state \<Rightarrow>
   (backup_error + backup_info) \<times> backup_state" where
  "create_backup env inst ws source_path bootstrap_mode gid excludes extra_excludes now take_lock st =
     (let src = bk_realpath env source_path;
          ts = utc_timestamp now;
          partial_dir = backup_dir env inst ws (ts @ PARTIAL_SUFFIX);
          final_dir = backup_dir env inst ws ts
      in if \<not> dir_at (bs_fs st) (path_parts src)
         then (Inl (BackupPathError (''backup source '' @ py_repr source_path @ '' is not a directory'')), st)
         else case make_dirs (bk_gid env) (butlast partial_dir) (bs_fs st) of
                None \<Rightarrow> (Inl BackupOSError, st)
              | Some fs1 \<Rightarrow>
                  (let stripped = length (scan_unsafe_symlinks (bk_realpath env) fs1 src);
                       (use_xattrs, st2) = rsync_supports_xattrs env (st\<lparr>bs_fs := fs1\<rparr>);
                       cmd = build_rsync_cmd src (parts_str partial_dir) excludes extra_excludes (stripped > 0) use_xattrs;
                       m = \<lparr>bm_bootstrap_mode = bootstrap_mode, bm_source_path = src, bm_excludes = excludes,
                             bm_stripped = stripped, bm_xattrs = use_xattrs\<rparr>
                   in if take_lock \<and> \<not> bk_lock_free env inst then (Inl (BackupLockHeldError inst), st2)
                      else case do_backup env inst ws ts m cmd gid st2 of
                             (Inl exc, st3) \<Rightarrow> (Inl exc, st3)
                           | (Inr size_bytes, st3) \<Rightarrow>
                               (Inr \<lparr>bi_path = final_dir, bi_instance = inst, bi_workspace = ws, bi_timestamp = ts,
                                     bi_size = size_bytes, bi_metadata = read_backup_info env (bs_fs st3) final_dir\<rparr>, st3)))"

section \<open>Listing and resolving\<close>

text \<open>The names of the subdirectories, sorted. A name stands for one entry.\<close>

definition subdir_names :: "node \<Rightarrow> string list \<Rightarrow> string list" where
  "subdir_names fs path =
     (case node_at fs path of
        Some (NDir g es) \<Rightarrow> filter (\<lambda>name. dir_at fs (path @ [name])) (sort (remdups (map fst es)))
      | _ \<Rightarrow> [])"

definition filtered_out :: "string option \<Rightarrow> string \<Rightarrow> bool" where
  "filtered_out f name = (case f of Some s \<Rightarrow> s \<noteq> [] \<and> s \<noteq> name | None \<Rightarrow> False)"

definition info_at :: "backup_env \<Rightarrow> node \<Rightarrow> string \<times> string \<times> string \<Rightarrow> backup_info" where
  "info_at env fs k =
     (case k of (inst, ws, ts) \<Rightarrow>
        let path = backup_dir env inst ws ts
        in \<lparr>bi_path = path, bi_instance = inst, bi_workspace = ws, bi_timestamp = ts,
            bi_size = (case node_at fs path of Some n \<Rightarrow> fst (tree_size_and_count n) | None \<Rightarrow> 0),
            bi_metadata = read_backup_info env fs path\<rparr>)"

definition list_backups :: "backup_env \<Rightarrow> backup_filter \<Rightarrow> node \<Rightarrow> backup_info list" where
  "list_backups env filt fs =
     (let root = backups_root env
      in concat (map (\<lambda>inst. if filtered_out (bf_instance filt) inst then [] else
           concat (map (\<lambda>ws. if filtered_out (bf_workspace filt) ws then [] else
             concat (map (\<lambda>ts. if suffix PARTIAL_SUFFIX ts then [] else if \<not> timestamp_match ts then []
               else [info_at env fs (inst, ws, ts)])
             (subdir_names fs (root @ [inst, ws]))))
           (subdir_names fs (root @ [inst]))))
         (subdir_names fs root)))"

text \<open>How the kernel follows a path with \<open>..\<close> in it: every name on the way has to be a directory.\<close>

fun follow_path :: "node \<Rightarrow> string list \<Rightarrow> string list \<Rightarrow> string list option" where
  "follow_path fs cur [] = Some cur"
| "follow_path fs cur (p # ps) =
     (if p = ''..'' then follow_path fs (butlast cur) ps
      else if dir_at fs (cur @ [p]) then follow_path fs (cur @ [p]) ps
      else if ps = [] \<and> node_at fs (cur @ [p]) \<noteq> None then Some (cur @ [p]) else None)"

definition no_filter :: backup_filter where
  "no_filter = \<lparr>bf_instance = None, bf_workspace = None\<rparr>"

text \<open>Joining the parts of a spec to the root drops empty parts and dots, and keeps \<open>..\<close>.\<close>

definition resolve_backup_spec :: "backup_env \<Rightarrow> string option \<Rightarrow> string \<Rightarrow> node \<Rightarrow> backup_error + backup_info" where
  "resolve_backup_spec env spec dest_ws fs =
     (case spec of
        None \<Rightarrow>
          (let candidates = list_backups env (no_filter\<lparr>bf_workspace := Some dest_ws\<rparr>) fs;
               instances = sort (remdups (map bi_instance candidates))
           in if candidates = [] then Inl (BackupSpecNotFoundError
                (''no backups found with source workspace '' @ py_repr dest_ws @ ''; specify --from''))
              else if length instances > 1 then Inl (BackupSpecAmbiguousError
                (''multiple source instances have backups for workspace '' @ py_repr dest_ws @ '': '' @
                 py_join '', '' instances @ ''. Disambiguate with --from <src-inst>/<src-ws>.''))
              else Inr (last candidates))
      | Some s \<Rightarrow>
          (case py_split CHR ''/'' s of
             [src_inst, src_ws] \<Rightarrow>
               (let candidates = list_backups env \<lparr>bf_instance = Some src_inst, bf_workspace = Some src_ws\<rparr> fs
                in if candidates = [] then Inl (BackupSpecNotFoundError (''no backups found for '' @ src_inst @ ''/'' @ src_ws))
                   else Inr (last candidates))
           | [src_inst, src_ws, ts] \<Rightarrow>
               if \<not> timestamp_match ts then Inl (BackupSpecNotFoundError
                 (''timestamp '' @ py_repr ts @ '' does not match YYYY-MM-DD-HH-MM-SS''))
               else
                 (let target = filter (\<lambda>p. p \<noteq> [] \<and> p \<noteq> ''.'') (backup_dir env src_inst src_ws ts)
                  in case follow_path fs [] target of
                       Some path \<Rightarrow>
                         if dir_at fs path then
                           Inr \<lparr>bi_path = target, bi_instance = src_inst, bi_workspace = src_ws, bi_timestamp = ts,
                                bi_size = (case node_at fs path of Some n \<Rightarrow> fst (tree_size_and_count n) | None \<Rightarrow> 0),
                                bi_metadata = read_backup_info env fs path\<rparr>
                         else Inl (BackupSpecNotFoundError (''backup '' @ py_repr s @ '' not found at '' @ parts_str target))
                     | None \<Rightarrow> Inl (BackupSpecNotFoundError (''backup '' @ py_repr s @ '' not found at '' @ parts_str target)))
           | _ \<Rightarrow> Inl (BackupSpecNotFoundError
               (''--from value '' @ py_repr s @ '' must be '' @ sq ''<src-inst>/<src-ws>'' @ '' or '' @ sq ''<src-inst>/<src-ws>/<ts>''))))"

section \<open>Restoring\<close>

definition restore_backup :: "backup_env \<Rightarrow> backup_info \<Rightarrow> string \<Rightarrow> string \<Rightarrow> node \<Rightarrow> (backup_error + string list) \<times> node" where
  "restore_backup env b dest_inst dest_ws fs =
     (let dest_path = bk_home env @ [''workspaces'', dest_inst, dest_ws]
      in if node_at fs dest_path \<noteq> None
         then (Inl (BackupPathError (''destination workspace '' @ parts_str dest_path @ '' already exists'')), fs)
         else case make_dirs (bk_gid env) (butlast dest_path) fs of
                None \<Rightarrow> (Inl BackupOSError, fs)
              | Some fs1 \<Rightarrow>
                  (case follow_path fs1 [] (bi_path b) of
                     None \<Rightarrow> (Inl BackupOSError, fs1)
                   | Some path \<Rightarrow>
                       (case node_at fs1 path of
                          Some (NDir g es) \<Rightarrow>
                            (Inr dest_path, set_at dest_path (Some (copy_tree (bk_gid env) (NDir g es))) fs1)
                        | _ \<Rightarrow> (Inl BackupOSError, fs1))))"

section \<open>Lemmas: names\<close>

lemma timestamp_match_length: "timestamp_match t \<Longrightarrow> length t = 19 \<or> length t = 20"
proof -
  assume "timestamp_match t"
  then have "length (re_dollar_body t) = 19"
    by (auto simp: timestamp_match_def timestamp_shape_def dest!: list_all2_lengthD)
  moreover have "length t = length (re_dollar_body t) \<or> length t = length (re_dollar_body t @ [newline])"
    using re_dollar_body_cases [of t] by metis
  ultimately show ?thesis by auto
qed

lemma utc_timestamp_shape: "timestamp_shape (utc_timestamp now)"
  by (simp add: timestamp_shape_def utc_timestamp_def TIMESTAMP_FORMAT_def show_directive_def pad4_def pad2_def digit_of_decimal)

lemma utc_timestamp_length: "length (utc_timestamp now) = 19"
  using utc_timestamp_shape [of now] by (auto simp: timestamp_shape_def dest!: list_all2_lengthD)

lemma utc_timestamp_match: "timestamp_match (utc_timestamp now)"
proof -
  have "last (utc_timestamp now) = digit_of (dt_second now mod 10)"
    by (simp add: utc_timestamp_def TIMESTAMP_FORMAT_def show_directive_def pad2_def)
  then have "last (utc_timestamp now) \<noteq> newline"
    by (metis digit_of_decimal mod_less_divisor newline_not_decimal zero_less_numeral)
  then show ?thesis by (simp add: timestamp_match_def re_dollar_body_def utc_timestamp_shape)
qed

lemma partial_no_match: "\<not> timestamp_match (utc_timestamp now @ PARTIAL_SUFFIX)"
  using timestamp_match_length [of "utc_timestamp now @ PARTIAL_SUFFIX"] utc_timestamp_length [of now]
  by (auto simp: PARTIAL_SUFFIX_def)

lemma list_all2_member: "list_all2 P xs ys \<Longrightarrow> y \<in> set ys \<Longrightarrow> \<exists>x \<in> set xs. P x y"
  by (induction rule: list_all2_induct) auto

lemma timestamp_shape_chars: "timestamp_shape s \<Longrightarrow> c \<in> set s \<Longrightarrow> is_decimal c \<or> c = CHR ''-''"
  unfolding timestamp_shape_def by (drule (1) list_all2_member) (simp, metis)

text \<open>A completed name has no partial suffix.\<close>

lemma timestamp_match_not_partial: "timestamp_match t \<Longrightarrow> \<not> suffix PARTIAL_SUFFIX t"
proof
  assume t: "timestamp_match t" and "suffix PARTIAL_SUFFIX t"
  then obtain u where u: "t = u @ PARTIAL_SUFFIX" by (auto simp: suffix_def)
  then have "re_dollar_body t = t" by (simp add: re_dollar_body_def PARTIAL_SUFFIX_def newline_def)
  then have "CHR ''p'' \<in> set t \<Longrightarrow> is_decimal CHR ''p''"
    using timestamp_shape_chars [of t "CHR ''p''"] t by (auto simp: timestamp_match_def)
  then show False by (simp add: u PARTIAL_SUFFIX_def char_class_defs)
qed

section \<open>Lemmas: the listing\<close>

lemma set_subdir_names: "x \<in> set (subdir_names fs p) \<longleftrightarrow> dir_at fs (p @ [x])"
proof
  assume d: "dir_at fs (p @ [x])"
  then obtain g es where "node_at fs p = Some (NDir g es)" using dir_at_prefix by (metis dir_atE)
  moreover have "x \<in> fst ` set es"
    using d calculation by (auto simp: dir_at_def node_at_snoc split: option.splits dest!: map_of_SomeD intro: rev_image_eqI)
  ultimately show "x \<in> set (subdir_names fs p)" using d by (simp add: subdir_names_def)
qed (auto simp: subdir_names_def split: option.splits node.splits)

lemma subdir_names_sorted: "sorted (subdir_names fs p)" "distinct (subdir_names fs p)"
  by (auto simp: subdir_names_def sorted_filter [where f = id, simplified] split: option.splits node.splits)

text \<open>The completed backups that a filter admits.\<close>

definition backup_keys :: "backup_env \<Rightarrow> backup_filter \<Rightarrow> node \<Rightarrow> (string \<times> string \<times> string) set" where
  "backup_keys env filt fs =
     {(inst, ws, ts). dir_at fs (backup_dir env inst ws ts) \<and> timestamp_match ts \<and>
        \<not> filtered_out (bf_instance filt) inst \<and> \<not> filtered_out (bf_workspace filt) ws}"

definition key_list :: "backup_env \<Rightarrow> backup_filter \<Rightarrow> node \<Rightarrow> (string \<times> string \<times> string) list" where
  "key_list env filt fs =
     (let root = backups_root env
      in concat (map (\<lambda>inst. map (Pair inst)
           (concat (map (\<lambda>ws. map (Pair ws) (filter timestamp_match (subdir_names fs (root @ [inst, ws]))))
             (filter (\<lambda>ws. \<not> filtered_out (bf_workspace filt) ws) (subdir_names fs (root @ [inst]))))))
           (filter (\<lambda>inst. \<not> filtered_out (bf_instance filt) inst) (subdir_names fs root))))"

lemma concat_map_filter: "concat (map (\<lambda>x. if P x then [] else f x) xs) = concat (map f (filter (\<lambda>x. \<not> P x) xs))"
  by (induction xs) auto

lemma concat_map_singleton: "concat (map (\<lambda>x. if P x then [] else if \<not> Q x then [] else [f x]) xs) =
    map f (filter (\<lambda>x. \<not> P x \<and> Q x) xs)"
  by (induction xs) auto

lemma list_backups_keys: "list_backups env filt fs = map (info_at env fs) (key_list env filt fs)"
proof -
  have "(\<lambda>ts. \<not> suffix PARTIAL_SUFFIX ts \<and> timestamp_match ts) = timestamp_match"
    using timestamp_match_not_partial by auto
  then show ?thesis
    by (simp add: list_backups_def key_list_def Let_def concat_map_filter concat_map_singleton map_concat comp_def)
qed

lemma strict_sorted_pairs:
  fixes f :: "'a::linorder \<Rightarrow> 'b::linorder list"
  assumes "sorted_wrt (<) xs" and "\<And>x. x \<in> set xs \<Longrightarrow> sorted_wrt (<) (f x)"
  shows "sorted_wrt (<) (concat (map (\<lambda>x. map (Pair x) (f x)) xs))"
  using assms by (induction xs) (auto simp: sorted_wrt_append sorted_wrt_map)

lemma strict_filter_names: "sorted_wrt (<) (filter P (subdir_names fs p))"
  using subdir_names_sorted [of fs p] by (simp add: strict_sorted_iff sorted_filter [where f = id, simplified])

lemma key_list_sorted: "sorted_wrt (<) (key_list env filt fs)"
  unfolding key_list_def Let_def by (intro strict_sorted_pairs strict_filter_names)

lemma set_key_list: "set (key_list env filt fs) = backup_keys env filt fs"
proof -
  have up: "dir_at fs (backups_root env @ [i, w, t]) \<Longrightarrow> dir_at fs (backups_root env @ [i, w])"
      "dir_at fs (backups_root env @ [i, w]) \<Longrightarrow> dir_at fs (backups_root env @ [i])" for i w t
    using dir_at_prefix [of fs "backups_root env @ [i, w]" "[t]"] dir_at_prefix [of fs "backups_root env @ [i]" "[w]"] by auto
  show ?thesis
    by (auto simp: key_list_def Let_def backup_keys_def backup_dir_def set_subdir_names dest: up)
qed

lemma key_list_spec: "key_list env filt fs = sorted_list_of_set (backup_keys env filt fs)"
  using sorted_list_of_set.idem_if_sorted_distinct [of "key_list env filt fs"] key_list_sorted [of env filt fs]
  by (simp add: strict_sorted_iff set_key_list)

lemma finite_backup_keys [simp]: "finite (backup_keys env filt fs)"
  using set_key_list [of env filt fs] by (metis finite_set)


section \<open>Lemmas: timestamps in time order\<close>

definition datetime_key :: "datetime \<Rightarrow> nat \<times> nat \<times> nat \<times> nat \<times> nat \<times> nat" where
  "datetime_key t = (dt_year t, dt_month t, dt_day t, dt_hour t, dt_minute t, dt_second t)"

lemma append_less_append:
  "length a = length b \<Longrightarrow> a @ x < b @ y \<longleftrightarrow> a < b \<or> a = b \<and> x < (y :: 'a::linorder list)"
  by (induction a b rule: list_induct2) auto

lemma digit_of_less: "m < 10 \<Longrightarrow> n < 10 \<Longrightarrow> digit_of m < digit_of n \<longleftrightarrow> m < n"
proof -
  have code: "(of_char (digit_of k) :: nat) = 48 + k" if "k < 10" for k
  proof -
    have "k \<in> {0, 1, 2, 3, 4, 5, 6, 7, 8, 9}" using that by auto
    then show ?thesis by (auto simp: digit_of_def digit_chars_def)
  qed
  assume "m < 10" "n < 10"
  then show ?thesis by (simp add: less_char_def code)
qed

lemma div_mod_less: "m < n \<longleftrightarrow> m div k < n div k \<or> m div k = n div k \<and> m mod k < n mod (k :: nat)"
proof (cases "m div k" "n div k" rule: linorder_cases)
  case less
  then show ?thesis by (metis div_le_mono linorder_not_less)
next
  case equal
  then show ?thesis by (metis mult_div_mod_eq nat_add_left_cancel_less less_irrefl)
next
  case greater
  then show ?thesis by (metis div_le_mono less_imp_le linorder_not_less order_less_irrefl)
qed

lemma pad2_less: "m < 100 \<Longrightarrow> n < 100 \<Longrightarrow> pad2 m < pad2 n \<longleftrightarrow> m < n"
proof -
  assume "m < 100" "n < 100"
  then have "m div 10 < 10" "n div 10 < 10" by auto
  moreover have "digit_of a = digit_of b \<longleftrightarrow> a = b" if "a < 10" "b < 10" for a b
    using that digit_value_digit_of by metis
  ultimately show ?thesis unfolding div_mod_less [of m n 10] by (simp add: pad2_def digit_of_less)
qed

lemma pad2_inject: "m < 100 \<Longrightarrow> n < 100 \<Longrightarrow> pad2 m = pad2 n \<longleftrightarrow> m = n"
  using digits_value_pad2 by metis

lemma length_pad2 [simp]: "length (pad2 n) = 2"
  by (simp add: pad2_def)

lemma pad4_order:
  assumes "m < 10000" "n < 10000"
  shows "pad4 m < pad4 n \<longleftrightarrow> m < n" "pad4 m = pad4 n \<longleftrightarrow> m = n"
proof -
  have "m div 100 < 100" "n div 100 < 100" using assms by auto
  moreover have "m < n \<longleftrightarrow> m div 100 < n div 100 \<or> m div 100 = n div 100 \<and> m mod 100 < n mod 100"
    by (rule div_mod_less)
  moreover have "m = n \<longleftrightarrow> m div 100 = n div 100 \<and> m mod 100 = n mod 100" by (metis mult_div_mod_eq)
  ultimately show "pad4 m < pad4 n \<longleftrightarrow> m < n" "pad4 m = pad4 n \<longleftrightarrow> m = n"
    by (simp_all add: pad4_def append_less_append pad2_less pad2_inject)
qed

lemma valid_datetime_ranges:
  assumes "valid_datetime t"
  shows "dt_year t < 10000 \<and> dt_month t < 100 \<and> dt_day t < 100 \<and> dt_hour t < 100 \<and> dt_minute t < 100 \<and> dt_second t < 100"
proof -
  have "dt_day t \<le> 31"
    using assms by (auto simp: valid_datetime_def days_in_month_def month_lengths_def less_Suc_eq_0_disj nth_Cons'
        split: if_splits)
  with assms show ?thesis by (auto simp: valid_datetime_def)
qed

lemma utc_timestamp_less:
  assumes "valid_datetime d" "valid_datetime d'"
  shows "utc_timestamp d < utc_timestamp d' \<longleftrightarrow> datetime_key d < datetime_key d'"
proof -
  have len: "length (pad4 n) = 4" for n by (simp add: pad4_def)
  show ?thesis
    using valid_datetime_ranges [OF assms(1)] valid_datetime_ranges [OF assms(2)]
    by (simp add: utc_timestamp_def TIMESTAMP_FORMAT_def show_directive_def datetime_key_def append_less_append len
        pad4_order pad2_less pad2_inject order_le_less) blast
qed

lemma sorted_last: "sorted xs \<Longrightarrow> x \<in> set xs \<Longrightarrow> x \<le> last xs"
  by (induction xs) auto

lemma last_sorted_list:
  assumes "finite K" "K \<noteq> {}"
  shows "last (sorted_list_of_set K) = Max K"
proof -
  have "sorted_list_of_set K \<noteq> []" using assms by (simp add: sorted_list_of_set_eq_Nil_iff)
  then have "last (sorted_list_of_set K) \<in> K" using assms(1) last_in_set [of "sorted_list_of_set K"] by simp
  moreover have "x \<le> last (sorted_list_of_set K)" if "x \<in> K" for x
    using sorted_last [of "sorted_list_of_set K" x] that assms(1) by simp
  ultimately show ?thesis using assms(1) by (intro Max_eqI [symmetric]) auto
qed


section \<open>Lemmas: what a creation changes\<close>

text \<open>\<open>rsync\<close> writes below the destination it is given, the last argument, and asking for its version writes nothing.\<close>

definition rsync_confined :: "backup_env \<Rightarrow> bool" where
  "rsync_confined env =
     ((\<forall>cmd e fs dest. clean_parts dest \<longrightarrow> last cmd = parts_str dest @ ''/'' \<longrightarrow> dir_at fs dest \<longrightarrow>
         (\<exists>g es. snd (bk_spawn env cmd e fs) = set_at dest (Some (NDir g es)) fs)) \<and>
      (\<forall>e fs. snd (bk_spawn env [''rsync'', ''--version''] e fs) = fs))"

text \<open>Two trees with the same completed backups, entry for entry.\<close>

definition same_backups :: "backup_env \<Rightarrow> node \<Rightarrow> node \<Rightarrow> bool" where
  "same_backups env fs fs' =
     (\<forall>i w t. timestamp_match t \<longrightarrow> node_at fs' (backup_dir env i w t) = node_at fs (backup_dir env i w t))"

lemma same_backups_refl [simp]: "same_backups env fs fs"
  by (simp add: same_backups_def)

lemma same_backups_trans: "same_backups env a b \<Longrightarrow> same_backups env b c \<Longrightarrow> same_backups env a c"
  by (simp add: same_backups_def)

lemma info_at_cong:
  "node_at fs' (backup_dir env i w t) = node_at fs (backup_dir env i w t) \<Longrightarrow> info_at env fs' (i, w, t) = info_at env fs (i, w, t)"
  by (simp add: info_at_def read_backup_info_def node_at_append)

lemma same_backups_keys: "same_backups env fs fs' \<Longrightarrow> backup_keys env filt fs' = backup_keys env filt fs"
  by (auto simp: same_backups_def backup_keys_def dir_at_def)

lemma same_backups_list:
  assumes "same_backups env fs fs'"
  shows "list_backups env filt fs' = list_backups env filt fs"
proof -
  have "info_at env fs' k = info_at env fs k" if "k \<in> backup_keys env filt fs" for k
    using that assms by (cases k) (auto simp: same_backups_def backup_keys_def intro: info_at_cong)
  then show ?thesis using same_backups_keys [OF assms] by (simp add: list_backups_keys key_list_spec)
qed

lemma backup_dir_not_below:
  assumes "timestamp_match t" and "\<not> timestamp_match u"
  shows "\<not> prefix (backup_dir env i w t) (backup_dir env i' w' u)"
    and "\<not> prefix (backup_dir env i' w' u @ qs) (backup_dir env i w t)"
  using assms by (auto simp: backup_dir_def)

lemma same_backups_set:
  assumes "\<not> timestamp_match u"
  shows "same_backups env fs (set_at (backup_dir env i w u @ qs) c fs)"
proof -
  have "\<not> prefix (backup_dir env i' w' t) (backup_dir env i w u @ qs)" if "timestamp_match t" for i' w' t
    using that assms by (auto simp: backup_dir_def)
  then show ?thesis
    unfolding same_backups_def using backup_dir_not_below(2) [OF _ assms] by (auto intro!: node_at_set_other)
qed

lemmas same_backups_set_dir = same_backups_set [where qs = "[]", simplified append_Nil2]

lemma same_backups_make_dirs:
  assumes "make_dirs g ps fs = Some fs'" and "prefix ps (backup_dir env i w u)" and "\<not> timestamp_match u"
  shows "same_backups env fs fs'"
  unfolding same_backups_def
  using node_at_make_dirs [OF assms(1)] backup_dir_not_below(1) [OF _ assms(3)] assms(2) prefix_order.trans by blast

text \<open>Nothing outside the backup tree is touched.\<close>

definition same_outside :: "backup_env \<Rightarrow> node \<Rightarrow> node \<Rightarrow> bool" where
  "same_outside env fs fs' =
     (\<forall>q. \<not> prefix q (backups_root env) \<longrightarrow> \<not> prefix (backups_root env) q \<longrightarrow> node_at fs' q = node_at fs q)"

lemma same_outside_refl [simp]: "same_outside env fs fs"
  by (simp add: same_outside_def)

lemma same_outside_trans: "same_outside env a b \<Longrightarrow> same_outside env b c \<Longrightarrow> same_outside env a c"
  by (simp add: same_outside_def)

lemma prefix_append_cases: "prefix q (r @ x) \<Longrightarrow> prefix q r \<or> prefix r q"
  by (metis prefixI prefix_same_cases)

lemma same_outside_set: "same_outside env fs (set_at (backup_dir env i w u @ qs) c fs)"
  unfolding same_outside_def backup_dir_def
  by (auto intro!: node_at_set_other dest: append_prefixD prefix_append_cases)

lemmas same_outside_set_dir = same_outside_set [where qs = "[]", simplified append_Nil2]

lemma same_outside_make_dirs:
  assumes "make_dirs g ps fs = Some fs'" and "prefix ps (backup_dir env i w u)"
  shows "same_outside env fs fs'"
  unfolding same_outside_def
proof (intro allI impI)
  fix q
  assume "\<not> prefix q (backups_root env)" "\<not> prefix (backups_root env) q"
  then have "\<not> prefix q ps" 
    using assms(2) prefix_append_cases prefix_order.trans unfolding backup_dir_def by blast
  then show "node_at fs' q = node_at fs q" by (rule node_at_make_dirs [OF assms(1)])
qed

definition undisturbed :: "backup_env \<Rightarrow> node \<Rightarrow> node \<Rightarrow> bool" where
  "undisturbed env fs fs' = (same_backups env fs fs' \<and> same_outside env fs fs')"

lemma undisturbed_refl [simp]: "undisturbed env fs fs"
  by (simp add: undisturbed_def)

lemma undisturbed_trans: "undisturbed env a b \<Longrightarrow> undisturbed env b c \<Longrightarrow> undisturbed env a c"
  by (auto simp: undisturbed_def intro: same_backups_trans same_outside_trans)

lemma undisturbed_set: "\<not> timestamp_match u \<Longrightarrow> undisturbed env fs (set_at (backup_dir env i w u @ qs) c fs)"
  by (simp add: undisturbed_def same_backups_set same_outside_set)

lemmas undisturbed_set_dir = undisturbed_set [where qs = "[]", simplified append_Nil2]

lemma undisturbed_make_dirs:
  "make_dirs g ps fs = Some fs' \<Longrightarrow> prefix ps (backup_dir env i w u) \<Longrightarrow> \<not> timestamp_match u \<Longrightarrow> undisturbed env fs fs'"
  by (simp add: undisturbed_def same_backups_make_dirs same_outside_make_dirs)

lemma backup_exec_fs: "bs_fs (snd (backup_exec env cmd st)) = snd (bk_spawn env cmd (sterile_env (bk_path env) []) (bs_fs st))"
  by (simp add: backup_exec_def split: prod.split)

lemma version_probe_fs:
  assumes "rsync_confined env"
  shows "bs_fs (snd (query_rsync_version env st)) = bs_fs st" "bs_fs (snd (rsync_supports_xattrs env st)) = bs_fs st"
  using assms backup_exec_fs [of env "[''rsync'', ''--version'']" st]
  by (auto simp: query_rsync_version_def rsync_supports_xattrs_def rsync_confined_def Let_def split: option.split sum.split prod.splits)

lemma rsync_cmd_dest:
  assumes "clean_parts dest" "dest \<noteq> []"
  shows "last (build_rsync_cmd src (parts_str dest) ex ex' sl xa) = parts_str dest @ ''/''"
proof -
  obtain c cs where c: "rev (parts_str dest) = c # cs" by (cases "rev (parts_str dest)") (auto simp: parts_str_def)
  then have "last (parts_str dest) = c" by (metis last_rev list.sel(1) rev_rev_ident hd_rev)
  then have "c \<noteq> CHR ''/''" using last_parts_str [OF assms] by simp
  then have "py_rstrip_chars ''/'' (parts_str dest) = parts_str dest" using c by (simp add: py_rstrip_chars_def rev_swap)
  then show ?thesis by (simp add: build_rsync_cmd_def)
qed

lemma write_backup_info_fs:
  assumes "rsync_confined env" and "write_backup_info env dir i w m sz n ts st = (r, st')"
  shows "case r of Inl _ \<Rightarrow> bs_fs st' = bs_fs st
    | Inr _ \<Rightarrow> \<exists>g body. bs_fs st' = set_at (dir @ [BACKUP_INFO_FILENAME]) (Some (NFile g body)) (bs_fs st)"
  using assms(2) version_probe_fs(1) [OF assms(1), of st]
  by (auto simp: write_backup_info_def Let_def split: option.splits prod.splits elim!: write_at_Some) blast


lemma parent_dir_at: "node_at n (ps @ [p]) = Some m \<Longrightarrow> dir_at n ps"
  by (auto simp: node_at_snoc dir_at_def split: option.splits node.splits)

lemma rsync_run_same:
  assumes "rsync_confined env" and "\<not> timestamp_match u" and "clean_parts (backup_dir env i w u)"
    and "last cmd = parts_str (backup_dir env i w u) @ ''/''" and "dir_at (bs_fs st) (backup_dir env i w u)"
  shows "undisturbed env (bs_fs st) (bs_fs (snd (backup_exec env cmd st)))"
proof -
  obtain g es where "bs_fs (snd (backup_exec env cmd st)) = set_at (backup_dir env i w u) (Some (NDir g es)) (bs_fs st)"
    using assms(1,3-5) unfolding rsync_confined_def backup_exec_fs by blast
  then show ?thesis using undisturbed_set_dir [OF assms(2)] by simp
qed

text \<open>Until the rename nothing a listing shows has changed; the rename moves one directory.\<close>

lemma do_backup_outcome:
  assumes conf: "rsync_confined env" and clean: "clean_parts (backup_dir env i w (ts @ PARTIAL_SUFFIX))"
    and u: "\<not> timestamp_match (ts @ PARTIAL_SUFFIX)"
    and cmd: "last cmd = parts_str (backup_dir env i w (ts @ PARTIAL_SUFFIX)) @ ''/''"
    and run: "do_backup env i w ts m cmd gid st = (r, st')"
  shows "case r of Inl _ \<Rightarrow> undisturbed env (bs_fs st) (bs_fs st')
    | Inr _ \<Rightarrow> \<exists>fs4 g es. undisturbed env (bs_fs st) fs4 \<and> node_at fs4 (backup_dir env i w (ts @ PARTIAL_SUFFIX)) = Some (NDir g es) \<and>
        bs_fs st' = set_at (backup_dir env i w ts) (Some (NDir g es)) (set_at (backup_dir env i w (ts @ PARTIAL_SUFFIX)) None fs4)"
proof -
  let ?p = "backup_dir env i w (ts @ PARTIAL_SUFFIX)"
  show ?thesis
  proof (cases "make_dirs (bk_gid env) ?p (bs_fs st)")
    case None
    with run show ?thesis by (auto simp: do_backup_def Let_def)
  next
    case (Some fs1)
    obtain x st2 where ex: "backup_exec env cmd (st\<lparr>bs_fs := fs1\<rparr>) = (x, st2)" by fastforce
    have s1: "undisturbed env (bs_fs st) fs1" using undisturbed_make_dirs [OF Some _ u, of env i w] by simp
    have s2: "undisturbed env (bs_fs st) (bs_fs st2)"
      using rsync_run_same [OF conf u clean cmd, of "st\<lparr>bs_fs := fs1\<rparr>"] dir_at_make_dirs [OF Some] ex
      by (auto intro: undisturbed_trans [OF s1])
    show ?thesis
    proof (cases "\<exists>e. x = Inl e \<or> node_at (bs_fs st2) ?p = None")
      case True
      with run Some ex s2 show ?thesis by (auto simp: do_backup_def Let_def split: sum.splits)
    next
      case False
      then obtain cp n where x: "x = Inr cp" and n: "node_at (bs_fs st2) ?p = Some n"
        by (cases x) (auto simp: not_None_eq)
      define st3 where "st3 = st2\<lparr>bs_fs := set_at ?p (Some (force_group (bk_chown_ok env) gid n ?p)) (bs_fs st2)\<rparr>"
      obtain sz k where sk: "tree_size_and_count (force_group (bk_chown_ok env) gid n ?p) = (sz, k)" by fastforce
      obtain y st4 where wr: "write_backup_info env ?p i w m sz k ts st3 = (y, st4)" by fastforce
      have s3: "undisturbed env (bs_fs st) (bs_fs st3)"
        using undisturbed_trans [OF s2 undisturbed_set_dir [OF u]] by (simp add: st3_def)
      have s4: "undisturbed env (bs_fs st) (bs_fs st4)"
        using write_backup_info_fs [OF conf wr] undisturbed_trans [OF s3 undisturbed_set [OF u]] s3
        by (auto split: sum.splits)
      have eq: "(r, st') = (case (y, st4) of (Inl exc, st4) \<Rightarrow> (Inl exc, st4) | (Inr _, st4) \<Rightarrow>
          (case rename_dir ?p (backup_dir env i w ts) (bs_fs st4) of
             None \<Rightarrow> (Inl BackupOSError, st4) | Some fs5 \<Rightarrow> (Inr sz, st4\<lparr>bs_fs := fs5\<rparr>)))"
        using run by (simp add: do_backup_def Let_def Some ex x n sk st3_def [symmetric] wr)
      show ?thesis
        using eq s4 by (auto split: sum.splits option.splits elim!: rename_dir_Some)
    qed
  qed
qed


lemma clean_partial: "clean_parts (backup_dir env i w ts) \<Longrightarrow> clean_parts (backup_dir env i w (ts @ PARTIAL_SUFFIX))"
  by (simp add: clean_parts_def backup_dir_def PARTIAL_SUFFIX_def)

lemma create_backup_outcome:
  assumes conf: "rsync_confined env" and clean: "clean_parts (backup_dir env i w (utc_timestamp now))"
    and run: "create_backup env i w src mode gid ex ex' now lk st = (r, st')"
  shows "case r of Inl _ \<Rightarrow> undisturbed env (bs_fs st) (bs_fs st')
    | Inr b \<Rightarrow> (\<exists>fs4 g es. undisturbed env (bs_fs st) fs4 \<and>
          node_at fs4 (backup_dir env i w (utc_timestamp now @ PARTIAL_SUFFIX)) = Some (NDir g es) \<and>
          bs_fs st' = set_at (backup_dir env i w (utc_timestamp now)) (Some (NDir g es))
            (set_at (backup_dir env i w (utc_timestamp now @ PARTIAL_SUFFIX)) None fs4)) \<and>
        b = (info_at env (bs_fs st') (i, w, utc_timestamp now))\<lparr>bi_size := bi_size b\<rparr>"
proof -
  let ?ts = "utc_timestamp now"
  let ?p = "backup_dir env i w (?ts @ PARTIAL_SUFFIX)"
  show ?thesis
  proof (cases "dir_at (bs_fs st) (path_parts (bk_realpath env src))")
    case False
    with run show ?thesis by (auto simp: create_backup_def Let_def)
  next
    case src: True
    show ?thesis
    proof (cases "make_dirs (bk_gid env) (butlast ?p) (bs_fs st)")
      case None
      with run src show ?thesis by (auto simp: create_backup_def Let_def)
    next
      case (Some fs1)
      obtain xa st2 where xa: "rsync_supports_xattrs env (st\<lparr>bs_fs := fs1\<rparr>) = (xa, st2)" by fastforce
      define sl where "sl = length (scan_unsafe_symlinks (bk_realpath env) fs1 (bk_realpath env src))"
      define m where "m = \<lparr>bm_bootstrap_mode = mode, bm_source_path = bk_realpath env src, bm_excludes = ex, bm_stripped = sl, bm_xattrs = xa\<rparr>"
      define cmd where "cmd = build_rsync_cmd (bk_realpath env src) (parts_str ?p) ex ex' (sl > 0) xa"
      obtain y st3 where d: "do_backup env i w ?ts m cmd gid st2 = (y, st3)" by fastforce
      have "prefix (butlast ?p) ?p" by (simp add: prefixeq_butlast)
      then have s1: "undisturbed env (bs_fs st) (bs_fs st2)"
        using undisturbed_make_dirs [OF Some _ partial_no_match, of env i w] version_probe_fs(2) [OF conf, of "st\<lparr>bs_fs := fs1\<rparr>"] xa
        by simp
      have cl: "clean_parts ?p" by (rule clean_partial [OF clean])
      have "last cmd = parts_str ?p @ ''/''" unfolding cmd_def by (rule rsync_cmd_dest [OF cl]) (simp add: backup_dir_def)
      note out = do_backup_outcome [OF conf cl partial_no_match this d]
      have eq: "(r, st') = (if lk \<and> \<not> bk_lock_free env i then (Inl (BackupLockHeldError i), st2)
          else case (y, st3) of (Inl exc, st3) \<Rightarrow> (Inl exc, st3)
             | (Inr sz, st3) \<Rightarrow> (Inr \<lparr>bi_path = backup_dir env i w ?ts, bi_instance = i, bi_workspace = w, bi_timestamp = ?ts,
                   bi_size = sz, bi_metadata = read_backup_info env (bs_fs st3) (backup_dir env i w ?ts)\<rparr>, st3))"
        using run src d [unfolded m_def cmd_def]
        by (auto simp: create_backup_def Let_def Some xa sl_def [symmetric] split: if_splits)
      show ?thesis
      proof (cases "\<exists>e. r = Inl e")
        case True
        then show ?thesis using eq out s1 by (auto split: if_splits sum.splits intro: undisturbed_trans)
      next
        case False
        then obtain b where b: "r = Inr b" by (cases r) auto
        then show ?thesis
          using eq out s1 by (auto simp: info_at_def Let_def split: if_splits sum.splits intro: undisturbed_trans)
      qed
    qed
  qed
qed

lemma create_backup_adds:
  assumes "rsync_confined env" and "clean_parts (backup_dir env i w (utc_timestamp now))"
    and "create_backup env i w src mode gid ex ex' now lk st = (Inr b, st')"
  shows "backup_keys env no_filter (bs_fs st') = insert (i, w, utc_timestamp now) (backup_keys env no_filter (bs_fs st)) \<and>
    (\<forall>k \<in> backup_keys env no_filter (bs_fs st) - {(i, w, utc_timestamp now)}.
       info_at env (bs_fs st') k = info_at env (bs_fs st) k) \<and>
    b = (info_at env (bs_fs st') (i, w, utc_timestamp now))\<lparr>bi_size := bi_size b\<rparr>"
proof -
  let ?ts = "utc_timestamp now"
  let ?f = "backup_dir env i w ?ts"
  obtain fs4 g es where same: "same_backups env (bs_fs st) fs4"
    and part: "node_at fs4 (backup_dir env i w (?ts @ PARTIAL_SUFFIX)) = Some (NDir g es)"
    and fs': "bs_fs st' = set_at ?f (Some (NDir g es)) (set_at (backup_dir env i w (?ts @ PARTIAL_SUFFIX)) None fs4)"
    and b: "b = (info_at env (bs_fs st') (i, w, ?ts))\<lparr>bi_size := bi_size b\<rparr>"
    using create_backup_outcome [OF assms] by (auto simp: undisturbed_def)
  let ?fs5 = "set_at (backup_dir env i w (?ts @ PARTIAL_SUFFIX)) None fs4"
  have same5: "same_backups env (bs_fs st) ?fs5"
    by (rule same_backups_trans [OF same same_backups_set_dir [OF partial_no_match]])
  have "dir_at fs4 (backups_root env @ [i, w])"
    using parent_dir_at [of fs4 "backups_root env @ [i, w]"] part by (simp add: backup_dir_def)
  then have "dir_at ?fs5 (backups_root env @ [i, w])" by (subst dir_at_set_above) (auto simp: backup_dir_def strict_prefix_def)
  then have new: "node_at (bs_fs st') ?f = Some (NDir g es)"
    using node_at_set_same [of ?fs5 "backups_root env @ [i, w]" ?ts "Some (NDir g es)" "[]"] by (simp add: fs' backup_dir_def)
  have old: "node_at (bs_fs st') (backup_dir env i' w' t) = node_at (bs_fs st) (backup_dir env i' w' t)"
    if "timestamp_match t" "(i', w', t) \<noteq> (i, w, ?ts)" for i' w' t
  proof -
    have "node_at (bs_fs st') (backup_dir env i' w' t) = node_at ?fs5 (backup_dir env i' w' t)"
      unfolding fs' using that(2) by (intro node_at_set_other) (auto simp: backup_dir_def)
    then show ?thesis using same5 that(1) by (simp add: same_backups_def)
  qed
  have nf: "\<not> filtered_out (bf_instance no_filter) x" "\<not> filtered_out (bf_workspace no_filter) x" for x
    by (simp_all add: no_filter_def filtered_out_def)
  have "k \<in> backup_keys env no_filter (bs_fs st') \<longleftrightarrow> k \<in> insert (i, w, ?ts) (backup_keys env no_filter (bs_fs st))" for k
  proof (cases "k = (i, w, ?ts)")
    case True
    then show ?thesis using new utc_timestamp_match [of now] by (simp add: backup_keys_def nf dir_at_def)
  next
    case False
    obtain i' w' t where k: "k = (i', w', t)" by (rule prod_cases3)
    show ?thesis using False old [of t i' w'] by (auto simp: k backup_keys_def nf dir_at_def)
  qed
  moreover have "info_at env (bs_fs st') k = info_at env (bs_fs st) k"
    if "k \<in> backup_keys env no_filter (bs_fs st) - {(i, w, ?ts)}" for k
    using that old by (cases k) (auto simp: backup_keys_def intro: info_at_cong)
  ultimately show ?thesis using b by auto
qed

section \<open>Properties\<close>

text \<open>Claim C26: a backup appears whole or not at all. When \<open>rsync\<close> writes only below its destination, a creation that fails, at
  whichever step, leaves every listing as it was: what it wrote stays under a name that is not listed. A creation
  that succeeds adds exactly its own backup, leaves the others as they were, and returns what the listing will show
  (up to the size, which is taken before the metadata file is written).\<close>

theorem create_backup_atomic:
  assumes "rsync_confined env" and "clean_parts (backup_dir env i w (utc_timestamp now))"
    and "create_backup env i w src mode gid ex ex' now lk st = (r, st')"
  shows "case r of
      Inl e \<Rightarrow> list_backups env filt (bs_fs st') = list_backups env filt (bs_fs st)
    | Inr b \<Rightarrow>
        backup_keys env no_filter (bs_fs st') = insert (i, w, utc_timestamp now) (backup_keys env no_filter (bs_fs st)) \<and>
        (\<forall>k \<in> backup_keys env no_filter (bs_fs st) - {(i, w, utc_timestamp now)}.
           info_at env (bs_fs st') k = info_at env (bs_fs st) k) \<and>
        b = (info_at env (bs_fs st') (i, w, utc_timestamp now))\<lparr>bi_size := bi_size b\<rparr>"
proof (cases r)
  case (Inl e)
  then show ?thesis using create_backup_outcome [OF assms] same_backups_list by (simp add: undisturbed_def)
next
  case (Inr b)
  then show ?thesis using create_backup_adds assms by simp
qed

text \<open>Claim C28: the listing is the abstract catalogue. Whatever the file system holds below the backup root, the listing is
  the set of completed backups the filter admits (directories three levels down whose name is a timestamp), each
  once, in the order of instance, workspace and timestamp, each with its size and metadata.\<close>

theorem list_backups_refines:
  "list_backups env filt fs = map (info_at env fs) (sorted_list_of_set (backup_keys env filt fs))"
  by (simp add: list_backups_keys key_list_spec)

text \<open>The backups of one pair, and the last of them.\<close>

lemma backup_keys_pair:
  assumes "i \<noteq> []" "w \<noteq> []"
  shows "backup_keys env \<lparr>bf_instance = Some i, bf_workspace = Some w\<rparr> fs =
    (\<lambda>t. (i, w, t)) ` {t. (i, w, t) \<in> backup_keys env no_filter fs}"
  using assms by (auto simp: backup_keys_def filtered_out_def no_filter_def)

lemma Max_pair_keys:
  fixes T :: "string set"
  assumes "finite T" "T \<noteq> {}"
  shows "Max ((\<lambda>t. (i :: string, w :: string, t)) ` T) = (i, w, Max T)"
  using assms by (intro Max_eqI) auto

lemma finite_pair_keys: "finite {t. (i, w, t) \<in> backup_keys env filt fs}"
  by (rule finite_subset [of _ "(\<lambda>k. snd (snd k)) ` backup_keys env filt fs"]) (auto intro: rev_image_eqI)

lemma last_pair_backup:
  assumes "i \<noteq> []" "w \<noteq> []"
    and "(i, w, t) \<in> backup_keys env no_filter fs"
  shows "list_backups env \<lparr>bf_instance = Some i, bf_workspace = Some w\<rparr> fs \<noteq> []"
    and "last (list_backups env \<lparr>bf_instance = Some i, bf_workspace = Some w\<rparr> fs) =
      info_at env fs (i, w, Max {t. (i, w, t) \<in> backup_keys env no_filter fs})"
proof -
  let ?T = "{t. (i, w, t) \<in> backup_keys env no_filter fs}"
  let ?K = "backup_keys env \<lparr>bf_instance = Some i, bf_workspace = Some w\<rparr> fs"
  have T: "finite ?T" "?T \<noteq> {}" using finite_pair_keys assms(3) by auto
  have K: "?K = (\<lambda>t. (i, w, t)) ` ?T" by (rule backup_keys_pair [OF assms(1,2)])
  have ne: "?K \<noteq> {}" unfolding K using T(2) by simp
  have "sorted_list_of_set ?K \<noteq> []" using ne by (simp add: sorted_list_of_set_eq_Nil_iff)
  then show "list_backups env \<lparr>bf_instance = Some i, bf_workspace = Some w\<rparr> fs \<noteq> []"
    and "last (list_backups env \<lparr>bf_instance = Some i, bf_workspace = Some w\<rparr> fs) = info_at env fs (i, w, Max ?T)"
    using last_sorted_list [OF finite_backup_keys ne] Max_pair_keys [OF T]
    by (simp_all add: list_backups_keys key_list_spec last_map K)
qed

text \<open>Claim C29: a pair given to \<open>--from\<close> means its latest backup. For two plain names the resolution succeeds if and only if
  the pair has a completed backup, and the one it returns is a completed backup of that pair such that no
  backup of the pair was taken later.\<close>

theorem resolve_backup_latest:
  assumes "i \<noteq> []" "w \<noteq> []" "CHR ''/'' \<notin> set i" "CHR ''/'' \<notin> set w"
  shows "((\<exists>b. resolve_backup_spec env (Some (i @ ''/'' @ w)) dest fs = Inr b) \<longleftrightarrow> (\<exists>t. (i, w, t) \<in> backup_keys env no_filter fs)) \<and>
    (\<forall>b. resolve_backup_spec env (Some (i @ ''/'' @ w)) dest fs = Inr b \<longrightarrow>
      (\<exists>t. (i, w, t) \<in> backup_keys env no_filter fs \<and> b = info_at env fs (i, w, t)) \<and>
      (\<forall>d d'. valid_datetime d \<longrightarrow> valid_datetime d' \<longrightarrow> bi_timestamp b = utc_timestamp d \<longrightarrow>
         (i, w, utc_timestamp d') \<in> backup_keys env no_filter fs \<longrightarrow> \<not> datetime_key d < datetime_key d'))"
proof -
  let ?L = "list_backups env \<lparr>bf_instance = Some i, bf_workspace = Some w\<rparr> fs"
  let ?T = "{t. (i, w, t) \<in> backup_keys env no_filter fs}"
  have split: "py_split CHR ''/'' (i @ ''/'' @ w) = [i, w]"
    using assms(3,4) by (simp add: py_split_append py_split_free)
  have res: "resolve_backup_spec env (Some (i @ ''/'' @ w)) dest fs =
      (if ?L = [] then Inl (BackupSpecNotFoundError (''no backups found for '' @ i @ ''/'' @ w)) else Inr (last ?L))"
    unfolding resolve_backup_spec_def by (simp add: split [simplified])
  have empty: "?L = [] \<longleftrightarrow> ?T = {}"
    using finite_pair_keys [of i w env no_filter fs]
    by (simp add: list_backups_keys key_list_spec sorted_list_of_set_eq_Nil_iff backup_keys_pair [OF assms(1,2)])
  then have found: "(\<exists>b. resolve_backup_spec env (Some (i @ ''/'' @ w)) dest fs = Inr b) \<longleftrightarrow> (\<exists>t. (i, w, t) \<in> backup_keys env no_filter fs)"
    unfolding res by auto
  have latest: "(\<exists>t. (i, w, t) \<in> backup_keys env no_filter fs \<and> b = info_at env fs (i, w, t)) \<and>
      (\<forall>d d'. valid_datetime d \<longrightarrow> valid_datetime d' \<longrightarrow> bi_timestamp b = utc_timestamp d \<longrightarrow>
         (i, w, utc_timestamp d') \<in> backup_keys env no_filter fs \<longrightarrow> \<not> datetime_key d < datetime_key d')"
    if "resolve_backup_spec env (Some (i @ ''/'' @ w)) dest fs = Inr b" for b
  proof -
    from that [unfolded res] have "?T \<noteq> {}" and b: "b = last ?L" using empty by (auto split: if_splits)
    then obtain t where "t \<in> ?T" by auto
    then have b: "b = info_at env fs (i, w, Max ?T)" using last_pair_backup(2) [OF assms(1,2)] b by simp
    have Max: "Max ?T \<in> ?T" "\<And>t. t \<in> ?T \<Longrightarrow> t \<le> Max ?T" 
      using Max_in [OF finite_pair_keys \<open>?T \<noteq> {}\<close>] Max_ge [OF finite_pair_keys] by blast+
    have ts: "bi_timestamp b = Max ?T" by (simp add: b info_at_def Let_def)
    show ?thesis
      using b Max ts utc_timestamp_less by (metis (no_types, lifting) leD mem_Collect_eq)
  qed
  show ?thesis using found latest by blast
qed


section \<open>Backup and restore\<close>

text \<open>A run of \<open>rsync\<close> that mirrors a tree into any destination it is given.\<close>

definition rsync_mirrors :: "backup_env \<Rightarrow> node \<Rightarrow> bool" where
  "rsync_mirrors env content =
     (is_real_dir content \<and>
      (\<forall>cmd e fs dest. clean_parts dest \<longrightarrow> last cmd = parts_str dest @ ''/'' \<longrightarrow> dir_at fs dest \<longrightarrow>
         (\<exists>out err. bk_spawn env cmd e fs = (Completed 0 out err, set_at dest (Some content) fs))) \<and>
      (\<forall>e fs. snd (bk_spawn env [''rsync'', ''--version''] e fs) = fs))"

lemma rsync_mirrors_confined: "rsync_mirrors env content \<Longrightarrow> rsync_confined env"
  unfolding rsync_mirrors_def rsync_confined_def by (metis is_real_dirE snd_conv)

lemma copy_tree_force_group: "copy_tree g (force_group ok gid n path) = copy_tree g n"
proof (induction n arbitrary: path)
  case (NDir k es)
  then show ?case by (auto simp: case_prod_beta comp_def intro!: arg_cong [where f = "filter _"] map_cong)
qed simp_all

lemma copy_tree_info: "copy_tree g (NDir k (dict_set BACKUP_INFO_FILENAME f es)) = copy_tree g (NDir k es)"
  unfolding dict_set_def by (induction es) auto

lemma force_group_entries:
  "force_group ok gid (NDir k es) path =
     NDir (if ok path then gid else k) (map (\<lambda>(name, c). (name, force_group ok gid c (path @ [name]))) es)"
  by (simp add: case_prod_beta comp_def)

lemma map_of_force_group: "map_of (map (\<lambda>(name, c). (name, f name c)) es) k = map_option (f k) (map_of es k)"
  by (induction es) auto

lemma follow_clean: "dir_at fs (cur @ ps) \<Longrightarrow> ''..'' \<notin> set ps \<Longrightarrow> follow_path fs cur ps = Some (cur @ ps)"
proof (induction ps arbitrary: cur)
  case (Cons p ps)
  then have "dir_at fs (cur @ [p])" using dir_at_prefix [of fs "cur @ [p]" ps] by simp
  moreover have "p \<noteq> ''..''" using Cons.prems(2) by auto
  ultimately show ?case using Cons by simp
qed simp

text \<open>The last two steps of the recipe.\<close>

lemma finish_backup:
  assumes conf: "rsync_confined env" and now: "valid_datetime now"
    and part: "node_at (bs_fs st) (r @ [u]) = Some (NDir k es)" and info: "map_of es BACKUP_INFO_FILENAME = None"
    and free: "node_at (bs_fs st) (r @ [t]) = None"
  shows "\<exists>st' fs' body. write_backup_info env (r @ [u]) i w m sz c (utc_timestamp now) st = (Inr (), st') \<and>
    rename_dir (r @ [u]) (r @ [t]) (bs_fs st') = Some fs' \<and>
    node_at fs' (r @ [t]) = Some (NDir k (dict_set BACKUP_INFO_FILENAME (NFile (bk_gid env) body) es))"
proof -
  have tu: "t \<noteq> u" using part free by auto
  obtain v st1 where q: "query_rsync_version env st = (v, st1)" by fastforce
  have fs1: "bs_fs st1 = bs_fs st" using version_probe_fs(1) [OF conf, of st] q by simp
  have created: "strptime TIMESTAMP_FORMAT (utc_timestamp now) = Some now"
    unfolding utc_timestamp_def by (rule strptime_strftime [OF now]) simp
  define body where "body = jc_dumps (bk_json env) (backup_payload env i w m sz c now v)"
  define fs2 where "fs2 = set_at ((r @ [u]) @ [BACKUP_INFO_FILENAME]) (Some (NFile (bk_gid env) body)) (bs_fs st)"
  let ?n = "NDir k (dict_set BACKUP_INFO_FILENAME (NFile (bk_gid env) body) es)"
  have "node_at (bs_fs st) ((r @ [u]) @ [BACKUP_INFO_FILENAME]) = None" by (subst node_at_snoc) (simp add: part info)
  then have wr: "write_backup_info env (r @ [u]) i w m sz c (utc_timestamp now) st = (Inr (), st1\<lparr>bs_fs := fs2\<rparr>)"
    using part by (simp add: write_backup_info_def created q Let_def fs1 body_def [symmetric] write_at_def fs2_def dir_at_def butlast_append)
  have n2: "node_at fs2 (r @ [u]) = Some ?n" unfolding fs2_def using node_at_set_parent [OF part] by simp
  have d2: "dir_at fs2 r" using n2 by (rule parent_dir_at)
  have f2: "node_at fs2 (r @ [t]) = None"
    unfolding fs2_def using free tu by (subst node_at_set_other) auto
  have "dir_at (set_at (r @ [u]) None fs2) r" using d2 by (simp add: dir_at_set_above strict_prefix_def)
  then have "node_at (set_at (r @ [t]) (Some ?n) (set_at (r @ [u]) None fs2)) (r @ [t]) = Some ?n"
    using node_at_set_same [of "set_at (r @ [u]) None fs2" r t "Some ?n" "[]"] by simp
  moreover have "rename_dir (r @ [u]) (r @ [t]) fs2 = Some (set_at (r @ [t]) (Some ?n) (set_at (r @ [u]) None fs2))"
    using n2 f2 d2 by (simp add: rename_dir_def)
  ultimately show ?thesis using wr by auto
qed

text \<open>The recipe succeeds when the mirror does, the names are free and the tree has no metadata entry of its own.\<close>

lemma do_backup_succeeds:
  assumes mir: "rsync_mirrors env (NDir k es)" and info: "map_of es BACKUP_INFO_FILENAME = None"
    and clean: "clean_parts (backup_dir env i w (utc_timestamp now))" and now: "valid_datetime now"
    and cmd: "last cmd = parts_str (backup_dir env i w (utc_timestamp now @ PARTIAL_SUFFIX)) @ ''/''"
    and parent: "dir_at (bs_fs st) (backups_root env @ [i, w])"
    and free: "node_at (bs_fs st) (backup_dir env i w (utc_timestamp now @ PARTIAL_SUFFIX)) = None"
      "node_at (bs_fs st) (backup_dir env i w (utc_timestamp now)) = None"
  shows "\<exists>sz st' n. do_backup env i w (utc_timestamp now) m cmd gid st = (Inr sz, st') \<and>
    node_at (bs_fs st') (backup_dir env i w (utc_timestamp now)) = Some n \<and> is_real_dir n \<and>
    (\<forall>g. copy_tree g n = copy_tree g (NDir k es))"
proof -
  let ?ts = "utc_timestamp now" and ?r = "backups_root env @ [i, w]"
  let ?p = "backup_dir env i w (?ts @ PARTIAL_SUFFIX)" and ?f = "backup_dir env i w ?ts"
  have p: "?p = ?r @ [?ts @ PARTIAL_SUFFIX]" and f: "?f = ?r @ [?ts]" by (simp_all add: backup_dir_def)
  have cl: "clean_parts ?p" by (rule clean_partial [OF clean])
  obtain fs1 where fs1: "make_dirs (bk_gid env) ?p (bs_fs st) = Some fs1"
    using make_dirs_snoc [OF parent] free(1) p by (metis not_None_eq)
  obtain out err where sp: "bk_spawn env cmd (sterile_env (bk_path env) []) fs1 = (Completed 0 out err, set_at ?p (Some (NDir k es)) fs1)"
    using mir cl cmd dir_at_make_dirs [OF fs1] unfolding rsync_mirrors_def by blast
  define n3 where "n3 = force_group (bk_chown_ok env) gid (NDir k es) ?p"
  define st2 where "st2 = st\<lparr>bs_fs := set_at ?p (Some (NDir k es)) fs1\<rparr>"
  define st3 where "st3 = st2\<lparr>bs_fs := set_at ?p (Some n3) (bs_fs st2)\<rparr>"
  obtain cp where ex: "backup_exec env cmd (st\<lparr>bs_fs := fs1\<rparr>) = (Inr cp, st2)"
    by (simp add: backup_exec_def sp executor_run_def checked_spawn_def backup_opts_def Let_def st2_def)
  have r1: "dir_at fs1 ?r" using dir_at_make_dirs [OF fs1] dir_at_prefix p by metis
  have r2: "dir_at (bs_fs st2) ?r" using r1 by (simp add: st2_def p dir_at_set_above strict_prefix_def)
  have n2: "node_at (bs_fs st2) ?p = Some (NDir k es)"
    using node_at_set_same [OF r1, of "?ts @ PARTIAL_SUFFIX" "Some (NDir k es)" "[]"] by (simp add: st2_def p)
  obtain k3 es3 where n3: "n3 = NDir k3 es3" and i3: "map_of es3 BACKUP_INFO_FILENAME = None"
    using that info unfolding n3_def force_group_entries by (simp add: map_of_force_group)
  have p3: "node_at (bs_fs st3) (?r @ [?ts @ PARTIAL_SUFFIX]) = Some (NDir k3 es3)"
    using node_at_set_same [OF r2, of "?ts @ PARTIAL_SUFFIX" "Some n3" "[]"] by (simp add: st3_def p n3)
  have "node_at fs1 ?f = None" using node_at_make_dirs [OF fs1, of ?f] free(2) by (simp add: backup_dir_def PARTIAL_SUFFIX_def)
  then have f3: "node_at (bs_fs st3) (?r @ [?ts]) = None"
    by (simp add: st3_def st2_def backup_dir_def node_at_set_other PARTIAL_SUFFIX_def)
  obtain sz c where sc: "tree_size_and_count n3 = (sz, c)" by fastforce
  obtain st4 fs5 body where fin: "write_backup_info env ?p i w m sz c ?ts st3 = (Inr (), st4)"
      "rename_dir ?p ?f (bs_fs st4) = Some fs5"
      "node_at fs5 ?f = Some (NDir k3 (dict_set BACKUP_INFO_FILENAME (NFile (bk_gid env) body) es3))"
    using finish_backup [OF rsync_mirrors_confined [OF mir] now p3 i3 f3] p f by metis
  have "do_backup env i w ?ts m cmd gid st = (Inr sz, st4\<lparr>bs_fs := fs5\<rparr>)"
    by (simp add: do_backup_def Let_def fs1 ex n2 n3_def [symmetric] st3_def [symmetric] sc fin
        del: force_group.simps tree_size_and_count.simps)
  moreover have "copy_tree g (NDir k3 (dict_set BACKUP_INFO_FILENAME (NFile (bk_gid env) body) es3)) = copy_tree g (NDir k es)" for g
    using copy_tree_force_group [of g "bk_chown_ok env" gid "NDir k es" ?p] by (simp only: copy_tree_info n3 [symmetric] n3_def)
  ultimately show ?thesis using fin(3) by fastforce
qed

lemma create_backup_succeeds:
  assumes mir: "rsync_mirrors env (NDir k es)" and info: "map_of es BACKUP_INFO_FILENAME = None"
    and clean: "clean_parts (backup_dir env i w (utc_timestamp now))" and now: "valid_datetime now"
    and src: "dir_at (bs_fs st) (path_parts (bk_realpath env src))" and lock: "lk \<longrightarrow> bk_lock_free env i"
    and room: "make_dirs (bk_gid env) (backups_root env @ [i, w]) (bs_fs st) \<noteq> None"
    and free: "node_at (bs_fs st) (backup_dir env i w (utc_timestamp now @ PARTIAL_SUFFIX)) = None"
      "node_at (bs_fs st) (backup_dir env i w (utc_timestamp now)) = None"
  obtains b st' n where "create_backup env i w src mode gid ex ex' now lk st = (Inr b, st')"
    "bi_path b = backup_dir env i w (utc_timestamp now)"
    "node_at (bs_fs st') (backup_dir env i w (utc_timestamp now)) = Some n" "is_real_dir n"
    "\<And>g. copy_tree g n = copy_tree g (NDir k es)"
proof -
  let ?ts = "utc_timestamp now" and ?r = "backups_root env @ [i, w]"
  let ?p = "backup_dir env i w (?ts @ PARTIAL_SUFFIX)" and ?f = "backup_dir env i w ?ts"
  have pr: "butlast ?p = ?r" by (simp add: backup_dir_def butlast_append)
  obtain fs1 where fs1: "make_dirs (bk_gid env) ?r (bs_fs st) = Some fs1" using room by auto
  obtain xa st2 where xa: "rsync_supports_xattrs env (st\<lparr>bs_fs := fs1\<rparr>) = (xa, st2)" by fastforce
  have fs2: "bs_fs st2 = fs1"
    using version_probe_fs(2) [OF rsync_mirrors_confined [OF mir], of "st\<lparr>bs_fs := fs1\<rparr>"] xa by simp
  define sl where "sl = length (scan_unsafe_symlinks (bk_realpath env) fs1 (bk_realpath env src))"
  define m where "m = \<lparr>bm_bootstrap_mode = mode, bm_source_path = bk_realpath env src, bm_excludes = ex, bm_stripped = sl, bm_xattrs = xa\<rparr>"
  define cmd where "cmd = build_rsync_cmd (bk_realpath env src) (parts_str ?p) ex ex' (sl > 0) xa"
  have last: "last cmd = parts_str ?p @ ''/''"
    unfolding cmd_def by (rule rsync_cmd_dest [OF clean_partial [OF clean]]) (simp add: backup_dir_def)
  have d: "dir_at (bs_fs st2) ?r" using dir_at_make_dirs [OF fs1] fs2 by simp
  have n: "node_at (bs_fs st2) ?p = None" "node_at (bs_fs st2) ?f = None"
    using node_at_make_dirs [OF fs1] free by (simp_all add: fs2 backup_dir_def)
  obtain sz st' nd where "do_backup env i w ?ts m cmd gid st2 = (Inr sz, st')"
    "node_at (bs_fs st') ?f = Some nd" "is_real_dir nd" "\<And>g. copy_tree g nd = copy_tree g (NDir k es)"
    using do_backup_succeeds [OF mir info clean now last d n] by blast
  then show thesis
    using that src lock by (simp add: create_backup_def Let_def pr fs1 xa sl_def [symmetric] m_def [symmetric] cmd_def [symmetric])
qed

lemma create_backup_outside:
  assumes "rsync_confined env" and "clean_parts (backup_dir env i w (utc_timestamp now))"
    and "create_backup env i w src mode gid ex ex' now lk st = (r, st')"
  shows "same_outside env (bs_fs st) (bs_fs st')"
  using create_backup_outcome [OF assms]
  by (cases r) (auto simp: undisturbed_def, meson same_outside_set_dir same_outside_trans)



subsection \<open>A host\<close>

definition sample_tree :: node where
  "sample_tree = NDir 1000 [(''a'', NFile 1000 ''x'')]"

definition sample_spawn :: "string list \<Rightarrow> (string, string) dict \<Rightarrow> node \<Rightarrow> spawn_result \<times> node" where
  "sample_spawn cmd e fs =
     (if cmd = [''rsync'', ''--version''] then (Completed 0 (Some ''rsync  version 3.2.7'') None, fs)
      else let d = butlast (last cmd)
           in (Completed 0 (Some []) None, set_at (if d = ''/'' then [] else tl (py_split CHR ''/'' d)) (Some sample_tree) fs))"

definition sample_backup_env :: backup_env where
  "sample_backup_env = \<lparr>bk_home = [''h''], bk_realpath = id, bk_gid = 1000, bk_chown_ok = (\<lambda>_. True), bk_json = sample_codec,
     bk_version = None, bk_path = None, bk_spawn = sample_spawn, bk_lock_free = (\<lambda>_. True)\<rparr>"

definition sample_fs :: "(string \<times> node) list \<Rightarrow> node" where
  "sample_fs backups = NDir 0 [(''h'', NDir 1000 [(''workspaces'', NDir 1000 [(''dev'', NDir 1000 [(''main'', sample_tree)]),
     (''_backups'', NDir 1000 [(''dev'', NDir 1000 [(''main'', NDir 1000 backups)])])])])]"

definition sample_backup_state :: backup_state where
  "sample_backup_state = \<lparr>bs_fs = sample_fs [], bs_xattrs = None, bs_version = None\<rparr>"

definition late :: datetime where
  "late = (fst noon)\<lparr>dt_hour := 13\<rparr>"

lemma split_parts_str: "clean_parts ps \<Longrightarrow> ps \<noteq> [] \<Longrightarrow> tl (py_split CHR ''/'' (parts_str ps)) = ps"
  using py_split_join [of ps "CHR ''/''"] by (simp add: parts_str_def clean_parts_def list_all_iff)

lemma sample_mirrors: "rsync_mirrors sample_backup_env sample_tree"
proof -
  have "last [''rsync'', ''--version''] \<noteq> parts_str dest @ ''/''" for dest by (simp add: parts_str_def)
  then have "cmd \<noteq> [''rsync'', ''--version'']" if "last cmd = parts_str dest @ ''/''" for cmd dest using that by blast
  moreover have "parts_str dest = ''/'' \<longleftrightarrow> dest = []" if "clean_parts dest" for dest using parts_str_root [OF that] .
  ultimately show ?thesis
    by (auto simp: rsync_mirrors_def sample_backup_env_def sample_spawn_def Let_def split_parts_str sample_tree_def)
qed

lemma sample_backup_clean: "clean_parts (backup_dir sample_backup_env ''dev'' ''main'' (utc_timestamp late))"
  by code_simp

lemma late_valid: "valid_datetime late"
  by code_simp


theorem create_backup_atomic_witness:
  "\<exists>b st'. create_backup sample_backup_env ''dev'' ''main'' ''/h/workspaces/dev/main'' ''copy'' 1000 [] [] late True sample_backup_state = (Inr b, st') \<and>
    backup_keys sample_backup_env no_filter (bs_fs st') =
      insert (''dev'', ''main'', utc_timestamp late) (backup_keys sample_backup_env no_filter (bs_fs sample_backup_state))"
proof -
  let ?r = "create_backup sample_backup_env ''dev'' ''main'' ''/h/workspaces/dev/main'' ''copy'' 1000 [] [] late True sample_backup_state"
  have "is_ok (fst ?r)" by code_simp
  then obtain b st' where "?r = (Inr b, st')" by (metis is_ok_iff prod.collapse)
  with create_backup_atomic [OF rsync_mirrors_confined [OF sample_mirrors] sample_backup_clean this] show ?thesis by auto
qed

theorem resolve_backup_latest_witness:
  "\<exists>b t. resolve_backup_spec sample_backup_env (Some ''dev/main'') ''main''
      (sample_fs [(utc_timestamp late, sample_tree), (utc_timestamp (fst noon), sample_tree)]) = Inr b \<and>
    b = info_at sample_backup_env (sample_fs [(utc_timestamp late, sample_tree), (utc_timestamp (fst noon), sample_tree)])
      (''dev'', ''main'', t)"
proof -
  let ?fs = "sample_fs [(utc_timestamp late, sample_tree), (utc_timestamp (fst noon), sample_tree)]"
  have "dir_at ?fs (backup_dir sample_backup_env ''dev'' ''main'' (utc_timestamp late))" by code_simp
  then have "(''dev'', ''main'', utc_timestamp late) \<in> backup_keys sample_backup_env no_filter ?fs"
    by (simp add: backup_keys_def utc_timestamp_match no_filter_def filtered_out_def)
  then show ?thesis
    using resolve_backup_latest [of "''dev''" "''main''" sample_backup_env "''main''" ?fs] by simp blast
qed


text \<open>The fully qualified form is not confined to the backup tree: \<open>..\<close> in it leads to live workspaces.\<close>

lemma resolve_spec_leaves_tree:
  "is_ok (resolve_backup_spec sample_backup_env (Some (''../dev/'' @ utc_timestamp late)) ''main''
    (NDir 0 [(''h'', NDir 0 [(''workspaces'', NDir 0 [(''_backups'', NDir 0 []), (''dev'', NDir 0 [(utc_timestamp late, sample_tree)])])])]))"
  by code_simp


end
