(* ===== verification/Instance_Cli.thy ===== *)
theory Instance_Cli
  imports Workspace_Backups Invoke Registry Instance_Config Walker
begin

text \<open>
  What the instance and workspace commands of \<open>src/src/cli/main.py\<close> share: the rules for names, the workspace
  flags, the checks on a copy source, the lookup and loading of an instance and the query for running
  containers. A command ends in one of four ways: it returns, it exits with code 1 after a message, the
  option parser reports a usage error, or an exception escapes.
\<close>

datatype 'a cmd_result = Done 'a | Exit1 string | UsageError string | Traceback string

definition bindC :: "'a cmd_result \<Rightarrow> ('a \<Rightarrow> 'b cmd_result) \<Rightarrow> 'b cmd_result" where
  "bindC m f = (case m of Done a \<Rightarrow> f a | Exit1 s \<Rightarrow> Exit1 s | UsageError s \<Rightarrow> UsageError s | Traceback s \<Rightarrow> Traceback s)"

definition checkC :: "bool \<Rightarrow> unit cmd_result \<Rightarrow> unit cmd_result" where
  "checkC b fail = (if b then Done () else fail)"

section \<open>Names\<close>

definition RESERVED_NAMES :: "string list" where
  "RESERVED_NAMES = [''_backups'', ''default'', ''all'', ''none'', ''system'', ''isolated'', ''core_proxy'', ''dns'', ''egress'', ''ipc'']"

definition WORKSPACE_NAME_MAX :: nat where
  "WORKSPACE_NAME_MAX = 32"

definition name_first :: "char \<Rightarrow> bool" where
  "name_first c = (c \<in> set lower_letters \<or> c \<in> set digit_chars)"

definition name_rest :: "char \<Rightarrow> bool" where
  "name_rest c = (name_first c \<or> c \<in> set ''_-'')"

definition name_match :: "string \<Rightarrow> bool" where
  "name_match s = (case re_dollar_body s of [] \<Rightarrow> False | c # cs \<Rightarrow> name_first c \<and> list_all name_rest cs)"

definition validate_name :: "string \<Rightarrow> string \<Rightarrow> nat \<Rightarrow> unit cmd_result" where
  "validate_name name kind max_len =
     (if name = [] then UsageError (kind @ '' name must not be empty'')
      else if length name > max_len then UsageError (kind @ '' name '' @ py_repr name @ '' exceeds '' @ nat_str max_len @ ''-character cap'')
      else if prefix ''-'' name \<or> prefix ''_'' name
        then UsageError (kind @ '' name '' @ py_repr name @ '' must not start with '' @ sq ''-'' @ '' or '' @ sq ''_'')
      else if \<not> name_match name
        then UsageError (kind @ '' name '' @ py_repr name @ '' contains invalid characters; use [a-z0-9_-]'')
      else if name \<in> set RESERVED_NAMES then UsageError (kind @ '' name '' @ py_repr name @ '' is reserved'')
      else Done ())"

section \<open>Workspace flags\<close>

record workspace_spec =
  sp_name :: string
  sp_mode :: string
  sp_source :: "string option"
  sp_path :: string

definition workspace_path :: "string list \<Rightarrow> string \<Rightarrow> string \<Rightarrow> string" where
  "workspace_path home inst name = parts_str (home @ [''workspaces'', inst, name])"

definition repeated_name :: "string \<Rightarrow> workspace_spec list \<Rightarrow> bool" where
  "repeated_name name specs = (name \<in> sp_name ` set specs)"

definition more_than_once :: "string \<Rightarrow> 'a cmd_result" where
  "more_than_once name = UsageError (''workspace name '' @ py_repr name @ '' specified more than once'')"

text \<open>The loops over \<open>--copy\<close> and \<open>--empty\<close>; \<open>specs\<close> holds what was collected, and its names are \<open>seen\<close>.\<close>

fun parse_copy_specs ::
  "string \<Rightarrow> string list \<Rightarrow> string \<Rightarrow> workspace_spec list \<Rightarrow> string list \<Rightarrow> workspace_spec list cmd_result" where
  "parse_copy_specs cwd home inst specs [] = Done specs"
| "parse_copy_specs cwd home inst specs (raw # raws) =
     (if CHR ''='' \<notin> set raw then UsageError (''--copy value '' @ py_repr raw @ '' must be NAME=PATH'')
      else let (name, src) = py_partition CHR ''='' raw
           in if name = [] \<or> src = [] then UsageError (''--copy value '' @ py_repr raw @ '' requires non-empty NAME and PATH'')
              else bindC (validate_name name ''workspace'' WORKSPACE_NAME_MAX) (\<lambda>_.
                if repeated_name name specs then more_than_once name
                else parse_copy_specs cwd home inst
                  (specs @ [\<lparr>sp_name = name, sp_mode = ''copy'', sp_source = Some (abspath cwd src),
                             sp_path = workspace_path home inst name\<rparr>]) raws))"

fun parse_empty_specs :: "string list \<Rightarrow> string \<Rightarrow> workspace_spec list \<Rightarrow> string list \<Rightarrow> workspace_spec list cmd_result" where
  "parse_empty_specs home inst specs [] = Done specs"
| "parse_empty_specs home inst specs (name # names) =
     bindC (validate_name name ''workspace'' WORKSPACE_NAME_MAX) (\<lambda>_.
       if repeated_name name specs then more_than_once name
       else parse_empty_specs home inst
         (specs @ [\<lparr>sp_name = name, sp_mode = ''empty'', sp_source = None, sp_path = workspace_path home inst name\<rparr>]) names)"

definition parse_workspace_flags ::
  "string \<Rightarrow> string \<Rightarrow> string list \<Rightarrow> string list \<Rightarrow> string list \<Rightarrow> workspace_spec list cmd_result" where
  "parse_workspace_flags cwd inst home copy_specs empty_specs =
     (let empty_specs' = (if copy_specs = [] \<and> empty_specs = [] then [''main''] else empty_specs)
      in bindC (parse_copy_specs cwd home inst [] copy_specs) (\<lambda>specs. parse_empty_specs home inst specs empty_specs'))"

section \<open>The host of a command\<close>

record cmd_env =
  cm_euid :: int
  cm_cwd :: string
  cm_backup :: backup_env
  cm_rsync :: "string list \<Rightarrow> node \<Rightarrow> int option \<times> node"
  cm_walk :: walk_env
  cm_readable :: "string \<Rightarrow> bool"
  cm_runtime :: op_runtime
  cm_loads :: "string \<Rightarrow> string + json"
  cm_settings :: "host_settings option"
  cm_validate :: "(string \<times> json) list \<Rightarrow> instance_config option"
  cm_state_lock_free :: bool
  cm_backup_held :: "string \<Rightarrow> bool"
  cm_same_fs :: bool
  cm_now :: datetime
  cm_tty :: bool
  cm_reply :: string

text \<open>The state the commands change: the file tree, the documents of the instances by directory (\<open>None\<close>: absent or not
  parseable), the registry file.\<close>

record cmd_world =
  cw_backup :: backup_state
  cw_toml :: "string \<Rightarrow> (string, json) dict option"
  cw_registry :: "json json_file"

definition cw_fs :: "cmd_world \<Rightarrow> node" where
  "cw_fs w = bs_fs (cw_backup w)"

definition set_fs :: "node \<Rightarrow> cmd_world \<Rightarrow> cmd_world" where
  "set_fs fs w = w\<lparr>cw_backup := (cw_backup w)\<lparr>bs_fs := fs\<rparr>\<rparr>"

definition cm_home :: "cmd_env \<Rightarrow> string list" where
  "cm_home env = bk_home (cm_backup env)"

definition refuse_root_euid :: "cmd_env \<Rightarrow> unit cmd_result" where
  "refuse_root_euid env =
     checkC (cm_euid env \<noteq> 0) (Exit1 (''Error: run sandbox as your operator account, not root. Running as root '' @
       ''would create /root/.sandbox-ai instead of your own ~/.sandbox-ai. '' @
       ''Re-invoke without sudo as your own (non-root) user.''))"

definition require_per_user_state_initialized :: "cmd_env \<Rightarrow> cmd_world \<Rightarrow> unit cmd_result" where
  "require_per_user_state_initialized env w =
     checkC (cw_registry w \<noteq> Absent) (Exit1 (''Error: per-user state not initialized at '' @ parts_str (cm_home env) @
       ''. Run `sandbox init` first.''))"

definition lookup_instance_or_exit :: "string \<Rightarrow> cmd_world \<Rightarrow> string cmd_result" where
  "lookup_instance_or_exit inst w =
     (case registry_get inst (cw_registry w) of
        None \<Rightarrow> Exit1 (''No sandbox instance named '' @ py_repr inst @ ''. Run `sandbox init '' @ inst @ ''` first.'')
      | Some e \<Rightarrow> Done (instance_dir e))"

definition load_config :: "cmd_env \<Rightarrow> string \<Rightarrow> cmd_world \<Rightarrow> instance_config cmd_result" where
  "load_config env dir w =
     (case cw_toml w dir of
        None \<Rightarrow> Traceback ''sandbox.toml''
      | Some raw \<Rightarrow>
          (case from_toml (cm_validate env) raw of
             Inr c \<Rightarrow> Done c
           | Inl NotATable \<Rightarrow> Traceback ''AttributeError''
           | Inl _ \<Rightarrow> Exit1 (''Invalid '' @ path_join dir ''sandbox.toml'')))"

definition resolve_full_host_config :: "cmd_env \<Rightarrow> host_settings cmd_result" where
  "resolve_full_host_config env =
     (case cm_settings env of None \<Rightarrow> Exit1 ''This host isn't set up yet. Run `sudo sandbox setup` first.'' | Some h \<Rightarrow> Done h)"

definition daemon_owner :: "cmd_env \<Rightarrow> host_settings \<Rightarrow> string cmd_result" where
  "daemon_owner env h =
     (case resolve_daemon_owner_settings (d_host (rt_env (cm_runtime env))) h of Inl _ \<Rightarrow> Traceback ''ValueError'' | Inr u \<Rightarrow> Done u)"

section \<open>Running containers\<close>

record container_info =
  ci_name :: string
  ci_service :: string
  ci_state :: string
  ci_health :: "string option"
  ci_status :: string

definition MAX_COMPOSE_PS_BYTES :: nat where
  "MAX_COMPOSE_PS_BYTES = 256 * 1024"

definition str_or_empty :: "(string \<times> json) list \<Rightarrow> string \<Rightarrow> string" where
  "str_or_empty d k = (case map_of d k of Some (JStr s) \<Rightarrow> s | _ \<Rightarrow> [])"

definition container_of_line :: "(string \<Rightarrow> string + json) \<Rightarrow> string \<Rightarrow> container_info option" where
  "container_of_line loads line =
     (if py_strip line = [] then None
      else case loads (py_strip line) of
             Inr (JObj data) \<Rightarrow>
               Some \<lparr>ci_name = str_or_empty data ''Name'', ci_service = str_or_empty data ''Service'',
                     ci_state = str_or_empty data ''State'',
                     ci_health = (if str_or_empty data ''Health'' = [] then None else Some (str_or_empty data ''Health'')),
                     ci_status = str_or_empty data ''Status''\<rparr>
           | _ \<Rightarrow> None)"

definition parse_container_lines :: "(string \<Rightarrow> string + json) \<Rightarrow> string \<Rightarrow> container_info list" where
  "parse_container_lines loads out =
     (if out \<noteq> [] \<and> length out \<le> MAX_COMPOSE_PS_BYTES
      then List.map_filter (container_of_line loads) (py_splitlines (py_strip out)) else [])"

definition container_status ::
  "cmd_env \<Rightarrow> string \<Rightarrow> string \<Rightarrow> docker_execution_mode \<Rightarrow> string \<Rightarrow> cmd_world \<Rightarrow> invoke_error + container_info list" where
  "container_status env dir host_user mode nm w =
     (if node_at (cw_fs w) (path_parts (path_join dir ''docker/compose.yml'')) = None then Inr []
      else bindE (helper_config host_user mode) (\<lambda>h.
           bindE (probe (cm_runtime env) h COMPOSE_PS [nm]) (\<lambda>outcome.
             Inr (if po_ok outcome then parse_container_lines (cm_loads env) (po_stdout outcome) else []))))"

definition warm_check ::
  "cmd_env \<Rightarrow> string \<Rightarrow> string \<Rightarrow> docker_execution_mode \<Rightarrow> cmd_world \<Rightarrow> bool cmd_result" where
  "warm_check env dir host_user mode w =
     (if node_at (cw_fs w) (path_parts (path_join dir ''docker/compose.yml'')) = None then Done False
      else bindC (load_config env dir w) (\<lambda>config.
        case container_status env dir host_user mode (inst_name config) w of
          Inl _ \<Rightarrow> Traceback ''DispatchError'' | Inr cs \<Rightarrow> Done (cs \<noteq> [])))"

section \<open>Gates\<close>

text \<open>The size of the tree is only warned about.\<close>

definition preflight_workspace_source :: "cmd_env \<Rightarrow> string \<Rightarrow> string \<Rightarrow> cmd_world \<Rightarrow> unit cmd_result" where
  "preflight_workspace_source env source inst w =
     (let realpath = bk_realpath (cm_backup env) source;
          instance_workspaces = bk_realpath (cm_backup env) (parts_str (cm_home env @ [''workspaces'', inst]))
      in if node_at (cw_fs w) (path_parts realpath) = None then UsageError (''--copy source '' @ py_repr source @ '' does not exist'')
         else if \<not> cm_readable env realpath then UsageError (''--copy source '' @ py_repr source @ '' is not readable'')
         else case walk_ancestors (cm_walk env) realpath of
                Inl (BoundaryPathError _) \<Rightarrow> UsageError (''--copy source '' @ py_repr source @ '' is in the walker boundary list'')
              | Inl _ \<Rightarrow> Traceback ''WalkerError''
              | Inr _ \<Rightarrow>
                  if prefix (instance_workspaces @ ''/'') realpath \<or> realpath = instance_workspaces
                  then UsageError (''--copy source '' @ py_repr source @ '' is inside the destination workspaces tree (cycle)'')
                  else Done ())"

definition require_instance_stopped :: "cmd_env \<Rightarrow> string \<Rightarrow> string \<Rightarrow> cmd_world \<Rightarrow> unit cmd_result" where
  "require_instance_stopped env inst dir w =
     bindC (resolve_full_host_config env) (\<lambda>h.
     bindC (daemon_owner env h) (\<lambda>host_user.
     bindC (warm_check env dir host_user (docker_execution_mode h) w) (\<lambda>warm.
       checkC (\<not> warm) (Exit1 (''Instance '' @ py_repr inst @ '' must be stopped. Run `sandbox stop '' @ inst @ ''` first.'')))))"

definition refuse_if_backup_in_progress :: "cmd_env \<Rightarrow> string \<Rightarrow> unit cmd_result" where
  "refuse_if_backup_in_progress env inst =
     checkC (\<not> cm_backup_held env inst)
       (Exit1 (''Backup in progress for '' @ py_repr inst @ ''; wait or `sandbox doctor` to inspect.''))"

section \<open>Lemmas\<close>

lemma bindC_Done_iff: "bindC m f = Done b \<longleftrightarrow> (\<exists>a. m = Done a \<and> f a = Done b)"
  by (cases m) (auto simp: bindC_def)

lemma bindC_Done [simp]: "bindC (Done a) f = f a"
  by (simp add: bindC_def)

lemma checkC_Done [simp]: "checkC b (Exit1 s) = Done u \<longleftrightarrow> b" "checkC True r = Done ()"
  by (auto simp: checkC_def)

end
