(* ===== verification/Workspace_Commands.thy ===== *)
theory Workspace_Commands
  imports Instance_Cli
begin

text \<open>
  The workspace commands of \<open>src/src/cli/main.py\<close> (\<open>add\<close>, \<open>remove\<close>, \<open>rename\<close>, \<open>restore\<close>) and the mutation of the
  \<open>[workspaces]\<close> table, \<open>mutate_workspaces\<close> of \<open>src/src/core/scaffold.py\<close>. Each command has two parts, as in the code: it
  checks and loads the configuration before it holds the state lock, and acts under the lock on what it loaded.
  The TOML library keeps everything it is not told to change; a document is the dict it parses to. File modes are
  not part of the tree.
\<close>

section \<open>The workspaces table\<close>

definition spec_fields :: "workspace_spec \<Rightarrow> (string, json) dict \<Rightarrow> (string, json) dict" where
  "spec_fields s sub =
     (let sub1 = dict_set ''bootstrap_mode'' (JStr (sp_mode s)) sub;
          sub2 = (case sp_source s of Some src \<Rightarrow> dict_set ''source'' (JStr src) sub1 | None \<Rightarrow> dict_pop ''source'' sub1)
      in dict_set ''path'' (JStr (sp_path s)) sub2)"

text \<open>The update of one entry; an entry that is no table raises.\<close>

definition put_spec :: "workspace_spec \<Rightarrow> (string, json) dict option \<Rightarrow> (string, json) dict option" where
  "put_spec s t =
     (case t of
        None \<Rightarrow> None
      | Some t \<Rightarrow>
          (case map_of t (sp_name s) of
             Some (JObj sub) \<Rightarrow> Some (dict_set (sp_name s) (JObj (spec_fields s sub)) t)
           | Some _ \<Rightarrow> None
           | None \<Rightarrow> Some (dict_set (sp_name s) (JObj (spec_fields s [])) t)))"

definition mutate_table :: "workspace_spec list \<Rightarrow> (string, json) dict \<Rightarrow> (string, json) dict option" where
  "mutate_table specs t =
     fold put_spec (sort_key sp_name specs) (Some (filter (\<lambda>e. fst e \<in> sp_name ` set specs) t))"

text \<open>\<open>None\<close> is the error of a file that does not parse, or of a value that is no table; the file is not written then.\<close>

definition mutate_workspaces :: "string \<Rightarrow> workspace_spec list \<Rightarrow> cmd_world \<Rightarrow> cmd_world option" where
  "mutate_workspaces dir specs w =
     (case cw_toml w dir of
        None \<Rightarrow> None
      | Some doc \<Rightarrow>
          (case get_table ''workspaces'' doc of
             JObj t \<Rightarrow>
               (case mutate_table specs t of
                  None \<Rightarrow> None
                | Some t' \<Rightarrow> Some (w\<lparr>cw_toml := (cw_toml w)(dir := Some (dict_set ''workspaces'' (JObj t') doc))\<rparr>))
           | _ \<Rightarrow> None))"

definition mode_text :: "bootstrap_mode \<Rightarrow> string" where
  "mode_text m = (case m of COPY \<Rightarrow> ''copy'' | EMPTY \<Rightarrow> ''empty'')"

definition config_specs :: "instance_config \<Rightarrow> workspace_spec list" where
  "config_specs c = map (\<lambda>(name, ws). \<lparr>sp_name = name, sp_mode = mode_text (ws_bootstrap_mode ws), sp_source = ws_source ws,
     sp_path = ws_path ws\<rparr>) (workspaces c)"

text \<open>What every command ends with: the result of the mutation.\<close>

definition finish_mutation :: "string \<Rightarrow> workspace_spec list \<Rightarrow> string \<Rightarrow> cmd_world \<Rightarrow> string cmd_result \<times> cmd_world" where
  "finish_mutation dir specs msg w =
     (case mutate_workspaces dir specs w of None \<Rightarrow> (Traceback ''SandboxExecutionError'', w) | Some w' \<Rightarrow> (Done msg, w'))"

definition busy :: "'a cmd_result" where
  "busy = Exit1 ''Another sandbox operation is already in progress for this instance.''"

section \<open>add\<close>

fun allC :: "('a \<Rightarrow> unit cmd_result) \<Rightarrow> 'a list \<Rightarrow> unit cmd_result" where
  "allC f [] = Done ()"
| "allC f (x # xs) = bindC (f x) (\<lambda>_. allC f xs)"

definition load_instance :: "cmd_env \<Rightarrow> string \<Rightarrow> cmd_world \<Rightarrow> (string \<times> instance_config) cmd_result" where
  "load_instance env inst w =
     bindC (lookup_instance_or_exit inst w) (\<lambda>dir. bindC (load_config env dir w) (\<lambda>config. Done (dir, config)))"

definition add_prepare ::
  "cmd_env \<Rightarrow> string \<Rightarrow> string list \<Rightarrow> string list \<Rightarrow> cmd_world \<Rightarrow> (string \<times> instance_config \<times> workspace_spec list) cmd_result" where
  "add_prepare env inst cps ems w =
     bindC (refuse_root_euid env) (\<lambda>_.
     bindC (require_per_user_state_initialized env w) (\<lambda>_.
     bindC (checkC (cps \<noteq> [] \<or> ems \<noteq> []) (Exit1 ''Specify at least one --copy or --empty flag.'')) (\<lambda>_.
     bindC (load_instance env inst w) (\<lambda>(dir, config).
     bindC (parse_workspace_flags (cm_cwd env) inst (cm_home env) cps ems) (\<lambda>specs.
     bindC (allC (\<lambda>s. checkC (sp_name s \<notin> set (dict_keys (workspaces config)))
       (Exit1 (''Workspace '' @ py_repr (sp_name s) @ '' already exists in instance '' @ py_repr inst @ ''.''))) specs) (\<lambda>_.
     bindC (allC (\<lambda>s. case sp_source s of Some src \<Rightarrow> preflight_workspace_source env src inst w | None \<Rightarrow> Done ()) specs) (\<lambda>_.
     bindC (require_instance_stopped env inst dir w) (\<lambda>_.
     bindC (refuse_if_backup_in_progress env inst) (\<lambda>_. Done (dir, config, specs))))))))))"

definition cm_copy :: "cmd_env \<Rightarrow> copy_env" where
  "cm_copy env = \<lparr>ce_realpath = bk_realpath (cm_backup env), ce_gid = bk_gid (cm_backup env), ce_rsync = cm_rsync env\<rparr>"

fun make_workspaces :: "cmd_env \<Rightarrow> workspace_spec list \<Rightarrow> node \<Rightarrow> node option" where
  "make_workspaces env [] fs = Some fs"
| "make_workspaces env (s # ss) fs =
     (case make_dirs (bk_gid (cm_backup env)) (path_parts (sp_path s)) fs of None \<Rightarrow> None | Some fs' \<Rightarrow> make_workspaces env ss fs')"

fun copy_workspaces :: "cmd_env \<Rightarrow> workspace_spec list \<Rightarrow> node \<Rightarrow> copy_error option \<times> node" where
  "copy_workspaces env [] fs = (None, fs)"
| "copy_workspaces env (s # ss) fs =
     (case sp_source s of
        None \<Rightarrow> copy_workspaces env ss fs
      | Some src \<Rightarrow>
          (case copy_workspace (cm_copy env) src (sp_path s) False COPY_DEFAULT_EXCLUDES fs of
             (Inl e, fs') \<Rightarrow> (Some e, fs')
           | (Inr _, fs') \<Rightarrow> copy_workspaces env ss fs'))"

definition add_commit ::
  "cmd_env \<Rightarrow> string \<Rightarrow> string \<times> instance_config \<times> workspace_spec list \<Rightarrow> cmd_world \<Rightarrow> string cmd_result \<times> cmd_world" where
  "add_commit env inst p w =
     (case p of (dir, config, specs) \<Rightarrow>
        if \<not> cm_state_lock_free env then (busy, w)
        else case make_workspaces env specs (cw_fs w) of
               None \<Rightarrow> (Traceback ''OSError'', w)
             | Some fs1 \<Rightarrow>
                 (case copy_workspaces env specs fs1 of
                    (Some e, fs2) \<Rightarrow> (Traceback ''WorkspaceCopyError'', set_fs fs2 w)
                  | (None, fs2) \<Rightarrow>
                      finish_mutation dir (config_specs config @ specs)
                        (''Added workspace(s) to '' @ py_repr inst @ '': '' @ py_join '', '' (map sp_name specs) @ ''.'') (set_fs fs2 w)))"

text \<open>The result of the first part decides whether the second runs.\<close>

definition run_command ::
  "'p cmd_result \<Rightarrow> ('p \<Rightarrow> cmd_world \<Rightarrow> string cmd_result \<times> cmd_world) \<Rightarrow> cmd_world \<Rightarrow> string cmd_result \<times> cmd_world" where
  "run_command prep commit w =
     (case prep of Done p \<Rightarrow> commit p w | Exit1 s \<Rightarrow> (Exit1 s, w) | UsageError s \<Rightarrow> (UsageError s, w) | Traceback s \<Rightarrow> (Traceback s, w))"

definition workspace_add :: "cmd_env \<Rightarrow> string \<Rightarrow> string list \<Rightarrow> string list \<Rightarrow> cmd_world \<Rightarrow> string cmd_result \<times> cmd_world" where
  "workspace_add env inst cps ems w = run_command (add_prepare env inst cps ems w) (add_commit env inst) w"

section \<open>remove\<close>

definition not_found :: "string \<Rightarrow> string \<Rightarrow> instance_config \<Rightarrow> string" where
  "not_found ws inst c =
     ''Workspace '' @ py_repr ws @ '' not found in instance '' @ py_repr inst @ ''. Available: '' @
     (case py_join '', '' (sort (dict_keys (workspaces c))) of [] \<Rightarrow> ''<none>'' | s \<Rightarrow> s) @ ''.''"

text \<open>\<open>--backup\<close> or \<open>--purge\<close>, or the reply at a terminal: only a no means purge.\<close>

definition wants_backup :: "cmd_env \<Rightarrow> bool \<Rightarrow> bool \<Rightarrow> bool cmd_result" where
  "wants_backup env bk purge =
     (if bk \<or> purge then Done bk
      else if cm_tty env then Done (py_lower (py_strip (cm_reply env)) \<notin> {''n'', ''no''})
      else Exit1 ''Use --backup or --purge to specify removal mode in non-interactive contexts.'')"

definition remove_prepare ::
  "cmd_env \<Rightarrow> string \<Rightarrow> string \<Rightarrow> bool \<Rightarrow> bool \<Rightarrow> cmd_world \<Rightarrow> (string \<times> instance_config \<times> workspace_config \<times> bool) cmd_result" where
  "remove_prepare env inst ws bk purge w =
     bindC (refuse_root_euid env) (\<lambda>_.
     bindC (require_per_user_state_initialized env w) (\<lambda>_.
     bindC (checkC (\<not> (bk \<and> purge)) (Exit1 ''--backup and --purge are mutually exclusive.'')) (\<lambda>_.
     bindC (load_instance env inst w) (\<lambda>(dir, config).
     case map_of (workspaces config) ws of
       None \<Rightarrow> Exit1 (not_found ws inst config)
     | Some target \<Rightarrow>
         bindC (checkC (length (workspaces config) \<noteq> 1) (Exit1 (''Cannot remove the last workspace from '' @ py_repr inst @ ''. ''))) (\<lambda>_.
         bindC (wants_backup env bk purge) (\<lambda>bk'.
         bindC (require_instance_stopped env inst dir w) (\<lambda>_.
         bindC (if bk' then Done () else refuse_if_backup_in_progress env inst) (\<lambda>_.
           Done (dir, config, target, bk')))))))))"

text \<open>The handler catches \<open>BackupError\<close>; the error of a held lock is no subclass of it.\<close>

definition is_backup_error :: "backup_error \<Rightarrow> bool" where
  "is_backup_error e = (case e of BackupLockHeldError _ \<Rightarrow> False | BackupOSError \<Rightarrow> False | BackupValueError \<Rightarrow> False | _ \<Rightarrow> True)"

definition remove_tree ::
  "cmd_env \<Rightarrow> string \<Rightarrow> string \<Rightarrow> string \<Rightarrow> instance_config \<Rightarrow> workspace_config \<Rightarrow> cmd_world \<Rightarrow> string cmd_result \<times> cmd_world" where
  "remove_tree env inst ws dir config target w =
     (if \<not> cm_state_lock_free env then (busy, w)
      else if \<not> dir_at (cw_fs w) (path_parts (ws_path target)) then (Traceback ''OSError'', w)
      else finish_mutation dir (filter (\<lambda>s. sp_name s \<noteq> ws) (config_specs config))
             (''Removed workspace '' @ py_repr ws @ '' from '' @ py_repr inst @ ''.'')
             (set_fs (set_at (path_parts (ws_path target)) None (cw_fs w)) w))"

definition remove_commit ::
  "cmd_env \<Rightarrow> string \<Rightarrow> string \<Rightarrow> string \<times> instance_config \<times> workspace_config \<times> bool \<Rightarrow> cmd_world \<Rightarrow>
   string cmd_result \<times> cmd_world" where
  "remove_commit env inst ws p w =
     (case p of (dir, config, target, bk) \<Rightarrow>
        if bk then
          (case create_backup (cm_backup env) inst ws (ws_path target) (mode_text (ws_bootstrap_mode target)) (bk_gid (cm_backup env))
                  COPY_DEFAULT_EXCLUDES [] (cm_now env) True (cw_backup w) of
             (Inl e, st) \<Rightarrow>
               ((if is_backup_error e then Exit1 ''Backup failed'' else Traceback ''BackupLockHeldError''), w\<lparr>cw_backup := st\<rparr>)
           | (Inr _, st) \<Rightarrow> remove_tree env inst ws dir config target (w\<lparr>cw_backup := st\<rparr>))
        else remove_tree env inst ws dir config target w)"

definition workspace_remove ::
  "cmd_env \<Rightarrow> string \<Rightarrow> string \<Rightarrow> bool \<Rightarrow> bool \<Rightarrow> cmd_world \<Rightarrow> string cmd_result \<times> cmd_world" where
  "workspace_remove env inst ws bk purge w = run_command (remove_prepare env inst ws bk purge w) (remove_commit env inst ws) w"

section \<open>rename\<close>

definition rename_prepare ::
  "cmd_env \<Rightarrow> string \<Rightarrow> string \<Rightarrow> string \<Rightarrow> cmd_world \<Rightarrow> (string \<times> instance_config \<times> workspace_config) cmd_result" where
  "rename_prepare env inst old new w =
     bindC (refuse_root_euid env) (\<lambda>_.
     bindC (require_per_user_state_initialized env w) (\<lambda>_.
     bindC (checkC (old \<noteq> new) (Exit1 (''Old and new workspace names are identical ('' @ py_repr old @ ''); refusing no-op rename.''))) (\<lambda>_.
     bindC (validate_name new ''workspace'' WORKSPACE_NAME_MAX) (\<lambda>_.
     bindC (load_instance env inst w) (\<lambda>(dir, config).
     case map_of (workspaces config) old of
       None \<Rightarrow> Exit1 (not_found old inst config)
     | Some target \<Rightarrow>
         bindC (checkC (new \<notin> set (dict_keys (workspaces config)))
           (Exit1 (''Workspace '' @ py_repr new @ '' already exists in instance '' @ py_repr inst @ ''.''))) (\<lambda>_.
         bindC (require_instance_stopped env inst dir w) (\<lambda>_.
         bindC (refuse_if_backup_in_progress env inst) (\<lambda>_. Done (dir, config, target)))))))))"

definition rename_commit ::
  "cmd_env \<Rightarrow> string \<Rightarrow> string \<Rightarrow> string \<Rightarrow> string \<times> instance_config \<times> workspace_config \<Rightarrow> cmd_world \<Rightarrow>
   string cmd_result \<times> cmd_world" where
  "rename_commit env inst old new p w =
     (case p of (dir, config, target) \<Rightarrow>
        let new_path = workspace_path (cm_home env) inst new
        in if \<not> cm_state_lock_free env then (busy, w)
           else if \<not> cm_same_fs env then (Exit1 ''Cross-filesystem rename not supported'', w)
           else case rename_dir (path_parts (ws_path target)) (path_parts new_path) (cw_fs w) of
                  None \<Rightarrow> (Traceback ''OSError'', w)
                | Some fs \<Rightarrow>
                    finish_mutation dir
                      (map (\<lambda>s. if sp_name s = old then s\<lparr>sp_name := new, sp_path := new_path\<rparr> else s) (config_specs config))
                      (''Renamed workspace '' @ py_repr old @ '' '' @ [CHR 0xE2, CHR 0x86, CHR 0x92] @ '' '' @ py_repr new @
                       '' in '' @ py_repr inst @ ''.'') (set_fs fs w))"

definition workspace_rename ::
  "cmd_env \<Rightarrow> string \<Rightarrow> string \<Rightarrow> string \<Rightarrow> cmd_world \<Rightarrow> string cmd_result \<times> cmd_world" where
  "workspace_rename env inst old new w = run_command (rename_prepare env inst old new w) (rename_commit env inst old new) w"

section \<open>restore\<close>

definition restore_prepare ::
  "cmd_env \<Rightarrow> string \<Rightarrow> string \<Rightarrow> string option \<Rightarrow> cmd_world \<Rightarrow> (string \<times> instance_config \<times> backup_info) cmd_result" where
  "restore_prepare env inst ws from w =
     bindC (refuse_root_euid env) (\<lambda>_.
     bindC (require_per_user_state_initialized env w) (\<lambda>_.
     bindC (validate_name ws ''workspace'' WORKSPACE_NAME_MAX) (\<lambda>_.
     bindC (load_instance env inst w) (\<lambda>(dir, config).
     bindC (checkC (ws \<notin> set (dict_keys (workspaces config)))
       (Exit1 (''Workspace '' @ py_repr ws @ '' already exists in '' @ py_repr inst @ ''. ''))) (\<lambda>_.
     case resolve_backup_spec (cm_backup env) from ws (cw_fs w) of
       Inl (BackupSpecAmbiguousError msg) \<Rightarrow> Exit1 msg
     | Inl (BackupSpecNotFoundError msg) \<Rightarrow> Exit1 msg
     | Inl _ \<Rightarrow> Traceback ''BackupError''
     | Inr b \<Rightarrow>
         bindC (require_instance_stopped env inst dir w) (\<lambda>_.
         bindC (refuse_if_backup_in_progress env inst) (\<lambda>_. Done (dir, config, b))))))))"

definition restore_commit ::
  "cmd_env \<Rightarrow> string \<Rightarrow> string \<Rightarrow> string \<times> instance_config \<times> backup_info \<Rightarrow> cmd_world \<Rightarrow> string cmd_result \<times> cmd_world" where
  "restore_commit env inst ws p w =
     (case p of (dir, config, b) \<Rightarrow>
        if \<not> cm_state_lock_free env then (busy, w)
        else case restore_backup (cm_backup env) b inst ws (cw_fs w) of
               (Inl _, fs) \<Rightarrow> (Traceback ''BackupError'', set_fs fs w)
             | (Inr new_path, fs) \<Rightarrow>
                 finish_mutation dir
                   (config_specs config @ [\<lparr>sp_name = ws, sp_mode = ''copy'', sp_source = Some (parts_str (bi_path b)), sp_path = parts_str new_path\<rparr>])
                   (''Restored backup '' @ bi_instance b @ ''/'' @ bi_workspace b @ ''/'' @ bi_timestamp b @ '' '' @
                    [CHR 0xE2, CHR 0x86, CHR 0x92] @ '' '' @ inst @ ''/'' @ ws @ ''.'') (set_fs fs w))"

definition workspace_restore ::
  "cmd_env \<Rightarrow> string \<Rightarrow> string \<Rightarrow> string option \<Rightarrow> cmd_world \<Rightarrow> string cmd_result \<times> cmd_world" where
  "workspace_restore env inst ws from w = run_command (restore_prepare env inst ws from w) (restore_commit env inst ws) w"

section \<open>Lemmas\<close>

definition sub_of :: "(string, json) dict \<Rightarrow> string \<Rightarrow> (string, json) dict" where
  "sub_of t n = (case map_of t n of Some (JObj sub) \<Rightarrow> sub | _ \<Rightarrow> [])"

lemma spec_fields_lookup:
  "map_of (spec_fields s sub) ''bootstrap_mode'' = Some (JStr (sp_mode s))"
  "map_of (spec_fields s sub) ''source'' = map_option JStr (sp_source s)"
  "map_of (spec_fields s sub) ''path'' = Some (JStr (sp_path s))"
  "k \<notin> {''bootstrap_mode'', ''source'', ''path''} \<Longrightarrow> map_of (spec_fields s sub) k = map_of sub k"
  by (auto simp: spec_fields_def Let_def map_of_dict_set map_of_dict_pop split: option.split)

lemma put_spec_Some: "put_spec s (Some t) = Some t' \<Longrightarrow> t' = dict_set (sp_name s) (JObj (spec_fields s (sub_of t (sp_name s)))) t"
  by (auto simp: put_spec_def sub_of_def split: option.splits json.splits)

lemma fold_put_None: "fold put_spec ss None = None"
  by (induction ss) (simp_all add: put_spec_def)

lemma fold_put_spec:
  "fold put_spec ss (Some t) = Some t' \<Longrightarrow> distinct (map sp_name ss) \<Longrightarrow>
    (\<forall>s \<in> set ss. map_of t' (sp_name s) = Some (JObj (spec_fields s (sub_of t (sp_name s))))) \<and>
    (\<forall>n. n \<notin> sp_name ` set ss \<longrightarrow> map_of t' n = map_of t n)"
proof (induction ss arbitrary: t)
  case (Cons s ss)
  obtain t1 where t1: "put_spec s (Some t) = Some t1" using Cons.prems(1) fold_put_None by (cases "put_spec s (Some t)") auto
  have sub: "sub_of t1 n = sub_of t n" if "n \<noteq> sp_name s" for n
    using put_spec_Some [OF t1] that by (simp add: sub_of_def map_of_dict_set)
  have IH: "\<forall>u \<in> set ss. map_of t' (sp_name u) = Some (JObj (spec_fields u (sub_of t1 (sp_name u))))"
    "\<forall>n. n \<notin> sp_name ` set ss \<longrightarrow> map_of t' n = map_of t1 n"
    using Cons.IH [of t1] Cons.prems t1 by auto
  have "sp_name s \<notin> sp_name ` set ss" using Cons.prems(2) by simp
  with IH(1) have "\<forall>u \<in> set ss. map_of t' (sp_name u) = Some (JObj (spec_fields u (sub_of t (sp_name u))))"
    using sub by (metis imageI)
  with IH(2) \<open>sp_name s \<notin> sp_name ` set ss\<close> put_spec_Some [OF t1] show ?case by (simp add: map_of_dict_set)
qed simp

lemma map_of_filter_names: "map_of (filter (\<lambda>e. fst e \<in> N) t) n = (if n \<in> N then map_of t n else None)"
  by (induction t) auto

text \<open>The table after a mutation.\<close>

lemma mutate_table_lookup:
  assumes "mutate_table specs t = Some t'" and "distinct (map sp_name specs)"
  shows "s \<in> set specs \<Longrightarrow> map_of t' (sp_name s) = Some (JObj (spec_fields s (sub_of t (sp_name s))))"
    and "n \<notin> sp_name ` set specs \<Longrightarrow> map_of t' n = None"
proof -
  let ?t = "filter (\<lambda>e. fst e \<in> sp_name ` set specs) t"
  have d: "distinct (map sp_name (sort_key sp_name specs))"
    using assms(2) by (metis distinct_sort distinct_map set_sort)
  note all = fold_put_spec [OF assms(1) [unfolded mutate_table_def] d]
  have "sub_of ?t (sp_name s) = sub_of t (sp_name s)" if "s \<in> set specs" for s
    using that by (simp add: sub_of_def map_of_filter_names)
  then show "s \<in> set specs \<Longrightarrow> map_of t' (sp_name s) = Some (JObj (spec_fields s (sub_of t (sp_name s))))"
    using all by simp
  show "n \<notin> sp_name ` set specs \<Longrightarrow> map_of t' n = None" using all by (simp add: map_of_filter_names)
qed

lemma mutate_workspaces_Some:
  assumes "mutate_workspaces dir specs w = Some w'"
  obtains doc t t' where "cw_toml w dir = Some doc" "get_table ''workspaces'' doc = JObj t" "mutate_table specs t = Some t'"
    "w' = w\<lparr>cw_toml := (cw_toml w)(dir := Some (dict_set ''workspaces'' (JObj t') doc))\<rparr>"
  using assms by (auto simp: mutate_workspaces_def split: option.splits json.splits)

lemma finish_mutation_fs: "finish_mutation dir specs msg w = (r, w') \<Longrightarrow> cw_backup w' = cw_backup w"
  by (auto simp: finish_mutation_def split: option.splits elim!: mutate_workspaces_Some)

lemma cw_fs_simps [simp]:
  "cw_fs (set_fs fs w) = fs" "cw_toml (set_fs fs w) = cw_toml w" "cw_registry (set_fs fs w) = cw_registry w"
  "cw_fs (w\<lparr>cw_backup := st\<rparr>) = bs_fs st"
  by (simp_all add: cw_fs_def set_fs_def)

section \<open>Properties\<close>

text \<open>Claim C36: the table is replaced exactly. After a mutation the document of the instance has exactly the workspaces given,
  each with the mode, source and path given; whatever else an entry that stays held is kept, and so is every
  other section, every other instance, the tree and the registry.\<close>

theorem mutate_workspaces_exact:
  assumes "mutate_workspaces dir specs w = Some w'" and "distinct (map sp_name specs)"
  shows "\<exists>doc t t'. cw_toml w dir = Some doc \<and> get_table ''workspaces'' doc = JObj t \<and>
    w' = w\<lparr>cw_toml := (cw_toml w)(dir := Some (dict_set ''workspaces'' (JObj t') doc))\<rparr> \<and>
    (\<forall>n. map_of t' n \<noteq> None \<longleftrightarrow> n \<in> sp_name ` set specs) \<and>
    (\<forall>s \<in> set specs. \<exists>sub. map_of t' (sp_name s) = Some (JObj sub) \<and>
       map_of sub ''bootstrap_mode'' = Some (JStr (sp_mode s)) \<and> map_of sub ''source'' = map_option JStr (sp_source s) \<and>
       map_of sub ''path'' = Some (JStr (sp_path s)) \<and>
       (\<forall>k. k \<notin> {''bootstrap_mode'', ''source'', ''path''} \<longrightarrow> map_of sub k = map_of (sub_of t (sp_name s)) k))"
proof -
  obtain doc t t' where w': "cw_toml w dir = Some doc" "get_table ''workspaces'' doc = JObj t"
      "w' = w\<lparr>cw_toml := (cw_toml w)(dir := Some (dict_set ''workspaces'' (JObj t') doc))\<rparr>"
    and mt: "mutate_table specs t = Some t'"
    using assms(1) by (rule mutate_workspaces_Some) blast
  have iff: "map_of t' n \<noteq> None \<longleftrightarrow> n \<in> sp_name ` set specs" for n
    using mutate_table_lookup [OF mt assms(2)] by (cases "n \<in> sp_name ` set specs") auto
  have "\<exists>sub. map_of t' (sp_name s) = Some (JObj sub) \<and>
       map_of sub ''bootstrap_mode'' = Some (JStr (sp_mode s)) \<and> map_of sub ''source'' = map_option JStr (sp_source s) \<and>
       map_of sub ''path'' = Some (JStr (sp_path s)) \<and>
       (\<forall>k. k \<notin> {''bootstrap_mode'', ''source'', ''path''} \<longrightarrow> map_of sub k = map_of (sub_of t (sp_name s)) k)"
    if "s \<in> set specs" for s
    using mutate_table_lookup(1) [OF mt assms(2) that] spec_fields_lookup by blast
  then show ?thesis using w' iff by blast
qed


text \<open>A removal touches nothing but the tree it removes.\<close>

lemma remove_tree_outcome:
  assumes "remove_tree env inst ws dir config target w = (r, w')"
  shows "cw_fs w' = cw_fs w \<and> cw_toml w' = cw_toml w \<and> (\<nexists>msg. r = Done msg) \<or>
    cw_fs w' = set_at (path_parts (ws_path target)) None (cw_fs w)"
  using assms finish_mutation_fs [of dir _ _ _ r w']
  by (auto simp: remove_tree_def busy_def cw_fs_def set_fs_def split: if_splits)


lemma add_prepare_parts:
  "add_prepare env inst cps ems w = Done (dir, config, specs) \<Longrightarrow>
    load_instance env inst w = Done (dir, config) \<and> parse_workspace_flags (cm_cwd env) inst (cm_home env) cps ems = Done specs"
  by (auto simp: add_prepare_def bindC_Done_iff)

text \<open>Claim C37: a workspace added meanwhile is dropped. A command reads the configuration before it takes the state lock and
  writes the table from what it read. So when two \<open>workspace add\<close> commands both read before either writes, and
  both report success, one after the other, then the final document has no entry for the workspaces of the first.\<close>

theorem concurrent_add_lost:
  assumes "add_prepare env inst cps ems w = Done (dir, config, specs)"
    and "add_prepare env' inst cps' ems' w = Done (dir', config', specs')"
    and "add_commit env inst (dir, config, specs) w = (Done msg, w1)"
    and "add_commit env' inst (dir', config', specs') w1 = (Done msg', w2)"
    and "cm_validate env' = cm_validate env"
    and "distinct (map sp_name (config_specs config @ specs'))"
    and "s \<in> set specs" and "sp_name s \<notin> sp_name ` set specs'"
  shows "\<exists>doc t. cw_toml w2 dir = Some doc \<and> get_table ''workspaces'' doc = JObj t \<and> map_of t (sp_name s) = None"
proof -
  have "load_instance env inst w = Done (dir, config)" "load_instance env' inst w = Done (dir', config')"
    using add_prepare_parts [OF assms(1)] add_prepare_parts [OF assms(2)] by simp_all
  moreover have "load_instance env' inst w = load_instance env inst w" 
    unfolding load_instance_def load_config_def assms(5) ..
  ultimately have same: "dir' = dir" "config' = config" by simp_all
  have "sp_name s \<notin> set (dict_keys (workspaces config))"
  proof -
    have "allC (\<lambda>s. checkC (sp_name s \<notin> set (dict_keys (workspaces config)))
       (Exit1 (''Workspace '' @ py_repr (sp_name s) @ '' already exists in instance '' @ py_repr inst @ ''.''))) specs = Done ()"
      using assms(1) by (auto simp: add_prepare_def bindC_Done_iff)
    moreover have "allC f xs = Done () \<Longrightarrow> x \<in> set xs \<Longrightarrow> f x = Done ()" for f :: "'b \<Rightarrow> unit cmd_result" and xs x
      by (induction xs) (auto simp: bindC_Done_iff)
    ultimately show ?thesis using assms(7) by fastforce
  qed
  then have new: "sp_name s \<notin> sp_name ` set (config_specs config @ specs')"
    using assms(8) by (auto simp: config_specs_def dict_keys_def image_iff)
  obtain w3 where "mutate_workspaces dir (config_specs config @ specs') w3 = Some w2"
    using assms(4) by (auto simp: add_commit_def same busy_def finish_mutation_def split: if_splits option.splits prod.splits)
  then obtain doc t t' where "w2 = w3\<lparr>cw_toml := (cw_toml w3)(dir := Some (dict_set ''workspaces'' (JObj t') doc))\<rparr>"
    and mt: "mutate_table (config_specs config @ specs') t = Some t'"
    by (rule mutate_workspaces_Some)
  then have "cw_toml w2 dir = Some (dict_set ''workspaces'' (JObj t') doc)" by simp
  moreover have "map_of t' (sp_name s) = None" by (rule mutate_table_lookup(2) [OF mt assms(6) new])
  ultimately show ?thesis by (auto simp: get_table_def map_of_dict_set)
qed

text \<open>What the loops over the flags keep.\<close>

definition good_spec :: "string list \<Rightarrow> string \<Rightarrow> workspace_spec \<Rightarrow> bool" where
  "good_spec home inst s =
     (validate_name (sp_name s) ''workspace'' WORKSPACE_NAME_MAX = Done () \<and> sp_path s = workspace_path home inst (sp_name s) \<and>
      (sp_mode s = ''copy'' \<longleftrightarrow> sp_source s \<noteq> None))"

definition good_specs :: "string list \<Rightarrow> string \<Rightarrow> workspace_spec list \<Rightarrow> bool" where
  "good_specs home inst specs = (distinct (map sp_name specs) \<and> (\<forall>s \<in> set specs. good_spec home inst s))"

lemma good_specs_snoc:
  "good_specs home inst specs \<Longrightarrow> \<not> repeated_name (sp_name s) specs \<Longrightarrow> good_spec home inst s \<Longrightarrow> good_specs home inst (specs @ [s])"
  by (auto simp: good_specs_def repeated_name_def)

lemma parse_copy_specs_good:
  "parse_copy_specs cwd home inst specs raws = Done out \<Longrightarrow> good_specs home inst specs \<Longrightarrow>
    good_specs home inst out \<and> length out = length specs + length raws"
proof (induction cwd home inst specs raws rule: parse_copy_specs.induct)
  case (2 cwd home inst specs raw raws)
  obtain name src where ns: "py_partition CHR ''='' raw = (name, src)" by fastforce
  have ok: "CHR ''='' \<in> set raw" "name \<noteq> []" "src \<noteq> []" "validate_name name ''workspace'' WORKSPACE_NAME_MAX = Done ()"
      "\<not> repeated_name name specs"
    and rest: "parse_copy_specs cwd home inst
      (specs @ [\<lparr>sp_name = name, sp_mode = ''copy'', sp_source = Some (abspath cwd src), sp_path = workspace_path home inst name\<rparr>]) raws = Done out"
    using "2.prems"(1) by (auto simp: ns bindC_Done_iff more_than_once_def split: if_splits)
  have "good_specs home inst
      (specs @ [\<lparr>sp_name = name, sp_mode = ''copy'', sp_source = Some (abspath cwd src), sp_path = workspace_path home inst name\<rparr>])"
    using ok "2.prems"(2) by (intro good_specs_snoc) (simp_all add: good_spec_def)
  then show ?case using "2.IH" [OF _ refl ns [symmetric] _ ok(5) rest] ok by simp
qed simp

lemma parse_empty_specs_good:
  "parse_empty_specs home inst specs names = Done out \<Longrightarrow> good_specs home inst specs \<Longrightarrow>
    good_specs home inst out \<and> length out = length specs + length names"
proof (induction home inst specs names rule: parse_empty_specs.induct)
  case (2 home inst specs name names)
  let ?s = "\<lparr>sp_name = name, sp_mode = ''empty'', sp_source = None, sp_path = workspace_path home inst name\<rparr>"
  have ok: "validate_name name ''workspace'' WORKSPACE_NAME_MAX = Done ()" "\<not> repeated_name name specs"
    and rest: "parse_empty_specs home inst (specs @ [?s]) names = Done out"
    using "2.prems"(1) by (auto simp: bindC_Done_iff more_than_once_def split: if_splits)
  have "good_specs home inst (specs @ [?s])"
    using ok "2.prems"(2) by (intro good_specs_snoc) (simp_all add: good_spec_def)
  then show ?case using "2.IH" [OF ok(2) rest] by simp
qed simp

lemma validate_name_Done:
  "validate_name name kind m = Done () \<longleftrightarrow>
    name \<noteq> [] \<and> length name \<le> m \<and> \<not> prefix ''-'' name \<and> \<not> prefix ''_'' name \<and> name_match name \<and> name \<notin> set RESERVED_NAMES"
  by (auto simp: validate_name_def)

lemma name_match_no_slash: "name_match s \<Longrightarrow> CHR ''/'' \<notin> set s"
proof -
  assume m: "name_match s"
  have "c \<noteq> CHR ''/''" if "name_rest c" for c using that by (auto simp: name_rest_def name_first_def char_class_defs)
  then have "CHR ''/'' \<notin> set (re_dollar_body s)"
    using m by (auto simp: name_match_def list_all_iff name_rest_def split: list.splits)
  moreover have "set s \<subseteq> insert newline (set (re_dollar_body s))" using re_dollar_body_cases [of s] by (metis insertCI set_append list.set(1,2) Un_insert_right subsetI sup_bot_right)
  ultimately show ?thesis by (auto simp: newline_def)
qed

text \<open>Claim C38: what the workspace flags produce is safe to create. The flags give at least one workspace, each name once; a name,
  up to one newline at its end, consists of lower-case letters, digits, dashes and underscores, starts with a letter or
  digit and is not reserved; the path is the fixed place of the instance and the name, so it is neither the backup tree
  nor, for different instances or workspaces, the same.\<close>

theorem workspace_flags_sound:
  assumes "parse_workspace_flags cwd inst home cps ems = Done specs"
  shows "specs \<noteq> [] \<and> distinct (map sp_name specs) \<and>
    (\<forall>s \<in> set specs. sp_path s = workspace_path home inst (sp_name s) \<and> length (sp_name s) \<le> WORKSPACE_NAME_MAX \<and>
       sp_name s \<notin> set RESERVED_NAMES \<and> name_match (sp_name s) \<and> CHR ''/'' \<notin> set (sp_name s) \<and>
       (sp_mode s = ''copy'' \<longleftrightarrow> sp_source s \<noteq> None))"
proof -
  obtain mid where mid: "parse_copy_specs cwd home inst [] cps = Done mid"
    and rest: "parse_empty_specs home inst mid (if cps = [] \<and> ems = [] then [''main''] else ems) = Done specs"
    using assms by (auto simp: parse_workspace_flags_def Let_def bindC_Done_iff)
  have g: "good_specs home inst mid" "length mid = length cps"
    using parse_copy_specs_good [OF mid] by (simp_all add: good_specs_def)
  have out: "good_specs home inst specs" "length specs > 0"
    using parse_empty_specs_good [OF rest g(1)] g(2) by (auto split: if_splits)
  then have "sp_path s = workspace_path home inst (sp_name s) \<and> length (sp_name s) \<le> WORKSPACE_NAME_MAX \<and>
       sp_name s \<notin> set RESERVED_NAMES \<and> name_match (sp_name s) \<and> CHR ''/'' \<notin> set (sp_name s) \<and>
       (sp_mode s = ''copy'' \<longleftrightarrow> sp_source s \<noteq> None)" if "s \<in> set specs" for s
    using that name_match_no_slash [of "sp_name s"] by (auto simp: good_specs_def good_spec_def validate_name_Done)
  with out show ?thesis by (auto simp: good_specs_def)
qed

section \<open>An instance\<close>

definition sample_config :: instance_config where
  "sample_config = \<lparr>inst_name = ''dev'', inst_host_uid = ''1000'',
     workspaces = [(''main'', \<lparr>ws_bootstrap_mode = EMPTY, ws_source = None, ws_path = ''/h/workspaces/dev/main''\<rparr>),
       (''other'', \<lparr>ws_bootstrap_mode = EMPTY, ws_source = None, ws_path = ''/h/workspaces/dev/other''\<rparr>)],
     core = default_core_config, runtimes = \<lparr>rt_python = True, rt_typescript = False, rt_rust = False, rt_go = False\<rparr>,
     runtimes_node = \<lparr>node_version = [], nvm_version = []\<rparr>, components = \<lparr>mcp_firecrawl = False, mcp_puppeteer = False\<rparr>,
     components_db_postgres = default_db_postgres_config, ingress_web_ports = [], proxy_whitelist = \<lparr>wl_domains = [], wl_read_only_domains = []\<rparr>\<rparr>"

definition sample_cmd :: cmd_env where
  "sample_cmd = \<lparr>cm_euid = 1000, cm_cwd = ''/'', cm_backup = sample_backup_env, cm_rsync = (\<lambda>_ fs. (Some 0, fs)), cm_walk = walk_sample,
     cm_readable = (\<lambda>_. True), cm_runtime = sample_runtime (\<lambda>_ _ _. OsError), cm_loads = (\<lambda>_. Inl []),
     cm_settings = Some (sample_host OPERATOR_ROOTLESS), cm_validate = (\<lambda>_. Some sample_config), cm_state_lock_free = True,
     cm_backup_held = (\<lambda>_. False), cm_same_fs = True, cm_now = late, cm_tty = False, cm_reply = []\<rparr>"

definition sample_world :: cmd_world where
  "sample_world = \<lparr>cw_backup = sample_backup_state,
     cw_toml = (\<lambda>_. Some [(''workspaces'', JObj [(''main'', JObj []), (''other'', JObj [])])]),
     cw_registry = Doc (JObj [(''dev'', JObj [(''instance_dir'', JStr ''/h/instances/dev''), (''created_at'', JStr ''now'')])])\<rparr>"

definition is_done :: "'a cmd_result \<Rightarrow> bool" where
  "is_done r = (case r of Done _ \<Rightarrow> True | _ \<Rightarrow> False)"

lemma is_done_iff: "is_done r \<longleftrightarrow> (\<exists>a. r = Done a)"
  by (cases r) (auto simp: is_done_def)

theorem workspace_flags_sound_witness:
  "\<exists>specs. parse_workspace_flags ''/'' ''dev'' [''h''] [''src=code''] [''main''] = Done specs \<and> distinct (map sp_name specs)"
proof -
  have "is_done (parse_workspace_flags ''/'' ''dev'' [''h''] [''src=code''] [''main''])" by code_simp
  then obtain specs where "parse_workspace_flags ''/'' ''dev'' [''h''] [''src=code''] [''main''] = Done specs" by (auto simp: is_done_iff)
  with workspace_flags_sound [OF this] show ?thesis by blast
qed

theorem mutate_workspaces_exact_witness:
  "\<exists>w'. mutate_workspaces ''/h/instances/dev'' [\<lparr>sp_name = ''new'', sp_mode = ''empty'', sp_source = None, sp_path = ''/h/workspaces/dev/new''\<rparr>]
      sample_world = Some w' \<and>
    (\<exists>t. map_of (the (cw_toml w' ''/h/instances/dev'')) ''workspaces'' = Some (JObj t) \<and> map_of t ''main'' = None \<and> map_of t ''new'' \<noteq> None)"
proof -
  let ?s = "\<lparr>sp_name = ''new'', sp_mode = ''empty'', sp_source = None, sp_path = ''/h/workspaces/dev/new''\<rparr>"
  have "mutate_workspaces ''/h/instances/dev'' [?s] sample_world \<noteq> None"
    by (simp add: mutate_workspaces_def sample_world_def get_table_def mutate_table_def put_spec_def)
  then obtain w' where w': "mutate_workspaces ''/h/instances/dev'' [?s] sample_world = Some w'" by blast
  have d: "distinct (map sp_name [?s])" by simp
  obtain doc t t' where m: "w' = sample_world\<lparr>cw_toml := (cw_toml sample_world)(''/h/instances/dev'' := Some (dict_set ''workspaces'' (JObj t') doc))\<rparr>"
    "\<And>n. map_of t' n \<noteq> None \<longleftrightarrow> n \<in> sp_name ` set [?s]"
    using mutate_workspaces_exact [OF w' d] by blast
  have "map_of t' ''main'' = None" "map_of t' ''new'' \<noteq> None" using m(2) [of "''main''"] m(2) [of "''new''"] by auto
  then show ?thesis using w' m(1) by (auto simp: map_of_dict_set)
qed

lemma sample_load: "load_instance sample_cmd ''dev'' sample_world = Done (''/h/instances/dev'', sample_config)"
proof -
  have "registry_get ''dev'' (cw_registry sample_world) = Some \<lparr>instance_dir = ''/h/instances/dev'', created_at = ''now''\<rparr>" by code_simp
  moreover have "cw_toml sample_world d = Some [(''workspaces'', JObj [(''main'', JObj []), (''other'', JObj [])])]" for d
    by (simp add: sample_world_def)
  moreover have "from_toml (cm_validate sample_cmd) [(''workspaces'', JObj [(''main'', JObj []), (''other'', JObj [])])] = Inr sample_config"
    by (simp add: from_toml_def flatten_toml_def get_table_def as_table_def reject_legacy_admin_section_def sample_cmd_def)
  ultimately show ?thesis by (simp add: load_instance_def lookup_instance_or_exit_def load_config_def)
qed

text \<open>Two commands that add one empty workspace each.\<close>

definition sample_spec :: "string \<Rightarrow> workspace_spec" where
  "sample_spec n = \<lparr>sp_name = n, sp_mode = ''empty'', sp_source = None, sp_path = workspace_path [''h''] ''dev'' n\<rparr>"

lemma sample_prepare:
  assumes "n \<in> {''a'', ''b''}"
  shows "add_prepare sample_cmd ''dev'' [] [n] sample_world = Done (''/h/instances/dev'', sample_config, [sample_spec n])"
proof -
  have "is_done (add_prepare sample_cmd ''dev'' [] [''a''] sample_world)" "is_done (add_prepare sample_cmd ''dev'' [] [''b''] sample_world)"
    by code_simp+
  then obtain dir config specs where p: "add_prepare sample_cmd ''dev'' [] [n] sample_world = Done (dir, config, specs)"
    using assms by (auto simp: is_done_iff)
  have "parse_workspace_flags (cm_cwd sample_cmd) ''dev'' (cm_home sample_cmd) [] [''a''] = Done [sample_spec ''a'']"
    "parse_workspace_flags (cm_cwd sample_cmd) ''dev'' (cm_home sample_cmd) [] [''b''] = Done [sample_spec ''b'']"
    by code_simp+
  then show ?thesis using p add_prepare_parts [OF p] assms sample_load by auto
qed

theorem concurrent_add_lost_witness:
  "\<exists>msg msg' w1 w2 doc t. add_commit sample_cmd ''dev'' (''/h/instances/dev'', sample_config, [sample_spec ''a'']) sample_world = (Done msg, w1) \<and>
    add_commit sample_cmd ''dev'' (''/h/instances/dev'', sample_config, [sample_spec ''b'']) w1 = (Done msg', w2) \<and>
    cw_toml w2 ''/h/instances/dev'' = Some doc \<and> get_table ''workspaces'' doc = JObj t \<and> map_of t ''a'' = None"
proof -
  let ?c1 = "add_commit sample_cmd ''dev'' (''/h/instances/dev'', sample_config, [sample_spec ''a'']) sample_world"
  let ?c2 = "add_commit sample_cmd ''dev'' (''/h/instances/dev'', sample_config, [sample_spec ''b'']) (snd ?c1)"
  have "is_done (fst ?c1)" "is_done (fst ?c2)" by code_simp+
  then obtain msg w1 msg' w2 where c: "?c1 = (Done msg, w1)" "add_commit sample_cmd ''dev'' (''/h/instances/dev'', sample_config, [sample_spec ''b'']) w1 = (Done msg', w2)"
    by (metis is_done_iff prod.collapse)
  have d: "distinct (map sp_name (config_specs sample_config @ [sample_spec ''b'']))" by code_simp
  have n: "sp_name (sample_spec ''a'') \<notin> sp_name ` set [sample_spec ''b'']" by (simp add: sample_spec_def)
  show ?thesis
    using concurrent_add_lost [OF sample_prepare [of "''a''"] sample_prepare [of "''b''"] c refl d list.set_intros(1) n] c
    by (auto simp: sample_spec_def)
qed



end
