(* ===== verification/Lifecycle.thy ===== *)
theory Lifecycle
  imports Workspace_Commands Acl_Plan Ipam Binary_Install "HOL-Library.Code_Target_Nat"
begin

text \<open>
  Stopping and destroying an instance: \<open>stop\<close>, \<open>destroy\<close> and the teardown they share in \<open>src/src/cli/main.py\<close>. The
  state joins what the commands act on: the file tree with the documents and the registry, the host on which access
  entries are revoked, and the ledger. What Docker does is outside; only the outcome of each op is seen. The plan of the
  helper files, the revocations, the backup and the ledger are those of the other theories.
\<close>

record life_world =
  lw_cmd :: cmd_world
  lw_host :: host_world
  lw_ipam :: ipam_state

record life_env =
  le_cmd :: cmd_env
  le_os :: os_iface
  le_pid :: nat
  le_unlink_denied :: "string list \<Rightarrow> bool"
  le_rmtree_left :: "string list \<Rightarrow> node option"
  le_relock_free :: bool
  le_typed_name :: string
  le_ask :: "string \<Rightarrow> bool"

text \<open>A \<open>SandboxExecutionError\<close>, which callers turn into a warning, and everything else.\<close>

datatype life_fault = SandboxFault | OtherFault

definition host_life_fault :: "host_error \<Rightarrow> life_fault" where
  "host_life_fault e = (if e = SettingsValueError then OtherFault else SandboxFault)"

definition invoke_life_fault :: "invoke_error \<Rightarrow> life_fault" where
  "invoke_life_fault e =
     (case e of ExecFault _ \<Rightarrow> SandboxFault | DispatchFault (HostFault h) \<Rightarrow> host_life_fault h | _ \<Rightarrow> OtherFault)"

definition set_tree :: "node \<Rightarrow> life_world \<Rightarrow> life_world" where
  "set_tree fs lw = lw\<lparr>lw_cmd := set_fs fs (lw_cmd lw)\<rparr>"

definition lw_fs :: "life_world \<Rightarrow> node" where
  "lw_fs lw = cw_fs (lw_cmd lw)"

section \<open>Teardown\<close>

definition compose_down :: "life_env \<Rightarrow> string \<Rightarrow> instance_config \<Rightarrow> bool \<Rightarrow> docker_execution_mode \<Rightarrow> life_fault + unit" where
  "compose_down env host_user config volumes mode =
     (case bindE (helper_config host_user mode) (\<lambda>h.
             invoke (cm_runtime (le_cmd env)) h COMPOSE_DOWN (inst_name config # (if volumes then [''--volumes''] else []))) of
        Inl e \<Rightarrow> Inl (invoke_life_fault e) | Inr _ \<Rightarrow> Inr ())"

definition unlink_warning :: "string list \<Rightarrow> string" where
  "unlink_warning path = ''unlink '' @ parts_str path"

text \<open>One \<open>unlink\<close>: a missing file is passed over, any other failure is a warning.\<close>

definition unlink_file :: "life_env \<Rightarrow> string list \<Rightarrow> string list \<times> node \<Rightarrow> string list \<times> node" where
  "unlink_file env path acc =
     (case acc of (warnings, fs) \<Rightarrow>
        case node_at fs path of
          None \<Rightarrow> (warnings, fs)
        | Some n \<Rightarrow>
            if is_real_dir n \<or> le_unlink_denied env path then (warnings @ [unlink_warning path], fs)
            else (warnings, set_at path None fs))"

definition consumer_files :: "helper_cp_chown list \<Rightarrow> string list list" where
  "consumer_files plan = concat (map (\<lambda>a. map (\<lambda>fname. hc_parent a @ [fname]) (hc_files a)) plan)"

definition stop_unlink_consumer_files ::
  "life_env \<Rightarrow> string \<Rightarrow> string \<Rightarrow> life_world \<Rightarrow> (life_fault + string list) \<times> life_world" where
  "stop_unlink_consumer_files env dir host_user lw =
     (case helper_cp_chown_plan (d_host (rt_env (cm_runtime (le_cmd env)))) dir host_user of
        Inl e \<Rightarrow> (Inl (host_life_fault e), lw)
      | Inr plan \<Rightarrow>
          (let (warnings, fs) = fold (unlink_file env) (consumer_files plan) ([], lw_fs lw)
           in (Inr warnings, set_tree fs lw)))"

definition revoke_phase :: "life_env \<Rightarrow> string \<Rightarrow> string \<Rightarrow> string list \<Rightarrow> life_world \<Rightarrow> string list \<times> life_world" where
  "revoke_phase env dir host_user ws_paths lw =
     (case revoke_acls (le_os env) (acl_revoke_plan dir host_user ws_paths) (lw_host lw) of
        (Inl exc, h) \<Rightarrow> ([exc], lw\<lparr>lw_host := h\<rparr>)
      | (Inr warnings, h) \<Rightarrow> (warnings, lw\<lparr>lw_host := h\<rparr>))"

definition unlink_and_revoke ::
  "life_env \<Rightarrow> string \<Rightarrow> string \<Rightarrow> string list \<Rightarrow> life_world \<Rightarrow> (life_fault + string list) \<times> life_world" where
  "unlink_and_revoke env dir host_user ws_paths lw =
     (case stop_unlink_consumer_files env dir host_user lw of
        (Inl e, lw') \<Rightarrow> (Inl e, lw')
      | (Inr ws1, lw') \<Rightarrow> (let (ws2, lw'') = revoke_phase env dir host_user ws_paths lw' in (Inr (ws1 @ ws2), lw'')))"

definition stop_teardown ::
  "life_env \<Rightarrow> string \<Rightarrow> string \<Rightarrow> instance_config \<Rightarrow> string list \<Rightarrow> bool \<Rightarrow> docker_execution_mode \<Rightarrow> life_world \<Rightarrow>
   (life_fault + string list) \<times> life_world" where
  "stop_teardown env dir host_user config ws_paths volumes mode lw =
     (case compose_down env host_user config volumes mode of
        Inl e \<Rightarrow> (Inl e, lw)
      | Inr _ \<Rightarrow> unlink_and_revoke env dir host_user ws_paths lw)"

text \<open>The paths of the workspaces, in the order of their names.\<close>

definition workspace_paths_of :: "instance_config \<Rightarrow> string list" where
  "workspace_paths_of config = map (\<lambda>e. ws_path (snd e)) (sort_key fst (workspaces config))"

section \<open>stop\<close>

definition stop_prepare ::
  "life_env \<Rightarrow> string \<Rightarrow> life_world \<Rightarrow> (string \<times> instance_config \<times> host_settings \<times> string \<times> bool) cmd_result" where
  "stop_prepare env inst lw =
     bindC (refuse_root_euid (le_cmd env)) (\<lambda>_.
     bindC (require_per_user_state_initialized (le_cmd env) (lw_cmd lw)) (\<lambda>_.
     bindC (load_instance (le_cmd env) inst (lw_cmd lw)) (\<lambda>(dir, config).
     bindC (resolve_full_host_config (le_cmd env)) (\<lambda>h.
     bindC (daemon_owner (le_cmd env) h) (\<lambda>host_user.
     bindC (warm_check (le_cmd env) dir host_user (docker_execution_mode h) (lw_cmd lw)) (\<lambda>warm.
       Done (dir, config, h, host_user, warm)))))))"

definition stop :: "life_env \<Rightarrow> string \<Rightarrow> bool \<Rightarrow> life_world \<Rightarrow> string list cmd_result \<times> life_world" where
  "stop env inst clean lw =
     (case stop_prepare env inst lw of
        Done (dir, config, h, host_user, warm) \<Rightarrow>
          if \<not> warm then (Done [''Sandbox '' @ sq inst @ '' is not running. Nothing to stop.''], lw)
          else if \<not> cm_state_lock_free (le_cmd env) then (busy, lw)
          else if cm_backup_held (le_cmd env) inst
          then (Exit1 (''Backup in progress for '' @ py_repr inst @ ''; wait or `sandbox doctor` to inspect.''), lw)
          else (case stop_teardown env dir host_user config (workspace_paths_of config) clean (docker_execution_mode h) lw of
                  (Inl e, lw') \<Rightarrow> (Traceback ''SandboxExecutionError'', lw')
                | (Inr warnings, lw') \<Rightarrow>
                    (Done (warnings @ [''Sandbox '' @ sq inst @ (if clean then '' stopped. Named volumes destroyed '' @ em_dash @ '' data unrecoverable.''
                       else '' stopped. Named volumes preserved.'')]), lw'))
      | Exit1 s \<Rightarrow> (Exit1 s, lw) | UsageError s \<Rightarrow> (UsageError s, lw) | Traceback s \<Rightarrow> (Traceback s, lw))"

section \<open>destroy\<close>

definition resolve_backup_workspaces_spec :: "string \<Rightarrow> string list \<Rightarrow> string list cmd_result" where
  "resolve_backup_workspaces_spec spec available =
     (let parts = map py_strip (py_split CHR '','' spec);
          unknown = filter (\<lambda>p. p \<notin> set available) parts
      in if ''all'' \<in> set parts \<and> length parts > 1 then UsageError (''cannot combine '' @ sq ''all'' @ '' with named workspaces'')
         else if parts = [''all''] then Done (sort (remdups available))
         else if parts = [''none''] then Done []
         else if ''none'' \<in> set parts then UsageError (''cannot combine '' @ sq ''none'' @ '' with named workspaces'')
         else if unknown \<noteq> [] then UsageError (''workspace(s) not found in instance: '' @ py_join '', '' unknown)
         else Done parts)"

definition backup_selection :: "life_env \<Rightarrow> string option \<Rightarrow> string list \<Rightarrow> string list cmd_result" where
  "backup_selection env spec available =
     (case spec of
        Some s \<Rightarrow> resolve_backup_workspaces_spec s available
      | None \<Rightarrow>
          if cm_tty (le_cmd env) then Done (filter (le_ask env) (sort (remdups available)))
          else Exit1 ''destroy in non-interactive mode requires --backup-workspaces=...'')"

text \<open>Everything before the locks; \<open>None\<close>: the operator typed another name.\<close>

definition destroy_prepare ::
  "life_env \<Rightarrow> string \<Rightarrow> bool \<Rightarrow> string option \<Rightarrow> life_world \<Rightarrow>
   (string \<times> instance_config \<times> host_settings \<times> string \<times> string list) option cmd_result" where
  "destroy_prepare env inst force spec lw =
     bindC (refuse_root_euid (le_cmd env)) (\<lambda>_.
     bindC (require_per_user_state_initialized (le_cmd env) (lw_cmd lw)) (\<lambda>_.
     bindC (lookup_instance_or_exit inst (lw_cmd lw)) (\<lambda>dir.
     bindC (checkC (prefix (parts_str (cm_home (le_cmd env) @ [''instances'']) @ ''/'') dir)
       (Exit1 ''[FATAL] Instance directory path fails prefix guard. Aborting.'')) (\<lambda>_.
     bindC (load_config (le_cmd env) dir (lw_cmd lw)) (\<lambda>config.
     bindC (resolve_full_host_config (le_cmd env)) (\<lambda>h.
     bindC (daemon_owner (le_cmd env) h) (\<lambda>host_user.
       if \<not> force \<and> le_typed_name env \<noteq> inst then Done None
       else bindC (backup_selection env spec (dict_keys (workspaces config))) (\<lambda>backup_set.
         Done (Some (dir, config, h, host_user, backup_set))))))))))"

text \<open>The backups before anything irreversible: the first failure ends the loop.\<close>

fun destroy_backups ::
  "life_env \<Rightarrow> string \<Rightarrow> instance_config \<Rightarrow> string list \<Rightarrow> backup_state \<Rightarrow> unit cmd_result \<times> backup_state" where
  "destroy_backups env inst config [] st = (Done (), st)"
| "destroy_backups env inst config (ws # wss) st =
     (case map_of (workspaces config) ws of
        None \<Rightarrow> (Traceback ''KeyError'', st)
      | Some target \<Rightarrow>
          (case create_backup (cm_backup (le_cmd env)) inst ws (ws_path target) (mode_text (ws_bootstrap_mode target))
                  (bk_gid (cm_backup (le_cmd env))) COPY_DEFAULT_EXCLUDES [] (cm_now (le_cmd env)) False st of
             (Inl e, st') \<Rightarrow>
               ((if is_backup_error e then Exit1 (''Backup of workspace '' @ py_repr ws @ '' failed'') else Traceback ''OSError''), st')
           | (Inr _, st') \<Rightarrow> destroy_backups env inst config wss st'))"

text \<open>\<open>shutil.rmtree\<close>: done, not found, or failed with part of the tree left.\<close>

datatype rmtree_result = Removed | NotFound | RemoveFailed

definition rmtree :: "life_env \<Rightarrow> string list \<Rightarrow> node \<Rightarrow> rmtree_result \<times> node" where
  "rmtree env path fs =
     (case node_at fs path of
        None \<Rightarrow> (NotFound, fs)
      | Some n \<Rightarrow>
          if \<not> is_real_dir n then (RemoveFailed, fs)
          else case le_rmtree_left env path of
                 None \<Rightarrow> (Removed, set_at path None fs)
               | Some left \<Rightarrow> (RemoveFailed, set_at path (Some left) fs))"

definition remove_workspace :: "life_env \<Rightarrow> string \<Rightarrow> string list \<times> node \<Rightarrow> string list \<times> node" where
  "remove_workspace env path acc =
     (case acc of (warnings, fs) \<Rightarrow>
        let (r, fs') = rmtree env (path_parts path) fs
        in (warnings @ (if r = RemoveFailed then [''workspace tree not removed ('' @ path @ '')''] else []), fs'))"

text \<open>\<open>rmdir\<close>, its failure ignored: only an empty directory goes.\<close>

definition rmdir_quiet :: "string list \<Rightarrow> node \<Rightarrow> node" where
  "rmdir_quiet path fs = (case node_at fs path of Some (NDir g []) \<Rightarrow> set_at path None fs | _ \<Rightarrow> fs)"

text \<open>D7 to D10.\<close>

definition destroy_remove ::
  "life_env \<Rightarrow> string \<Rightarrow> string \<Rightarrow> instance_config \<Rightarrow> string list \<Rightarrow> life_world \<Rightarrow> string list cmd_result \<times> life_world" where
  "destroy_remove env inst dir config warnings lw =
     (case rmtree env (path_parts dir) (lw_fs lw) of
        (RemoveFailed, fs) \<Rightarrow> (Traceback ''OSError'', set_tree fs lw)
      | (_, fs1) \<Rightarrow>
          (let (ws2, fs2) = fold (remove_workspace env) (map (\<lambda>e. ws_path (snd e)) (workspaces config)) ([], fs1);
               fs3 = rmdir_quiet (cm_home (le_cmd env) @ [''workspaces'', inst]) fs2;
               (rel, ipam') = release (le_pid env) inst (lw_ipam lw);
               lw1 = (set_tree fs3 lw)\<lparr>lw_ipam := ipam'\<rparr>;
               ws3 = (case rel of Inl _ \<Rightarrow> [''IPAM release warning''] | Inr _ \<Rightarrow> []);
               lw2 = lw1\<lparr>lw_cmd := (lw_cmd lw1)\<lparr>cw_registry := registry_remove inst (cw_registry (lw_cmd lw1))\<rparr>\<rparr>
           in (Done (warnings @ ws2 @ ws3 @ [''Sandbox '' @ py_repr inst @ '' permanently destroyed. IPAM slot freed for reuse.'']), lw2)))"

text \<open>D5 and D6: a compose failure is a warning, and the rest of the teardown runs separately.\<close>

definition destroy_teardown ::
  "life_env \<Rightarrow> string \<Rightarrow> string \<Rightarrow> instance_config \<Rightarrow> docker_execution_mode \<Rightarrow> life_world \<Rightarrow> (life_fault + string list) \<times> life_world" where
  "destroy_teardown env dir host_user config mode lw =
     (case stop_teardown env dir host_user config (workspace_paths_of config) True mode lw of
        (Inl SandboxFault, lw1) \<Rightarrow>
          (case unlink_and_revoke env dir host_user (workspace_paths_of config) lw1 of
             (Inl e, lw2) \<Rightarrow> (Inl e, lw2)
           | (Inr ws, lw2) \<Rightarrow> (Inr (''Compose teardown warning'' # ws), lw2))
      | r \<Rightarrow> r)"

definition destroy_locked ::
  "life_env \<Rightarrow> string \<Rightarrow> string \<times> instance_config \<times> host_settings \<times> string \<times> string list \<Rightarrow> life_world \<Rightarrow>
   string list cmd_result \<times> life_world" where
  "destroy_locked env inst p lw =
     (case p of (dir, config, h, host_user, backup_set) \<Rightarrow>
        case compose_down env host_user config False (docker_execution_mode h) of
          Inl OtherFault \<Rightarrow> (Traceback ''DispatchError'', lw)
        | r \<Rightarrow>
            (let ws0 = (case r of Inl _ \<Rightarrow> [''Compose down warning''] | Inr _ \<Rightarrow> [])
             in case destroy_backups env inst config backup_set (cw_backup (lw_cmd lw)) of
                  (Done _, st) \<Rightarrow>
                    (let lw1 = lw\<lparr>lw_cmd := (lw_cmd lw)\<lparr>cw_backup := st\<rparr>\<rparr>
                     in if \<not> le_relock_free env then (busy, lw1)
                        else case destroy_teardown env dir host_user config (docker_execution_mode h) lw1 of
                               (Inl _, lw2) \<Rightarrow> (Traceback ''SandboxExecutionError'', lw2)
                             | (Inr ws1, lw2) \<Rightarrow> destroy_remove env inst dir config (ws0 @ ws1) lw2)
                | (Exit1 s, st) \<Rightarrow> (Exit1 s, lw\<lparr>lw_cmd := (lw_cmd lw)\<lparr>cw_backup := st\<rparr>\<rparr>)
                | (UsageError s, st) \<Rightarrow> (UsageError s, lw\<lparr>lw_cmd := (lw_cmd lw)\<lparr>cw_backup := st\<rparr>\<rparr>)
                | (Traceback s, st) \<Rightarrow> (Traceback s, lw\<lparr>lw_cmd := (lw_cmd lw)\<lparr>cw_backup := st\<rparr>\<rparr>)))"

definition destroy :: "life_env \<Rightarrow> string \<Rightarrow> bool \<Rightarrow> string option \<Rightarrow> life_world \<Rightarrow> string list cmd_result \<times> life_world" where
  "destroy env inst force spec lw =
     (case destroy_prepare env inst force spec lw of
        Done None \<Rightarrow> (Done [''Aborted.''], lw)
      | Done (Some p) \<Rightarrow>
          if \<not> cm_state_lock_free (le_cmd env) then (busy, lw)
          else if cm_backup_held (le_cmd env) inst
          then (Exit1 (''Backup in progress for '' @ py_repr inst @ ''; wait or `sandbox doctor` to inspect.''), lw)
          else if \<not> bk_lock_free (cm_backup (le_cmd env)) inst then (Traceback ''BackupLockHeldError'', lw)
          else destroy_locked env inst p lw
      | Exit1 s \<Rightarrow> (Exit1 s, lw) | UsageError s \<Rightarrow> (UsageError s, lw) | Traceback s \<Rightarrow> (Traceback s, lw))"

section \<open>Lemmas\<close>

lemma lw_fs_simps [simp]:
  "lw_fs (set_tree fs lw) = fs" "lw_cmd (set_tree fs lw) = set_fs fs (lw_cmd lw)"
  "lw_host (set_tree fs lw) = lw_host lw" "lw_ipam (set_tree fs lw) = lw_ipam lw"
  "lw_fs (lw\<lparr>lw_host := h\<rparr>) = lw_fs lw" "lw_fs (lw\<lparr>lw_ipam := s\<rparr>) = lw_fs lw" "lw_fs (lw\<lparr>lw_cmd := c\<rparr>) = cw_fs c"
  by (simp_all add: lw_fs_def set_tree_def)

lemma cw_fs_registry [simp]: "cw_fs (c\<lparr>cw_registry := f\<rparr>) = cw_fs c"
  by (simp add: cw_fs_def)

text \<open>Changes that lie neither above nor below the root of the backups leave them alone.\<close>

definition apart :: "backup_env \<Rightarrow> string list \<Rightarrow> bool" where
  "apart env p \<longleftrightarrow> \<not> prefix p (backups_root env) \<and> \<not> prefix (backups_root env) p"

lemma same_backups_set_apart: "apart env p \<Longrightarrow> same_backups env fs (set_at p c fs)"
  unfolding same_backups_def apart_def backup_dir_def
  by (auto intro!: node_at_set_other dest: append_prefixD prefix_append_cases)

lemma apart_below: "apart env p \<Longrightarrow> prefix p q \<Longrightarrow> apart env q"
  unfolding apart_def by (meson prefix_order.trans prefix_same_cases)

lemma same_backups_unlink: "apart env p \<Longrightarrow> same_backups env (snd acc) (snd (unlink_file le p acc))"
  by (auto simp: unlink_file_def same_backups_set_apart split: option.split prod.split)

lemma same_backups_rmtree: "apart env p \<Longrightarrow> same_backups env fs (snd (rmtree le p fs))"
  by (auto simp: rmtree_def same_backups_set_apart split: option.split)

lemma same_backups_remove_workspace:
  "apart env (path_parts p) \<Longrightarrow> same_backups env (snd acc) (snd (remove_workspace le p acc))"
  using same_backups_rmtree [of env "path_parts p" "snd acc" le] by (auto simp: remove_workspace_def split: prod.split)

lemma same_backups_rmdir: "apart env p \<Longrightarrow> same_backups env fs (rmdir_quiet p fs)"
  by (auto simp: rmdir_quiet_def same_backups_set_apart split: option.split node.split list.split)

lemma fold_same_backups:
  assumes "\<And>x acc. x \<in> set xs \<Longrightarrow> same_backups env (snd acc) (snd (f x acc))"
  shows "same_backups env (snd acc) (snd (fold f xs acc))"
  using assms
proof (induction xs arbitrary: acc)
  case (Cons a xs)
  show ?case using same_backups_trans [OF Cons.prems [of a acc] Cons.IH [of "f a acc"]] Cons.prems by simp
qed simp

text \<open>The files the helpers copied lie below the instance directory.\<close>

lemma recipe_parts: "r \<in> set FILE_RECIPES \<Longrightarrow> \<not> prefix ''/'' (fst r)"
  by (auto simp: FILE_RECIPES_def RO_FILE_RECIPES_def EXEC_FILE_RECIPES_def RW_FILE_RECIPES_def)

lemma consumer_files_below:
  assumes "helper_cp_chown_plan env dir host_user = Inr plan" and "p \<in> set (consumer_files plan)"
  shows "prefix (path_parts dir) p"
proof -
  obtain a fname where a: "a \<in> set plan" "p = hc_parent a @ [fname]" using assms(2) by (auto simp: consumer_files_def)
  have "hc_parent a \<in> set (map hc_parent plan)" using a(1) by simp
  also have "map hc_parent plan = map (\<lambda>r. path_parts (path_join dir (fst r))) FILE_RECIPES"
    using cp_chown_parents assms(1) unfolding helper_cp_chown_plan_def by blast
  finally obtain r where "r \<in> set FILE_RECIPES" "hc_parent a = path_parts (path_join dir (fst r))" by auto
  then show ?thesis using a(2) path_parts_join [OF recipe_parts] by simp
qed

lemma same_backups_unlink_and_revoke:
  assumes "apart env (path_parts dir)" and "unlink_and_revoke le dir host_user wss lw = (r, lw')"
  shows "same_backups env (lw_fs lw) (lw_fs lw')"
proof (cases "helper_cp_chown_plan (d_host (rt_env (cm_runtime (le_cmd le)))) dir host_user")
  case (Inl e)
  with assms(2) show ?thesis by (simp add: unlink_and_revoke_def stop_unlink_consumer_files_def)
next
  case (Inr plan)
  have "same_backups env (lw_fs lw) (snd (fold (unlink_file le) (consumer_files plan) ([], lw_fs lw)))"
    using fold_same_backups [of "consumer_files plan" env "unlink_file le" "([], lw_fs lw)"]
      same_backups_unlink consumer_files_below [OF Inr] apart_below [OF assms(1)] by simp
  with assms(2) Inr show ?thesis
    by (auto simp: unlink_and_revoke_def stop_unlink_consumer_files_def revoke_phase_def split: prod.splits sum.splits)
qed

lemma same_backups_destroy_teardown:
  assumes "apart env (path_parts dir)" and "destroy_teardown le dir host_user config mode lw = (r, lw')"
  shows "same_backups env (lw_fs lw) (lw_fs lw')"
  using assms(2) same_backups_unlink_and_revoke [OF assms(1)] same_backups_trans
  unfolding destroy_teardown_def stop_teardown_def
  by (fastforce split: sum.splits prod.splits life_fault.splits)

lemma same_backups_destroy_remove:
  assumes "apart env (path_parts dir)" and "\<And>e. e \<in> set (workspaces config) \<Longrightarrow> apart env (path_parts (ws_path (snd e)))"
    and "apart env (cm_home (le_cmd le) @ [''workspaces'', inst])"
    and "destroy_remove le inst dir config warnings lw = (r, lw')"
  shows "same_backups env (lw_fs lw) (lw_fs lw')"
proof -
  obtain x fs1 where rm: "rmtree le (path_parts dir) (lw_fs lw) = (x, fs1)" by fastforce
  obtain ws2 fs2 where fold: "fold (remove_workspace le) (map (\<lambda>e. ws_path (snd e)) (workspaces config)) ([], fs1) = (ws2, fs2)"
    by fastforce
  have 1: "same_backups env (lw_fs lw) fs1" using same_backups_rmtree [OF assms(1), of "lw_fs lw" le] rm by simp
  have 2: "same_backups env fs1 fs2"
    using fold_same_backups [of "map (\<lambda>e. ws_path (snd e)) (workspaces config)" env "remove_workspace le" "([], fs1)"]
      same_backups_remove_workspace assms(2) fold by (metis (no_types, lifting) imageE list.set_map snd_conv)
  note 3 = same_backups_rmdir [OF assms(3), of fs2]
  show ?thesis
    using assms(4) 1 same_backups_trans [OF same_backups_trans [OF 1 2] 3]
    by (auto simp: destroy_remove_def rm fold Let_def split: rmtree_result.splits prod.splits)
qed

text \<open>The loop of the backups: one by one, or nothing but backups has changed.\<close>

lemma destroy_backups_outcome:
  assumes conf: "rsync_confined (cm_backup (le_cmd env))"
    and "\<And>ws. ws \<in> set wss \<Longrightarrow> clean_parts (backup_dir (cm_backup (le_cmd env)) inst ws (utc_timestamp (cm_now (le_cmd env))))"
    and "destroy_backups env inst config wss st = (r, st')"
  shows "same_outside (cm_backup (le_cmd env)) (bs_fs st) (bs_fs st') \<and>
    backup_keys (cm_backup (le_cmd env)) no_filter (bs_fs st) \<subseteq> backup_keys (cm_backup (le_cmd env)) no_filter (bs_fs st') \<and>
    (r = Done () \<longrightarrow> (\<forall>ws \<in> set wss.
       (inst, ws, utc_timestamp (cm_now (le_cmd env))) \<in> backup_keys (cm_backup (le_cmd env)) no_filter (bs_fs st')))"
  using assms(2,3)
proof (induction wss arbitrary: st)
  case (Cons ws wss)
  show ?case
  proof (cases "map_of (workspaces config) ws")
    case None
    with Cons.prems(2) show ?thesis by auto
  next
    case (Some target)
    obtain b st1 where cr: "create_backup (cm_backup (le_cmd env)) inst ws (ws_path target) (mode_text (ws_bootstrap_mode target))
        (bk_gid (cm_backup (le_cmd env))) COPY_DEFAULT_EXCLUDES [] (cm_now (le_cmd env)) False st = (b, st1)" by fastforce
    have clean: "clean_parts (backup_dir (cm_backup (le_cmd env)) inst ws (utc_timestamp (cm_now (le_cmd env))))"
      using Cons.prems(1) by simp
    note out = create_backup_outside [OF conf clean cr]
    show ?thesis
    proof (cases b)
      case (Inl e)
      have "backup_keys (cm_backup (le_cmd env)) no_filter (bs_fs st1) = backup_keys (cm_backup (le_cmd env)) no_filter (bs_fs st)"
        using create_backup_outcome [OF conf clean cr] Inl by (simp add: undisturbed_def same_backups_keys)
      then show ?thesis using Cons.prems(2) out by (auto simp: Some cr Inl split: if_splits)
    next
      case (Inr info)
      note keys = create_backup_adds [OF conf clean cr [unfolded Inr], THEN conjunct1]
      have rest: "destroy_backups env inst config wss st1 = (r, st')" using Cons.prems(2) by (simp add: Some cr Inr)
      show ?thesis
        using Cons.IH [OF Cons.prems(1) rest] keys same_outside_trans [OF out] by auto
    qed
  qed
qed auto

section \<open>Properties\<close>

text \<open>Where an instance and its workspaces lie, apart from the backups.\<close>

definition standard_layout :: "life_env \<Rightarrow> string \<Rightarrow> string \<Rightarrow> instance_config \<Rightarrow> bool" where
  "standard_layout env inst dir config \<longleftrightarrow>
     inst \<noteq> ''_backups'' \<and> path_parts dir = cm_home (le_cmd env) @ [''instances'', inst] \<and>
     list_all (\<lambda>(ws, t). path_parts (ws_path t) = cm_home (le_cmd env) @ [''workspaces'', inst, ws]) (workspaces config)"

lemma standard_layout_apart:
  assumes "standard_layout env inst dir config"
  shows "apart (cm_backup (le_cmd env)) (path_parts dir)"
    and "e \<in> set (workspaces config) \<Longrightarrow> apart (cm_backup (le_cmd env)) (path_parts (ws_path (snd e)))"
    and "apart (cm_backup (le_cmd env)) (cm_home (le_cmd env) @ [''workspaces'', inst])"
  using assms by (auto simp: standard_layout_def apart_def backups_root_def cm_home_def list_all_iff)

lemma same_backups_destroy_tail:
  assumes "standard_layout env inst dir config"
    and "destroy_teardown env dir host_user config mode lw = (t, lw1)"
    and "(case t of Inl _ \<Rightarrow> (Traceback e, lw1) | Inr ws \<Rightarrow> destroy_remove env inst dir config (ws0 @ ws) lw1) = (r, lw')"
  shows "same_backups (cm_backup (le_cmd env)) (lw_fs lw) (lw_fs lw')"
proof -
  note lay = standard_layout_apart [OF assms(1)]
  note tear = same_backups_destroy_teardown [OF lay(1) assms(2)]
  show ?thesis
    using assms(3) tear same_backups_trans [OF tear same_backups_destroy_remove [OF lay]] by (auto split: sum.splits)
qed

text \<open>How the part under the lock ends: before the point of no return, or with the teardown and the removals.\<close>

lemma destroy_locked_cases:
  assumes "destroy_locked env inst (dir, config, h, host_user, selected) lw = (r, lw')"
    and db: "destroy_backups env inst config selected (cw_backup (lw_cmd lw)) = (d, st)"
    and lw1: "lw1 = lw\<lparr>lw_cmd := (lw_cmd lw)\<lparr>cw_backup := st\<rparr>\<rparr>"
    and tear: "destroy_teardown env dir host_user config (docker_execution_mode h) lw1 = (t, lw2)"
  obtains "lw' = lw \<or> lw' = lw1" "\<nexists>msg. r = Done msg"
    | ws0 e where "d = Done ()"
      "(case t of Inl _ \<Rightarrow> (Traceback e, lw2) | Inr ws \<Rightarrow> destroy_remove env inst dir config (ws0 @ ws) lw2) = (r, lw')"
proof -
  let ?c = "compose_down env host_user config False (docker_execution_mode h)"
  let ?ws0 = "case ?c of Inl _ \<Rightarrow> [''Compose down warning''] | Inr _ \<Rightarrow> []"
  have "destroy_locked env inst (dir, config, h, host_user, selected) lw =
      (if ?c = Inl OtherFault then (Traceback ''DispatchError'', lw)
       else case d of
         Done _ \<Rightarrow> if \<not> le_relock_free env then (busy, lw1)
           else (case t of Inl _ \<Rightarrow> (Traceback ''SandboxExecutionError'', lw2)
                 | Inr ws1 \<Rightarrow> destroy_remove env inst dir config (?ws0 @ ws1) lw2)
       | Exit1 s \<Rightarrow> (Exit1 s, lw1) | UsageError s \<Rightarrow> (UsageError s, lw1) | Traceback s \<Rightarrow> (Traceback s, lw1))"
  proof (cases ?c)
    case (Inl f)
    then show ?thesis by (cases f) (simp_all add: destroy_locked_def db tear lw1 [symmetric] Inl split: cmd_result.split sum.split)
  next
    case (Inr u)
    then show ?thesis by (simp add: destroy_locked_def db tear lw1 [symmetric] split: cmd_result.split sum.split)
  qed
  with assms(1) that show thesis by (cases d) (auto simp: busy_def split: if_splits)
qed


text \<open>What one \<open>unlink\<close> and one removal achieve.\<close>

definition unrelated :: "string list \<Rightarrow> string list \<Rightarrow> bool" where
  "unrelated p q \<longleftrightarrow> \<not> prefix p q \<and> \<not> prefix q p"

lemma node_at_removed: "p \<noteq> [] \<Longrightarrow> node_at (set_at p None fs) p = None"
proof (cases "node_at fs p")
  case (Some n)
  moreover assume "p \<noteq> []"
  then obtain ps x where p: "p = ps @ [x]" by (cases p rule: rev_cases) auto
  ultimately have "dir_at fs ps" using parent_dir_at by blast
  then show ?thesis using node_at_set_same [of fs ps x None "[]"] by (simp add: p)
qed (rule node_at_set_None)

lemma unlink_file_effect:
  assumes "unlink_file env p (w, fs) = (w', fs')" and "p \<noteq> []"
  shows "set w \<subseteq> set w'" and "node_at fs' p = None \<or> unlink_warning p \<in> set w'"
    and "node_at fs q = None \<Longrightarrow> node_at fs' q = None" and "unrelated p q \<Longrightarrow> node_at fs' q = node_at fs q"
  using assms node_at_set_other [where ps = p and qs = q and c = None and n = fs]
  by (auto simp: unlink_file_def node_at_removed node_at_set_None unrelated_def split: option.splits if_splits)

lemma unlink_all_effect:
  assumes "fold (unlink_file env) ps (w, fs) = (w', fs')" and "[] \<notin> set ps"
  shows "set w \<subseteq> set w' \<and> (\<forall>p \<in> set ps. node_at fs' p = None \<or> unlink_warning p \<in> set w') \<and>
    (\<forall>q. (\<forall>p \<in> set ps. unrelated p q) \<longrightarrow> node_at fs' q = node_at fs q)"
  using assms
proof (induction ps arbitrary: w' fs' rule: rev_induct)
  case (snoc p ps)
  obtain w1 fs1 where f: "fold (unlink_file env) ps (w, fs) = (w1, fs1)" by fastforce
  have u: "unlink_file env p (w1, fs1) = (w', fs')" using snoc.prems(1) f by simp
  have p: "p \<noteq> []" using snoc.prems(2) by auto
  note eff = unlink_file_effect [OF u p]
  show ?case using snoc.IH [OF f] snoc.prems(2) eff by auto
qed simp

lemma rmtree_effect:
  assumes "rmtree env p fs = (x, fs')"
  shows "p \<noteq> [] \<Longrightarrow> x \<noteq> RemoveFailed \<Longrightarrow> node_at fs' p = None"
    and "node_at fs q = None \<Longrightarrow> q = p \<or> unrelated p q \<Longrightarrow> node_at fs' q = None"
  using assms node_at_set_other [where ps = p and qs = q and n = fs]
  by (auto simp: rmtree_def node_at_removed node_at_set_None unrelated_def split: option.splits if_splits)

lemma remove_workspaces_effect:
  assumes "fold (remove_workspace env) ps (w, fs) = (w', fs')" and "\<And>p. p \<in> set ps \<Longrightarrow> path_parts p \<noteq> []"
    and "\<And>p q. p \<in> set ps \<Longrightarrow> q \<in> set ps \<Longrightarrow> path_parts q = path_parts p \<or> unrelated (path_parts p) (path_parts q)"
  shows "(\<forall>p \<in> set ps. node_at fs' (path_parts p) = None \<or> ''workspace tree not removed ('' @ p @ '')'' \<in> set w') \<and>
    (\<forall>q. node_at fs q = None \<longrightarrow> (\<forall>p \<in> set ps. unrelated (path_parts p) q) \<longrightarrow> node_at fs' q = None)"
  using assms
proof (induction ps arbitrary: w' fs' rule: rev_induct)
  case (snoc p ps)
  obtain w1 fs1 where f: "fold (remove_workspace env) ps (w, fs) = (w1, fs1)" by fastforce
  obtain x where rm: "rmtree env (path_parts p) fs1 = (x, fs')"
    and w': "w' = w1 @ (if x = RemoveFailed then [''workspace tree not removed ('' @ p @ '')''] else [])"
    using snoc.prems(1) f remove_workspace_def [of env p "(w1, fs1)"] by (auto split: prod.splits)
  note eff = rmtree_effect [OF rm]
  show ?case using snoc.IH [OF f] snoc.prems(2,3) eff unfolding w' by auto
qed simp

lemma rmdir_quiet_None: "node_at fs q = None \<Longrightarrow> node_at (rmdir_quiet p fs) q = None"
  by (auto simp: rmdir_quiet_def node_at_set_None split: option.split node.split list.split)

lemma teardown_keeps:
  "unlink_and_revoke env dir host_user wss lw = (r, lw') \<Longrightarrow>
     cw_toml (lw_cmd lw') = cw_toml (lw_cmd lw) \<and> cw_registry (lw_cmd lw') = cw_registry (lw_cmd lw) \<and> lw_ipam lw' = lw_ipam lw"
  "destroy_teardown env dir host_user config mode lw = (r, lw') \<Longrightarrow>
     cw_toml (lw_cmd lw') = cw_toml (lw_cmd lw) \<and> cw_registry (lw_cmd lw') = cw_registry (lw_cmd lw) \<and> lw_ipam lw' = lw_ipam lw"
proof -
  have u: "cw_toml (lw_cmd lw') = cw_toml (lw_cmd lw) \<and> cw_registry (lw_cmd lw') = cw_registry (lw_cmd lw) \<and> lw_ipam lw' = lw_ipam lw"
    if "unlink_and_revoke env dir host_user wss lw = (r, lw')" for wss r lw lw'
    using that by (auto simp: unlink_and_revoke_def stop_unlink_consumer_files_def revoke_phase_def Let_def split: sum.splits prod.splits)
  show "unlink_and_revoke env dir host_user wss lw = (r, lw') \<Longrightarrow>
     cw_toml (lw_cmd lw') = cw_toml (lw_cmd lw) \<and> cw_registry (lw_cmd lw') = cw_registry (lw_cmd lw) \<and> lw_ipam lw' = lw_ipam lw"
    by (rule u)
  assume "destroy_teardown env dir host_user config mode lw = (r, lw')"
  then show "cw_toml (lw_cmd lw') = cw_toml (lw_cmd lw) \<and> cw_registry (lw_cmd lw') = cw_registry (lw_cmd lw) \<and> lw_ipam lw' = lw_ipam lw"
    unfolding destroy_teardown_def stop_teardown_def by (fastforce split: sum.splits prod.splits life_fault.splits dest: u)
qed

lemma destroy_remove_Done:
  assumes "destroy_remove env inst dir config warnings lw = (Done msgs, lw')" and "standard_layout env inst dir config"
  shows "node_at (lw_fs lw') (path_parts dir) = None \<and>
    (\<forall>(ws, t) \<in> set (workspaces config). node_at (lw_fs lw') (path_parts (ws_path t)) = None \<or>
       ''workspace tree not removed ('' @ ws_path t @ '')'' \<in> set msgs) \<and>
    cw_registry (lw_cmd lw') = registry_remove inst (cw_registry (lw_cmd lw)) \<and>
    lw_ipam lw' = snd (release (le_pid env) inst (lw_ipam lw)) \<and>
    (fst (release (le_pid env) inst (lw_ipam lw)) = Inr () \<or> ''IPAM release warning'' \<in> set msgs)"
proof -
  let ?paths = "map (\<lambda>e. ws_path (snd e)) (workspaces config)"
  obtain x fs1 where rm: "rmtree env (path_parts dir) (lw_fs lw) = (x, fs1)" by fastforce
  obtain ws2 fs2 where fold: "fold (remove_workspace env) ?paths ([], fs1) = (ws2, fs2)" by fastforce
  obtain rel ipam' where rel: "release (le_pid env) inst (lw_ipam lw) = (rel, ipam')" by fastforce
  have x: "x \<noteq> RemoveFailed" using assms(1) by (auto simp: destroy_remove_def rm)
  have run: "(Done msgs, lw') = (Done (warnings @ ws2 @ (case rel of Inl _ \<Rightarrow> [''IPAM release warning''] | Inr _ \<Rightarrow> []) @
        [''Sandbox '' @ py_repr inst @ '' permanently destroyed. IPAM slot freed for reuse.'']),
      (let lw1 = (set_tree (rmdir_quiet (cm_home (le_cmd env) @ [''workspaces'', inst]) fs2) lw)\<lparr>lw_ipam := ipam'\<rparr>
       in lw1\<lparr>lw_cmd := (lw_cmd lw1)\<lparr>cw_registry := registry_remove inst (cw_registry (lw_cmd lw1))\<rparr>\<rparr>))"
    using assms(1) x by (cases x) (auto simp: destroy_remove_def rm fold rel Let_def)
  have fs: "lw_fs lw' = rmdir_quiet (cm_home (le_cmd env) @ [''workspaces'', inst]) fs2" using run by (simp add: Let_def)
  have dir: "path_parts dir = cm_home (le_cmd env) @ [''instances'', inst]"
    and wp: "(ws, t) \<in> set (workspaces config) \<Longrightarrow> path_parts (ws_path t) = cm_home (le_cmd env) @ [''workspaces'', inst, ws]" for ws t
    using assms(2) by (auto simp: standard_layout_def list_all_iff)
  have "node_at fs1 (path_parts dir) = None" using rmtree_effect(1) [OF rm _ x] by (simp add: dir)
  moreover have "(\<forall>p \<in> set ?paths. node_at fs2 (path_parts p) = None \<or> ''workspace tree not removed ('' @ p @ '')'' \<in> set ws2) \<and>
      (\<forall>q. node_at fs1 q = None \<longrightarrow> (\<forall>p \<in> set ?paths. unrelated (path_parts p) q) \<longrightarrow> node_at fs2 q = None)"
    by (rule remove_workspaces_effect [OF fold]) (auto simp: wp unrelated_def)
  moreover have "\<forall>p \<in> set ?paths. unrelated (path_parts p) (path_parts dir)" by (auto simp: dir wp unrelated_def)
  ultimately have "node_at fs2 (path_parts dir) = None"
    and "\<forall>p \<in> set ?paths. node_at fs2 (path_parts p) = None \<or> ''workspace tree not removed ('' @ p @ '')'' \<in> set ws2"
    by blast+
  then have gone: "node_at (lw_fs lw') (path_parts dir) = None"
      "\<forall>p \<in> set ?paths. node_at (lw_fs lw') (path_parts p) = None \<or> ''workspace tree not removed ('' @ p @ '')'' \<in> set ws2"
    unfolding fs using rmdir_quiet_None by blast+
  have msgs: "set ws2 \<subseteq> set msgs" "rel = Inr () \<or> ''IPAM release warning'' \<in> set msgs"
    using run by (auto split: sum.splits)
  have "\<forall>(ws, t) \<in> set (workspaces config). node_at (lw_fs lw') (path_parts (ws_path t)) = None \<or>
       ''workspace tree not removed ('' @ ws_path t @ '')'' \<in> set msgs"
    using gone(2) subsetD [OF msgs(1)] by (fastforce simp del: append_Cons)
  moreover have "cw_registry (lw_cmd lw') = registry_remove inst (cw_registry (lw_cmd lw))" "lw_ipam lw' = ipam'"
    using run by (auto simp: Let_def set_tree_def set_fs_def)
  ultimately show ?thesis using gone(1) msgs(2) by (simp add: rel)
qed


text \<open>Claim C32: \<open>stop\<close> either changes nothing and says so, or clears the way for the next start. When the sandbox runs and the
  command does not report success (a lock is taken, Compose fails, the plan of the helper files cannot be made), the files,
  documents and ledgers are as before. When it reports success, Compose has gone down, every file that the helpers had
  copied and given away is gone or its failed removal is reported, and no other file has changed.\<close>

theorem stop_outcome:
  assumes "stop_prepare env inst lw = Done (dir, config, h, host_user, True)"
    and "stop env inst clean lw = (r, lw')"
  shows "lw' = lw \<and> (\<nexists>msgs. r = Done msgs) \<or>
    (\<exists>msgs plan. r = Done msgs \<and> compose_down env host_user config clean (docker_execution_mode h) = Inr () \<and>
       helper_cp_chown_plan (d_host (rt_env (cm_runtime (le_cmd env)))) dir host_user = Inr plan \<and>
       (\<forall>p \<in> set (consumer_files plan). node_at (lw_fs lw') p = None \<or> unlink_warning p \<in> set msgs) \<and>
       (\<forall>q. (\<forall>p \<in> set (consumer_files plan). unrelated p q) \<longrightarrow> node_at (lw_fs lw') q = node_at (lw_fs lw) q) \<and>
       cw_toml (lw_cmd lw') = cw_toml (lw_cmd lw) \<and> cw_registry (lw_cmd lw') = cw_registry (lw_cmd lw) \<and> lw_ipam lw' = lw_ipam lw)"
proof -
  let ?wss = "workspace_paths_of config"
  obtain x lw1 where ur: "unlink_and_revoke env dir host_user ?wss lw = (x, lw1)" by fastforce
  have cases: "lw' = lw \<and> (\<nexists>msgs. r = Done msgs) \<or>
      compose_down env host_user config clean (docker_execution_mode h) = Inr () \<and> lw' = lw1 \<and>
        (case x of Inl e \<Rightarrow> \<nexists>msgs. r = Done msgs | Inr ws \<Rightarrow> \<exists>end_msg. r = Done (ws @ [end_msg]))"
    using assms(2) by (auto simp: stop_def assms(1) busy_def stop_teardown_def ur split: if_splits sum.splits prod.splits)
  show ?thesis
  proof (cases "helper_cp_chown_plan (d_host (rt_env (cm_runtime (le_cmd env)))) dir host_user")
    case (Inl e)
    then have "lw1 = lw" "\<exists>f. x = Inl f"
      using ur by (auto simp: unlink_and_revoke_def stop_unlink_consumer_files_def)
    with cases show ?thesis by auto
  next
    case (Inr plan)
    obtain ws1 fs where f: "fold (unlink_file env) (consumer_files plan) ([], lw_fs lw) = (ws1, fs)" by fastforce
    obtain ws2 where x: "x = Inr (ws1 @ ws2)" "lw_fs lw1 = fs"
      using ur by (auto simp: unlink_and_revoke_def stop_unlink_consumer_files_def Inr f revoke_phase_def split: sum.splits prod.splits)
    have "[] \<notin> set (consumer_files plan)" by (auto simp: consumer_files_def)
    note eff = unlink_all_effect [OF f this]
    show ?thesis using cases
    proof
      assume "compose_down env host_user config clean (docker_execution_mode h) = Inr () \<and> lw' = lw1 \<and>
        (case x of Inl e \<Rightarrow> \<nexists>msgs. r = Done msgs | Inr ws \<Rightarrow> \<exists>end_msg. r = Done (ws @ [end_msg]))"
      then obtain m where "compose_down env host_user config clean (docker_execution_mode h) = Inr ()" "lw' = lw1"
        "r = Done ((ws1 @ ws2) @ [m])" by (auto simp: x(1))
      then show ?thesis using eff teardown_keeps(1) [OF ur] Inr x(2) by auto
    qed blast
  qed
qed

section \<open>Witnesses\<close>

definition life_host :: host_env where
  "life_host = \<lparr>getuser = ''dev'', getpwnam = (\<lambda>_. Some \<lparr>pw_uid = 1000, pw_gid = 1000, pw_dir = ''/home/dev''\<rparr>), getgrnam = (\<lambda>_. None),
     getgrall_gids = [], subuid_file = Some ''dev:100000:65536'', subgid_file = Some ''dev:100000:65536''\<rparr>"

definition life_cmd :: cmd_env where
  "life_cmd = sample_cmd\<lparr>
     cm_runtime := \<lparr>rt_env = \<lparr>d_host = life_host, d_registry = cw_registry sample_world, d_toml = (\<lambda>_. Some []),
         d_validate_fields = (\<lambda>_. Some sample_config), d_ipam = \<lparr>ipam_file = Doc [(''dev'', 0)], ipam_lock = None\<rparr>\<rparr>,
       rt_spawn = (\<lambda>_ _ _. Completed 0 (Some ''{}'') None), rt_path = None, rt_token = ''0f''\<rparr>,
     cm_loads := (\<lambda>_. Inr (JObj [(''Name'', JStr ''core''), (''Service'', JStr ''core'')]))\<rparr>"

definition sample_life_env :: life_env where
  "sample_life_env = \<lparr>le_cmd = life_cmd, le_os = silent_os, le_pid = 7, le_unlink_denied = (\<lambda>_. False), le_rmtree_left = (\<lambda>_. None),
     le_relock_free = True, le_typed_name = ''dev'', le_ask = (\<lambda>_. False)\<rparr>"

definition sample_life :: life_world where
  "sample_life = \<lparr>lw_cmd = sample_world\<lparr>cw_backup := sample_backup_state\<lparr>bs_fs :=
       set_at [''h'', ''instances''] (Some (NDir 1000 [(''dev'', NDir 1000 [
         (''docker'', NDir 1000 [(''compose.yml'', NFile 1000 [])]),
         (''config'', NDir 1000 [(''coredns'', NDir 1000 [(''Corefile'', NFile 165532 [])])])])])) (bs_fs sample_backup_state)\<rparr>\<rparr>,
     lw_host = empty_host, lw_ipam = \<lparr>ipam_file = Doc [(''dev'', 0)], ipam_lock = None\<rparr>\<rparr>"

lemma sample_life_load:
  "load_instance (le_cmd sample_life_env) ''dev'' (lw_cmd sample_life) = Done (''/h/instances/dev'', sample_config)"
proof -
  have "registry_get ''dev'' (cw_registry sample_world) = Some \<lparr>instance_dir = ''/h/instances/dev'', created_at = ''now''\<rparr>" by code_simp
  moreover have "from_toml (cm_validate sample_cmd) [(''workspaces'', JObj [(''main'', JObj []), (''other'', JObj [])])] = Inr sample_config"
    by (simp add: from_toml_def flatten_toml_def get_table_def as_table_def reject_legacy_admin_section_def sample_cmd_def)
  ultimately show ?thesis
    by (simp add: sample_life_env_def sample_life_def life_cmd_def load_instance_def lookup_instance_or_exit_def load_config_def)
      (simp add: sample_world_def)
qed

lemma sample_life_settings: "resolve_full_host_config (le_cmd sample_life_env) = Done (sample_host OPERATOR_ROOTLESS)"
  by (simp add: resolve_full_host_config_def sample_life_env_def life_cmd_def sample_cmd_def)

lemma sample_stop_prepared: "stop_prepare sample_life_env ''dev'' sample_life =
    Done (''/h/instances/dev'', sample_config, sample_host OPERATOR_ROOTLESS, ''dev'', True)"
proof -
  have "case stop_prepare sample_life_env ''dev'' sample_life of
      Done (dir, config, h, host_user, warm) \<Rightarrow> host_user = ''dev'' \<and> warm | _ \<Rightarrow> False"
    by code_simp
  then obtain dir config h where p: "stop_prepare sample_life_env ''dev'' sample_life = Done (dir, config, h, ''dev'', True)"
    by (auto split: cmd_result.splits)
  then show ?thesis
    using sample_life_load sample_life_settings by (auto simp: stop_prepare_def bindC_Done_iff)
qed

theorem stop_outcome_witness:
  "is_done (fst (stop sample_life_env ''dev'' False sample_life)) \<and>
   node_at (lw_fs (snd (stop sample_life_env ''dev'' False sample_life))) [''h'', ''workspaces'', ''dev'', ''main''] = Some sample_tree"
proof -
  let ?r = "stop sample_life_env ''dev'' False sample_life"
  have ok: "is_done (fst ?r)" by code_simp
  obtain plan where plan: "helper_cp_chown_plan (d_host (rt_env (cm_runtime (le_cmd sample_life_env)))) ''/h/instances/dev'' ''dev'' = Inr plan"
    and out: "\<forall>q. (\<forall>p \<in> set (consumer_files plan). unrelated p q) \<longrightarrow> node_at (lw_fs (snd ?r)) q = node_at (lw_fs sample_life) q"
    using stop_outcome [OF sample_stop_prepared surjective_pairing, of False] ok by (auto simp: is_done_iff)
  have "path_parts ''/h/instances/dev'' = [''h'', ''instances'', ''dev'']" by code_simp
  then have "\<forall>p \<in> set (consumer_files plan). unrelated p [''h'', ''workspaces'', ''dev'', ''main'']"
    using consumer_files_below [OF plan] by (fastforce simp: unrelated_def prefix_def)
  moreover have "node_at (lw_fs sample_life) [''h'', ''workspaces'', ''dev'', ''main''] = Some sample_tree" by code_simp
  ultimately show ?thesis using out ok by simp
qed

lemma sample_destroy_prepared: "destroy_prepare sample_life_env ''dev'' True (Some ''main'') sample_life =
    Done (Some (''/h/instances/dev'', sample_config, sample_host OPERATOR_ROOTLESS, ''dev'', [''main'']))"
proof -
  have "case destroy_prepare sample_life_env ''dev'' True (Some ''main'') sample_life of
      Done (Some (dir, config, h, host_user, selected)) \<Rightarrow> host_user = ''dev'' \<and> selected = [''main''] | _ \<Rightarrow> False"
    by code_simp
  then obtain dir config h where p: "destroy_prepare sample_life_env ''dev'' True (Some ''main'') sample_life =
      Done (Some (dir, config, h, ''dev'', [''main'']))"
    by (auto split: cmd_result.splits option.splits)
  then show ?thesis
    using sample_life_load sample_life_settings by (auto simp: destroy_prepare_def load_instance_def bindC_Done_iff split: if_splits)
qed

lemma sample_layout: "standard_layout sample_life_env ''dev'' ''/h/instances/dev'' sample_config"
  by code_simp



end
