(* ===== verification/Secrets.thy ===== *)
theory Secrets
  imports Py_Dict Instance_Config "HOL-Library.List_Lexorder" "HOL-Library.Char_ord"
begin

text \<open>
  The secrets of an instance: the environment file that \<open>init\<close> creates and fills (\<open>src/src/core/scaffold.py\<close>), its
  sources (the environment, a file, prompts, stubs), and the gate of \<open>start\<close> that reads it back
  (\<open>_check_secrets\<close> of \<open>src/src/cli/main.py\<close>). A file is its text; lines end in newlines.
\<close>

section \<open>The environment file\<close>

definition box_rule :: "nat \<Rightarrow> string" where
  "box_rule n = concat (replicate n [CHR 0xE2, CHR 0x94, CHR 0x80])"

definition ENV_HEADER :: string where
  "ENV_HEADER = py_join [newline]
     [''# .sandbox.env '' @ em_dash @ '' STRICTLY UNTRACKED SECRETS'',
      [],
      ''# '' @ box_rule 2 @ '' Core Container '' @ box_rule 60,
      ''CORE_ANTHROPIC_API_KEY=\"\"'',
      ''CORE_GITHUB_TOKEN=\"\"'',
      []]"

definition ENV_POSTGRES_BLOCK :: string where
  "ENV_POSTGRES_BLOCK = py_join [newline]
     [[],
      ''# '' @ box_rule 2 @ '' Database '' @ box_rule 66,
      ''PG_USER=\"sandbox\"'',
      ''PG_PASSWORD=\"\"'',
      ''PG_DB=\"sandbox_db\"'',
      []]"

definition ENV_FIRECRAWL_BLOCK :: string where
  "ENV_FIRECRAWL_BLOCK = py_join [newline]
     [[],
      ''# '' @ box_rule 2 @ '' MCP: Firecrawl '' @ box_rule 60,
      ''FIRECRAWL_API_KEY=\"\"'',
      []]"

text \<open>\<open>f'{name}="{value}"'\<close>; the empty slot has the empty value.\<close>

definition slot :: "string \<Rightarrow> string \<Rightarrow> string" where
  "slot name v = name @ ''=\"'' @ v @ ''\"''"

text \<open>The content that \<open>create_env_file\<close> writes; the credential comes from the library. A file that exists is an error.\<close>

definition env_content :: "string \<Rightarrow> bool \<Rightarrow> bool \<Rightarrow> string" where
  "env_content credential db_postgres firecrawl =
     ENV_HEADER @
     (if db_postgres then py_replace (slot ''PG_PASSWORD'' []) (slot ''PG_PASSWORD'' credential) ENV_POSTGRES_BLOCK else []) @
     (if firecrawl then ENV_FIRECRAWL_BLOCK else [])"

definition create_env_file :: "string \<Rightarrow> bool \<Rightarrow> bool \<Rightarrow> string option \<Rightarrow> string + string" where
  "create_env_file credential db_postgres firecrawl old =
     (case old of Some _ \<Rightarrow> Inl ''FileExistsError'' | None \<Rightarrow> Inr (env_content credential db_postgres firecrawl))"

text \<open>Reading in text mode turns every line end into a newline.\<close>

fun universal_newlines :: "string \<Rightarrow> string" where
  "universal_newlines [] = []"
| "universal_newlines (c # cs) =
     (if c = CHR 0x0D then newline # (case cs of [] \<Rightarrow> [] | d # ds \<Rightarrow> if d = newline then universal_newlines ds else universal_newlines cs)
      else c # universal_newlines cs)"

definition seed_secrets :: "(string \<times> string) list \<Rightarrow> string \<Rightarrow> string" where
  "seed_secrets secrets body =
     fold (\<lambda>(name, v) content. py_replace (slot name []) (slot name v) content) secrets (universal_newlines body)"

section \<open>Sources\<close>

definition REQUIRED_INSTANCE_SECRETS :: "string list" where
  "REQUIRED_INSTANCE_SECRETS = [''CORE_ANTHROPIC_API_KEY'', ''CORE_GITHUB_TOKEN'']"

definition resolve_secrets_from_env :: "(string \<Rightarrow> string option) \<Rightarrow> string + (string \<times> string) list" where
  "resolve_secrets_from_env env =
     (let val = (\<lambda>name. case env name of Some v \<Rightarrow> v | None \<Rightarrow> []);
          missing = filter (\<lambda>name. val name = []) REQUIRED_INSTANCE_SECRETS
      in if missing \<noteq> []
         then Inl (''Cannot seed secrets from the environment: required secret(s) '' @ py_repr_list missing @
                   '' are unset or empty. Set them, or omit --secrets-from-env.'')
         else Inr (map (\<lambda>name. (name, val name)) REQUIRED_INSTANCE_SECRETS))"

text \<open>One line of a secrets file: nothing, an assignment, or an error with its number.\<close>

definition secret_line :: "string \<Rightarrow> nat \<Rightarrow> string \<Rightarrow> string + (string \<times> string) option" where
  "secret_line path lineno line =
     (let stripped = py_strip line in
      if stripped = [] \<or> prefix ''#'' stripped then Inr None
      else if CHR ''='' \<notin> set stripped
      then Inl (''Cannot parse secrets file '' @ py_repr path @ '': line '' @ nat_str lineno @ '' is not a KEY=VALUE pair.'')
      else let (k, v) = py_partition CHR ''='' stripped; key = py_strip k in
        if key \<notin> set REQUIRED_INSTANCE_SECRETS
        then Inl (''Cannot seed secrets from '' @ py_repr path @ '': unrecognized key '' @ py_repr key @ '' on line '' @ nat_str lineno @
                  ''. Allowed keys: '' @ py_repr_list REQUIRED_INSTANCE_SECRETS @ ''.'')
        else Inr (Some (key, py_strip v)))"

fun secret_lines :: "string \<Rightarrow> nat \<Rightarrow> string list \<Rightarrow> (string, string) dict \<Rightarrow> string + (string, string) dict" where
  "secret_lines path n [] parsed = Inr parsed"
| "secret_lines path n (line # ls) parsed =
     bindE (secret_line path n line) (\<lambda>r.
       secret_lines path (Suc n) ls (case r of None \<Rightarrow> parsed | Some (k, v) \<Rightarrow> dict_set k v parsed))"

definition missing_in :: "(string, string) dict \<Rightarrow> string list" where
  "missing_in parsed = filter (\<lambda>name. map_of parsed name \<in> {None, Some []}) REQUIRED_INSTANCE_SECRETS"

definition parse_secrets_file :: "string \<Rightarrow> string + string \<Rightarrow> string + (string \<times> string) list" where
  "parse_secrets_file path raw =
     (case raw of
        Inl strerror \<Rightarrow> Inl (''Cannot read secrets file '' @ py_repr path @ '': '' @ strerror @ ''.'')
      | Inr body \<Rightarrow>
          bindE (secret_lines path 1 (py_splitlines (universal_newlines body)) []) (\<lambda>parsed.
            if missing_in parsed \<noteq> []
               then Inl (''Cannot seed secrets from '' @ py_repr path @ '': required secret(s) '' @ py_repr_list (missing_in parsed) @
                         '' are missing or empty in the file.'')
               else Inr (map (\<lambda>name. (name, the (map_of parsed name))) REQUIRED_INSTANCE_SECRETS)))"

section \<open>Prompts and stubs\<close>

definition stub_value :: "string \<Rightarrow> string" where
  "stub_value name = ''YOUR_'' @ name @ ''_HERE''"

definition is_name_char :: "char \<Rightarrow> bool" where
  "is_name_char c = (c \<in> set upper_letters \<or> is_decimal c \<or> c = CHR ''_'')"

text \<open>The two patterns, line by line: \<open>^([A-Z0-9_]+)=\<close>, and the same with nothing but empty quotes and white space behind
  it. White space that runs over line ends changes neither which lines match nor the names.\<close>

definition line_name :: "string \<Rightarrow> string option" where
  "line_name line =
     (let name = takeWhile is_name_char line
      in if name \<noteq> [] \<and> prefix ''='' (drop (length name) line) then Some name else None)"

definition line_empty :: "string \<Rightarrow> bool" where
  "line_empty line =
     (let v = drop (Suc (length (takeWhile is_name_char line))) line;
          rest = (if prefix ''\"\"'' v \<or> prefix [CHR 0x27, CHR 0x27] v then drop 2 v else v)
      in line_name line \<noteq> None \<and> list_all is_space rest)"

definition unresolved_names :: "string list \<Rightarrow> string \<Rightarrow> string list" where
  "unresolved_names names content =
     (let ls = py_split newline content;
          present_names = List.map_filter line_name ls;
          empty_names = List.map_filter line_name (filter line_empty ls)
      in filter (\<lambda>n. n \<notin> set present_names \<or> n \<in> set empty_names) names)"

text \<open>Without a terminal stubs are written first and checked afterwards; on a terminal the replies are.\<close>

definition prompt_secrets :: "bool \<Rightarrow> string list \<Rightarrow> (string \<Rightarrow> string) \<Rightarrow> string \<Rightarrow> (string list + unit) \<times> string" where
  "prompt_secrets tty required reply body =
     (if tty then (Inr (), seed_secrets (map (\<lambda>n. (n, reply n)) required) body)
      else let content = seed_secrets (map (\<lambda>n. (n, stub_value n)) required) body;
               unresolved = unresolved_names required content
           in (if unresolved \<noteq> [] then Inl (sort unresolved) else Inr (), content))"

section \<open>The gate of start\<close>

definition required_secrets :: "instance_config \<Rightarrow> string list" where
  "required_secrets config =
     [''CORE_ANTHROPIC_API_KEY''] @
     (if pg_enabled (components_db_postgres config) then [''PG_PASSWORD''] else []) @
     (if mcp_firecrawl (components config) then [''FIRECRAWL_API_KEY''] else [])"

definition env_var_line :: "string \<Rightarrow> (string \<times> string) option" where
  "env_var_line raw =
     (let line = py_strip raw in
      if CHR ''='' \<in> set line \<and> \<not> prefix ''#'' line
      then let (k, v) = py_partition CHR ''='' line in Some (py_strip k, py_strip_chars ''\"'' (py_strip v))
      else None)"

definition env_vars :: "string \<Rightarrow> (string, string) dict" where
  "env_vars body =
     fold (\<lambda>line vars. case env_var_line line of None \<Rightarrow> vars | Some (k, v) \<Rightarrow> dict_set k v vars)
       (py_split newline (universal_newlines body)) []"

definition check_secrets :: "string option \<Rightarrow> instance_config \<Rightarrow> string list" where
  "check_secrets body config =
     (let vars = (case body of None \<Rightarrow> [] | Some b \<Rightarrow> env_vars b)
      in filter (\<lambda>key. map_of vars key \<in> {None, Some []}) (required_secrets config))"

text \<open>What \<open>init --dry-run\<close> reports: the source, never a value.\<close>

definition dry_run_secret_source_lines ::
  "bool \<Rightarrow> string option \<Rightarrow> (string \<Rightarrow> string option) \<Rightarrow> (string \<Rightarrow> string + string) \<Rightarrow> bool \<Rightarrow> string list" where
  "dry_run_secret_source_lines from_env from_file env read tty =
     (let names = REQUIRED_INSTANCE_SECRETS in
      if from_env
      then let unset = filter (\<lambda>n. env n \<in> {None, Some []}) names
           in [''  Secrets: from environment variables '' @ py_repr_list names @
               (if unset \<noteq> [] then '' (currently unset: '' @ py_repr_list unset @ '')'' else [])]
      else case from_file of
             Some path \<Rightarrow>
               [''  Secrets: from file '' @ py_repr path @ '' (required keys: '' @ py_repr_list names @ '')'' @
                (case parse_secrets_file path (read path) of Inl exc \<Rightarrow> '' [would fail: '' @ exc @ '']'' | Inr _ \<Rightarrow> [])]
           | None \<Rightarrow>
               if tty then [''  Secrets: interactive prompt for '' @ py_repr_list names]
               else [''  Secrets: stub `YOUR_<NAME>_HERE` placeholders for '' @ py_repr_list names])"

section \<open>Lemmas: replacing works line by line\<close>

lemma prefix_before_newline:
  "newline \<notin> set old \<Longrightarrow> prefix old (a @ newline # b) \<longleftrightarrow> prefix old a"
proof (induction old arbitrary: a)
  case (Cons c old)
  then show ?case by (cases a) auto
qed simp

lemma py_replace_line:
  assumes "newline \<notin> set old" and "old \<noteq> []"
  shows "py_replace old new (a @ newline # b) = py_replace old new a @ newline # py_replace old new b"
  using assms
proof (induction old new a rule: py_replace.induct)
  case (1 old new)
  then show ?case by (cases old) auto
next
  case (2 old new c cs)
  have p: "prefix old (c # cs @ newline # b) \<longleftrightarrow> prefix old (c # cs)"
    using prefix_before_newline [OF "2.prems"(1), of "c # cs"] by simp
  show ?case
  proof (cases "prefix old (c # cs)")
    case True
    then have "length old - 1 \<le> length cs" using prefix_length_le by fastforce
    then show ?thesis using 2 True p by simp
  qed (use 2 p in simp)
qed

lemma py_replace_join:
  assumes "newline \<notin> set old" and "old \<noteq> []" and "ls \<noteq> []"
  shows "py_replace old new (py_join [newline] ls) = py_join [newline] (map (py_replace old new) ls)"
  using assms(3)
proof (induction ls rule: induct_list012)
  case (3 x y zs)
  then show ?case using py_replace_line [OF assms(1,2), of new x "py_join [newline] (y # zs)"] by simp
qed simp_all

lemma py_replace_whole: "old \<noteq> [] \<Longrightarrow> py_replace old new old = new"
  by (cases old) auto

text \<open>A slot is replaced in the line that is the slot, and in no line without two quotes in a row.\<close>

definition put_slot :: "string \<Rightarrow> string \<Rightarrow> string \<Rightarrow> string" where
  "put_slot name v line = (if line = slot name [] then slot name v else line)"

lemma sublist_trans_append: "sublist (a @ x) s \<Longrightarrow> sublist x s"
  by (auto simp: sublist_def) (metis append.assoc)

lemma slot_not_in:
  assumes "\<not> sublist ''\"\"'' line"
  shows "\<not> sublist (slot name []) line"
proof
  assume "sublist (slot name []) line"
  then have "sublist ((name @ ''='') @ ''\"\"'') line" by (simp add: slot_def)
  then show False using sublist_trans_append assms by blast
qed

lemma put_slot_replace:
  "line = slot name [] \<or> \<not> sublist (slot name []) line \<Longrightarrow> py_replace (slot name []) (slot name v) line = put_slot name v line"
  by (auto simp: put_slot_def py_replace_no_occurrence py_replace_whole slot_def)

section \<open>Lemmas: the environment file\<close>

definition env_lines :: "string \<Rightarrow> bool \<Rightarrow> bool \<Rightarrow> string list" where
  "env_lines credential db_postgres firecrawl =
     [''# .sandbox.env '' @ em_dash @ '' STRICTLY UNTRACKED SECRETS'', [], ''# '' @ box_rule 2 @ '' Core Container '' @ box_rule 60,
      slot ''CORE_ANTHROPIC_API_KEY'' [], slot ''CORE_GITHUB_TOKEN'' []] @
     (if db_postgres then [[], ''# '' @ box_rule 2 @ '' Database '' @ box_rule 66, slot ''PG_USER'' ''sandbox'',
        slot ''PG_PASSWORD'' credential, slot ''PG_DB'' ''sandbox_db''] else []) @
     (if firecrawl then [[], ''# '' @ box_rule 2 @ '' MCP: Firecrawl '' @ box_rule 60, slot ''FIRECRAWL_API_KEY'' []] else []) @ [[]]"

definition plain_value :: "string \<Rightarrow> bool" where
  "plain_value v \<longleftrightarrow> v \<noteq> [] \<and> newline \<notin> set v \<and> CHR 0x0D \<notin> set v \<and> CHR ''\"'' \<notin> set v"

lemma postgres_block:
  "py_replace (slot ''PG_PASSWORD'' []) (slot ''PG_PASSWORD'' credential) ENV_POSTGRES_BLOCK = py_join [newline]
     [[], ''# '' @ box_rule 2 @ '' Database '' @ box_rule 66, slot ''PG_USER'' ''sandbox'', slot ''PG_PASSWORD'' credential,
      slot ''PG_DB'' ''sandbox_db'', []]"
proof -
  let ?ls = "[[], ''# '' @ box_rule 2 @ '' Database '' @ box_rule 66, ''PG_USER=\"sandbox\"'', ''PG_PASSWORD=\"\"'', ''PG_DB=\"sandbox_db\"'', []]"
  have other: "list_all (\<lambda>l. py_replace (slot ''PG_PASSWORD'' []) (slot ''PG_PASSWORD'' []) l = l \<and>
      \<not> py_contains (slot ''PG_PASSWORD'' []) l) [[], ''# '' @ box_rule 2 @ '' Database '' @ box_rule 66, ''PG_USER=\"sandbox\"'', ''PG_DB=\"sandbox_db\"'']"
    by code_simp
  have one: "slot ''PG_PASSWORD'' [] = ''PG_PASSWORD=\"\"''" by code_simp
  have "py_replace (slot ''PG_PASSWORD'' []) (slot ''PG_PASSWORD'' credential) (py_join [newline] ?ls) =
      py_join [newline] (map (py_replace (slot ''PG_PASSWORD'' []) (slot ''PG_PASSWORD'' credential)) ?ls)"
    by (rule py_replace_join) (simp_all add: slot_def newline_def)
  then show ?thesis
    using other py_replace_whole [of "slot ''PG_PASSWORD'' []" "slot ''PG_PASSWORD'' credential"]
    unfolding ENV_POSTGRES_BLOCK_def
    by (simp add: py_contains_iff py_replace_no_occurrence one del: py_replace.simps) (simp add: slot_def)
qed

lemma env_content_lines: "env_content credential db fc = py_join [newline] (env_lines credential db fc)"
  unfolding env_content_def postgres_block
  by (cases db; cases fc) (simp_all add: env_lines_def ENV_HEADER_def ENV_FIRECRAWL_BLOCK_def slot_def)

lemma env_lines_newline:
  assumes "newline \<notin> set credential"
  shows "\<forall>l \<in> set (env_lines credential db fc). newline \<notin> set l"
proof -
  have "list_all (\<lambda>l. newline \<notin> set l) (env_lines [] True True)" by code_simp
  then show ?thesis using assms by (auto simp: env_lines_def slot_def)
qed

lemma universal_newlines_id: "CHR 0x0D \<notin> set s \<Longrightarrow> universal_newlines s = s"
  by (induction s rule: universal_newlines.induct) auto

lemma two_quotes: "CHR ''\"'' \<notin> set v \<Longrightarrow> v \<noteq> [] \<Longrightarrow> CHR ''\"'' \<notin> set n \<Longrightarrow> \<not> sublist ''\"\"'' (slot n v)"
  unfolding slot_def sublist_def by (auto simp: append_eq_append_conv2 append_eq_Cons_conv Cons_eq_append_conv)

lemma name_char_plain: "is_name_char c \<Longrightarrow> \<not> is_space c \<and> c \<noteq> CHR ''='' \<and> c \<noteq> CHR ''#'' \<and> c \<noteq> CHR ''\"''"
proof -
  have "list_all (\<lambda>c. \<not> is_space c \<and> c \<noteq> CHR ''='' \<and> c \<noteq> CHR ''#'' \<and> c \<noteq> CHR ''\"'') (upper_letters @ digit_chars @ ''_'')" by code_simp
  moreover assume "is_name_char c"
  then have "c \<in> set (upper_letters @ digit_chars @ ''_'')" by (auto simp: is_name_char_def is_decimal_def)
  ultimately show ?thesis by (simp add: list_all_iff del: set_append)
qed

lemma py_strip_slot: "n \<noteq> [] \<Longrightarrow> \<not> is_space (hd n) \<Longrightarrow> py_strip (slot n v) = slot n v"
  by (rule py_strip_nonspace_ends) (auto simp: slot_def is_space_def)

text \<open>Reading a slot back: the value without the quotes.\<close>

lemma env_var_slot:
  assumes "n \<noteq> []" "list_all is_name_char n" "CHR ''\"'' \<notin> set v"
  shows "env_var_line (slot n v) = Some (n, v)"
proof -
  have n: "CHR ''='' \<notin> set n" "\<not> is_space (hd n)" "\<not> is_space (last n)" "hd n \<noteq> CHR ''#''"
    using assms(1,2) name_char_plain hd_in_set last_in_set unfolding list_all_iff by blast+
  have "py_partition CHR ''='' (slot n v) = (n, CHR ''\"'' # v @ ''\"'')"
    using n(1) by (auto simp: py_partition_def slot_def takeWhile_append dropWhile_append)
  moreover have "py_strip (CHR ''\"'' # v @ ''\"'') = CHR ''\"'' # v @ ''\"''"
    by (rule py_strip_nonspace_ends) (auto simp: is_space_def)
  moreover have "py_strip n = n" using assms(1) n(2,3) by (rule py_strip_nonspace_ends)
  moreover have "py_strip_chars ''\"'' (CHR ''\"'' # v @ ''\"'') = v"
  proof -
    have front: "dropWhile (\<lambda>c. c \<in> set ''\"'') (v @ ''\"'') = (if v = [] then [] else v @ ''\"'')"
      using assms(3) by (cases v) auto
    have "v \<noteq> [] \<Longrightarrow> last v \<noteq> CHR ''\"''" using assms(3) last_in_set by metis
    then have "dropWhile (\<lambda>c. c \<in> set ''\"'') (rev v) = rev v" by (auto simp: dropWhile_eq_self_iff hd_rev)
    with front show ?thesis by (auto simp: py_strip_chars_def py_lstrip_chars_def py_rstrip_chars_def)
  qed
  moreover have "\<not> prefix ''#'' (slot n v)" using n(4) assms(1) by (cases n) (auto simp: slot_def)
  moreover have "CHR ''='' \<in> set (slot n v)" by (simp add: slot_def)
  ultimately show ?thesis using n(2) assms(1) by (simp add: env_var_line_def py_strip_slot)
qed

lemma env_var_comment: "env_var_line ([]) = None" "env_var_line (''# '' @ s) = None"
proof -
  have "py_strip (''# '' @ s) = CHR ''#'' # py_rstrip (CHR '' '' # s) \<or> py_strip (''# '' @ s) = ''#''"
  proof -
    have "py_lstrip (''# '' @ s) = ''# '' @ s" by (simp add: py_lstrip_def is_space_def)
    moreover have "dropWhile is_space (rev (CHR '' '' # s) @ ''#'') = dropWhile is_space (rev (CHR '' '' # s)) @ ''#''"
      by (cases "\<forall>c \<in> set (rev (CHR '' '' # s)). is_space c") (auto simp: dropWhile_append is_space_def)
    ultimately show ?thesis by (simp add: py_strip_def py_rstrip_def)
  qed
  then show "env_var_line (''# '' @ s) = None" by (auto simp: env_var_line_def)
qed (simp add: env_var_line_def py_strip_def py_rstrip_def py_lstrip_def)

definition seeded_line :: "string \<Rightarrow> string \<Rightarrow> string \<Rightarrow> string" where
  "seeded_line v1 v2 = put_slot ''CORE_GITHUB_TOKEN'' v2 \<circ> put_slot ''CORE_ANTHROPIC_API_KEY'' v1"

lemma replace_in_env:
  assumes "\<And>l. l \<in> set ls \<Longrightarrow> newline \<notin> set l" and "ls \<noteq> []" and "name \<noteq> []" and "newline \<notin> set name" and "plain_value v"
    and "\<And>l. l \<in> set ls \<Longrightarrow> l = slot name [] \<or> \<not> sublist (slot name []) l"
  shows "py_replace (slot name []) (slot name v) (py_join [newline] ls) = py_join [newline] (map (put_slot name v) ls)"
proof -
  have "newline \<notin> set (slot name [])" "slot name [] \<noteq> []" using assms(4) by (auto simp: slot_def newline_def)
  then show ?thesis using py_replace_join [OF _ _ assms(2)] put_slot_replace [OF assms(6)] by (simp cong: map_cong)
qed

lemma env_lines_slots:
  assumes "plain_value credential" and "name \<in> {''CORE_ANTHROPIC_API_KEY'', ''CORE_GITHUB_TOKEN''}"
    and "l \<in> set (env_lines credential db fc)"
  shows "l = slot name [] \<or> \<not> sublist (slot name []) l"
proof (cases "l = slot ''PG_PASSWORD'' credential")
  case True
  then show ?thesis using slot_not_in two_quotes [of credential "''PG_PASSWORD''"] assms(1) by (simp add: plain_value_def)
next
  case False
  have "list_all (\<lambda>l. l = slot ''CORE_ANTHROPIC_API_KEY'' [] \<or> \<not> py_contains (slot ''CORE_ANTHROPIC_API_KEY'' []) l) (env_lines [] True True)"
    "list_all (\<lambda>l. l = slot ''CORE_GITHUB_TOKEN'' [] \<or> \<not> py_contains (slot ''CORE_GITHUB_TOKEN'' []) l) (env_lines [] True True)"
    by code_simp+
  moreover have "l \<in> set (env_lines [] True True)"
    using assms(3) False by (cases db; cases fc) (auto simp: env_lines_def)
  ultimately show ?thesis using assms(2) unfolding list_all_iff py_contains_iff by blast
qed

lemma put_slot_keeps:
  assumes "plain_value v" and "name \<in> {''CORE_ANTHROPIC_API_KEY'', ''CORE_GITHUB_TOKEN''}" and "l = slot n [] \<or> \<not> sublist (slot n []) l"
    and "newline \<notin> set l" and "n \<noteq> name"
  shows "put_slot name v l = slot n [] \<or> \<not> sublist (slot n []) (put_slot name v l)" and "newline \<notin> set (put_slot name v l)"
proof -
  have "CHR ''\"'' \<notin> set name" "newline \<notin> set name" using assms(2) by (auto simp: newline_def)
  then have "\<not> sublist (slot n []) (slot name v)" "newline \<notin> set (slot name v)"
    using slot_not_in two_quotes [of v name] assms(1) by (auto simp: plain_value_def slot_def newline_def)
  then show "put_slot name v l = slot n [] \<or> \<not> sublist (slot n []) (put_slot name v l)" "newline \<notin> set (put_slot name v l)"
    using assms(3,4) by (auto simp: put_slot_def)
qed

lemma seed_env_lines:
  assumes "plain_value credential" "plain_value v1" "plain_value v2"
  shows "seed_secrets [(''CORE_ANTHROPIC_API_KEY'', v1), (''CORE_GITHUB_TOKEN'', v2)] (env_content credential db fc) =
    py_join [newline] (map (seeded_line v1 v2) (env_lines credential db fc))"
proof -
  let ?a = "''CORE_ANTHROPIC_API_KEY''" and ?g = "''CORE_GITHUB_TOKEN''"
  let ?ls = "env_lines credential db fc"
  have nl: "l \<in> set ?ls \<Longrightarrow> newline \<notin> set l" for l
    using env_lines_newline [of credential db fc] assms(1) by (auto simp: plain_value_def)
  have ne: "?ls \<noteq> []" by (simp add: env_lines_def)
  have "list_all (\<lambda>l. CHR 0x0D \<notin> set l) (env_lines [] True True)" by code_simp
  then have "\<forall>l \<in> set ?ls. CHR 0x0D \<notin> set l" using assms(1) by (cases db; cases fc) (auto simp: env_lines_def slot_def plain_value_def)
  moreover have "set (py_join [newline] ls) \<subseteq> insert newline (\<Union>l \<in> set ls. set l)" for ls :: "string list"
    by (induction ls rule: induct_list012) auto
  ultimately have "CHR 0x0D \<notin> set (env_content credential db fc)" unfolding env_content_lines newline_def by fastforce
  then have u: "universal_newlines (env_content credential db fc) = py_join [newline] ?ls"
    using universal_newlines_id env_content_lines by simp
  have one: "py_replace (slot ?a []) (slot ?a v1) (py_join [newline] ?ls) = py_join [newline] (map (put_slot ?a v1) ?ls)"
    using env_lines_slots [OF assms(1)] nl by (intro replace_in_env ne assms(2)) (auto simp: newline_def)
  have keep: "newline \<notin> set l \<and> (l = slot ?g [] \<or> \<not> sublist (slot ?g []) l)" if l: "l \<in> set (map (put_slot ?a v1) ?ls)" for l
  proof -
    obtain x where x: "x \<in> set ?ls" "l = put_slot ?a v1 x" using l by auto
    have "x = slot ?g [] \<or> \<not> sublist (slot ?g []) x" by (rule env_lines_slots [OF assms(1) _ x(1)]) simp
    from put_slot_keeps [OF assms(2) _ this nl [OF x(1)], of ?a] show ?thesis unfolding x(2) by simp
  qed
  have "py_replace (slot ?g []) (slot ?g v2) (py_join [newline] (map (put_slot ?a v1) ?ls)) =
      py_join [newline] (map (put_slot ?g v2) (map (put_slot ?a v1) ?ls))"
    using keep ne by (intro replace_in_env assms(3)) (auto simp: newline_def)
  then show ?thesis by (simp add: seed_secrets_def u one seeded_line_def)
qed

section \<open>Lemmas: the secrets file\<close>

lemma splitlines_no_break: "\<forall>c \<in> set acc. \<not> is_line_break c \<Longrightarrow> l \<in> set (py_splitlines_aux acc s) \<Longrightarrow> c \<in> set l \<Longrightarrow> \<not> is_line_break c"
  by (induction acc s rule: py_splitlines_aux.induct) (auto split: if_splits)

lemma py_strip_subset: "set (py_strip s) \<subseteq> set s"
  unfolding py_strip_def py_rstrip_def py_lstrip_def by (auto dest!: set_dropWhileD)

lemma secret_line_value:
  assumes "secret_line path n line = Inr (Some (k, v))"
  shows "k \<in> set REQUIRED_INSTANCE_SECRETS" and "set v \<subseteq> set line"
proof -
  obtain k' v' where p: "py_partition CHR ''='' (py_strip line) = (k', v')" "v = py_strip v'" and k: "k \<in> set REQUIRED_INSTANCE_SECRETS"
    using assms by (auto simp: secret_line_def Let_def split: if_splits prod.splits)
  have "set v' \<subseteq> set (py_strip line)" using p(1) by (auto simp: py_partition_def dest!: in_set_dropD set_dropWhileD)
  then show "set v \<subseteq> set line" using p(2) py_strip_subset by fastforce
  show "k \<in> set REQUIRED_INSTANCE_SECRETS" by (rule k)
qed

lemma secret_lines_values:
  assumes "secret_lines path n ls parsed = Inr parsed'" and "\<forall>k v. map_of parsed k = Some v \<longrightarrow> set v \<subseteq> C" and "\<forall>l \<in> set ls. set l \<subseteq> C"
  shows "\<forall>k v. map_of parsed' k = Some v \<longrightarrow> set v \<subseteq> C"
  using assms
proof (induction path n ls parsed rule: secret_lines.induct)
  case (2 path n line ls parsed)
  then obtain r where r: "secret_line path n line = Inr r"
    and rest: "secret_lines path (Suc n) ls (case r of None \<Rightarrow> parsed | Some (k, v) \<Rightarrow> dict_set k v parsed) = Inr parsed'"
    by (auto simp: bindE_Inr_iff)
  have "\<forall>k v. map_of (case r of None \<Rightarrow> parsed | Some (k, v) \<Rightarrow> dict_set k v parsed) k = Some v \<longrightarrow> set v \<subseteq> C"
  proof (cases r)
    case (Some kv)
    then have "set (snd kv) \<subseteq> C" using secret_line_value(2) [of path n line "fst kv" "snd kv"] r "2.prems"(3) by auto
    then show ?thesis using "2.prems"(2) by (simp add: Some case_prod_beta map_of_dict_set)
  qed (use "2.prems"(2) in simp)
  then show ?case using "2.IH" [OF rest] "2.prems"(3) by simp
qed simp

text \<open>What comes out of a secrets file is usable: a value for each required secret, in the fixed order, none of them
  empty or running over a line end.\<close>

lemma parse_secrets_file_values:
  assumes "parse_secrets_file path raw = Inr secrets"
  obtains v1 v2 where "secrets = [(''CORE_ANTHROPIC_API_KEY'', v1), (''CORE_GITHUB_TOKEN'', v2)]"
    and "v1 \<noteq> []" "v2 \<noteq> []" "\<forall>c \<in> set v1 \<union> set v2. \<not> is_line_break c"
proof -
  obtain body where raw: "raw = Inr body" using assms by (cases raw) (simp_all add: parse_secrets_file_def)
  obtain parsed where p: "secret_lines path (Suc 0) (py_splitlines (universal_newlines body)) [] = Inr parsed"
    using assms by (cases "secret_lines path (Suc 0) (py_splitlines (universal_newlines body)) []") (simp_all add: parse_secrets_file_def raw)
  have f: "missing_in parsed = []" and s: "secrets = map (\<lambda>name. (name, the (map_of parsed name))) REQUIRED_INSTANCE_SECRETS"
    using assms by (simp_all add: parse_secrets_file_def raw p split: if_splits)
  have "\<forall>l \<in> set (py_splitlines (universal_newlines body)). set l \<subseteq> {c. \<not> is_line_break c}"
    unfolding py_splitlines_def using splitlines_no_break [of "[]"] by auto
  then have vals: "\<forall>k v. map_of parsed k = Some v \<longrightarrow> set v \<subseteq> {c. \<not> is_line_break c}"
    by (rule secret_lines_values [OF p, rotated]) simp
  have "\<exists>v. map_of parsed name = Some v \<and> v \<noteq> []" if "name \<in> set REQUIRED_INSTANCE_SECRETS" for name
    using f that unfolding missing_in_def filter_empty_conv by (cases "map_of parsed name") auto
  then obtain v1 v2 where "map_of parsed ''CORE_ANTHROPIC_API_KEY'' = Some v1" "map_of parsed ''CORE_GITHUB_TOKEN'' = Some v2"
      "v1 \<noteq> []" "v2 \<noteq> []"
    unfolding REQUIRED_INSTANCE_SECRETS_def by (metis list.set_intros)
  moreover have "secrets = [(''CORE_ANTHROPIC_API_KEY'', v1), (''CORE_GITHUB_TOKEN'', v2)]"
    using s calculation by (simp add: REQUIRED_INSTANCE_SECRETS_def)
  moreover have "\<forall>c \<in> set v1 \<union> set v2. \<not> is_line_break c" using vals calculation(1,2) by blast
  ultimately show thesis using that by blast
qed

section \<open>Lemmas: what the gate reads\<close>

text \<open>The lines of the file after seeding, and the assignments among them.\<close>

lemma seeded_lines:
  "map (seeded_line v1 v2) (env_lines credential db fc) =
     [''# .sandbox.env '' @ em_dash @ '' STRICTLY UNTRACKED SECRETS'', [], ''# '' @ box_rule 2 @ '' Core Container '' @ box_rule 60,
      slot ''CORE_ANTHROPIC_API_KEY'' v1, slot ''CORE_GITHUB_TOKEN'' v2] @
     (if db then [[], ''# '' @ box_rule 2 @ '' Database '' @ box_rule 66, slot ''PG_USER'' ''sandbox'',
        slot ''PG_PASSWORD'' credential, slot ''PG_DB'' ''sandbox_db''] else []) @
     (if fc then [[], ''# '' @ box_rule 2 @ '' MCP: Firecrawl '' @ box_rule 60, slot ''FIRECRAWL_API_KEY'' []] else []) @ [[]]"
  by (simp add: env_lines_def seeded_line_def put_slot_def slot_def)

lemma env_vars_lines:
  assumes "\<forall>l \<in> set ls. newline \<notin> set l \<and> CHR 0x0D \<notin> set l" and "ls \<noteq> []"
  shows "env_vars (py_join [newline] ls) =
    fold (\<lambda>line vars. case env_var_line line of None \<Rightarrow> vars | Some (k, v) \<Rightarrow> dict_set k v vars) ls []"
proof -
  have "set (py_join [newline] xs) \<subseteq> insert newline (\<Union>l \<in> set xs. set l)" for xs :: "string list"
    by (induction xs rule: induct_list012) auto
  then have "CHR 0x0D \<notin> set (py_join [newline] ls)" using assms(1) by (fastforce simp: newline_def)
  moreover have "py_split newline (py_join [newline] ls) = ls" using assms by (intro py_split_join) auto
  ultimately show ?thesis by (simp add: env_vars_def universal_newlines_id)
qed

lemma seeded_env_vars:
  assumes "plain_value credential" "plain_value v1" "plain_value v2"
  shows "env_vars (py_join [newline] (map (seeded_line v1 v2) (env_lines credential db fc))) =
    [(''CORE_ANTHROPIC_API_KEY'', v1), (''CORE_GITHUB_TOKEN'', v2)] @
    (if db then [(''PG_USER'', ''sandbox''), (''PG_PASSWORD'', credential), (''PG_DB'', ''sandbox_db'')] else []) @
    (if fc then [(''FIRECRAWL_API_KEY'', [])] else [])"
proof -
  have names: "list_all is_name_char n" if "n \<in> set [''CORE_ANTHROPIC_API_KEY'', ''CORE_GITHUB_TOKEN'', ''PG_USER'', ''PG_PASSWORD'', ''PG_DB'', ''FIRECRAWL_API_KEY'']" for n
  proof -
    have "list_all (list_all is_name_char) [''CORE_ANTHROPIC_API_KEY'', ''CORE_GITHUB_TOKEN'', ''PG_USER'', ''PG_PASSWORD'', ''PG_DB'', ''FIRECRAWL_API_KEY'']"
      by code_simp
    with that show ?thesis unfolding list_all_iff by blast
  qed
  have quotes: "CHR ''\"'' \<notin> set v" if "v \<in> {v1, v2, credential, [], ''sandbox'', ''sandbox_db''}" for v
    using assms that by (auto simp: plain_value_def)
  have slots: "env_var_line (slot ''CORE_ANTHROPIC_API_KEY'' v1) = Some (''CORE_ANTHROPIC_API_KEY'', v1)"
    "env_var_line (slot ''CORE_GITHUB_TOKEN'' v2) = Some (''CORE_GITHUB_TOKEN'', v2)"
    "env_var_line (slot ''PG_USER'' ''sandbox'') = Some (''PG_USER'', ''sandbox'')"
    "env_var_line (slot ''PG_PASSWORD'' credential) = Some (''PG_PASSWORD'', credential)"
    "env_var_line (slot ''PG_DB'' ''sandbox_db'') = Some (''PG_DB'', ''sandbox_db'')"
    "env_var_line (slot ''FIRECRAWL_API_KEY'' []) = Some (''FIRECRAWL_API_KEY'', [])"
    by (rule env_var_slot; (rule names | rule quotes | simp); simp)+
  have "list_all (\<lambda>l. newline \<notin> set l \<and> CHR 0x0D \<notin> set l) (map (seeded_line [] []) (env_lines [] True True))" by code_simp
  then have "\<forall>l \<in> set (map (seeded_line v1 v2) (env_lines credential db fc)). newline \<notin> set l \<and> CHR 0x0D \<notin> set l"
    using assms unfolding seeded_lines by (cases db; cases fc) (auto simp: slot_def plain_value_def newline_def)
  then have "env_vars (py_join [newline] (map (seeded_line v1 v2) (env_lines credential db fc))) =
      fold (\<lambda>line vars. case env_var_line line of None \<Rightarrow> vars | Some (k, v) \<Rightarrow> dict_set k v vars)
        (map (seeded_line v1 v2) (env_lines credential db fc)) []"
    by (rule env_vars_lines) (simp add: env_lines_def)
  then show ?thesis
    unfolding seeded_lines
    by (cases db; cases fc) (simp_all add: slots env_var_comment [simplified] env_var_comment dict_set_def)
qed

section \<open>Properties\<close>


definition secrets_config :: instance_config where
  "secrets_config = \<lparr>inst_name = ''dev'', inst_host_uid = ''1000'', workspaces = [],
     core = default_core_config, runtimes = \<lparr>rt_python = True, rt_typescript = False, rt_rust = False, rt_go = False\<rparr>,
     runtimes_node = \<lparr>node_version = [], nvm_version = []\<rparr>, components = \<lparr>mcp_firecrawl = False, mcp_puppeteer = False\<rparr>,
     components_db_postgres = default_db_postgres_config, ingress_web_ports = [], proxy_whitelist = \<lparr>wl_domains = [], wl_read_only_domains = []\<rparr>\<rparr>"


text \<open>A value with a line end is not escaped. The environment may hold one, and then the file gets an assignment more.\<close>

lemma newline_secret_adds_assignment:
  "\<exists>secrets v. resolve_secrets_from_env (\<lambda>n. Some (''k'' @ [newline] @ ''EXTRA=x'')) = Inr secrets \<and>
     map_of (env_vars (seed_secrets secrets (env_content ''pw'' False False))) ''EXTRA'' = Some v"
proof -
  let ?v = "''k'' @ [newline] @ ''EXTRA=x''"
  have r: "resolve_secrets_from_env (\<lambda>n. Some ?v) = Inr [(''CORE_ANTHROPIC_API_KEY'', ?v), (''CORE_GITHUB_TOKEN'', ?v)]" by code_simp
  have "map_of (env_vars (seed_secrets [(''CORE_ANTHROPIC_API_KEY'', ?v), (''CORE_GITHUB_TOKEN'', ?v)] (env_content ''pw'' False False))) ''EXTRA''
      \<noteq> None" by code_simp
  with r show ?thesis by blast
qed

end
