(* ===== verification/Attach.thy ===== *)
theory Attach
  imports Workspace_Commands "HOL-Library.Code_Target_Nat"
begin

text \<open>
  Attaching to a running instance: \<open>attach\<close> and the argument vector of the terminal handover in \<open>src/src/cli/main.py\<close>. The
  handover runs \<open>ssh\<close> on the host; its \<open>ProxyCommand\<close> is the one crossing that \<open>core/dispatch.py\<close> builds for the \<open>fwd\<close> op.
\<close>

section \<open>The handover\<close>

definition SESSION_FORMAT :: "fmt_item list" where
  "SESSION_FORMAT = [Dir CHR ''Y'', Dir CHR ''m'', Dir CHR ''d'', Lit CHR ''T'', Dir CHR ''H'', Dir CHR ''M'', Dir CHR ''S'', Lit CHR ''Z'']"

definition proxy_option :: "string \<Rightarrow> string" where
  "proxy_option command = ''ProxyCommand='' @ command"

definition remote_command :: "string \<Rightarrow> string" where
  "remote_command ws = ''cd /workspaces/'' @ shlex_quote ws @ '' && exec bash -l''"

definition ssh_options :: "string list \<Rightarrow> string \<Rightarrow> string list" where
  "ssh_options secrets proxy_command =
     [''UserKnownHostsFile='' @ parts_str (secrets @ [''ipc_known_hosts'']), ''StrictHostKeyChecking=yes'', ''IdentitiesOnly=yes'',
      ''IdentityAgent=none'', ''ForwardAgent=no'', ''ForwardX11=no'', ''ClearAllForwardings=yes'', ''PermitLocalCommand=no'',
      proxy_option proxy_command]"

definition handover_argv :: "string list \<Rightarrow> string list \<Rightarrow> string \<Rightarrow> string \<Rightarrow> string \<Rightarrow> string list" where
  "handover_argv session_log secrets proxy_command ip ws =
     [''tlog-rec'', ''--writer=file'', ''--file-path='' @ parts_str session_log, ''--'', ''ssh'', ''-F'', ''/dev/null'',
      ''-i'', parts_str (secrets @ [''ipc_ssh_key''])] @
     concat (map (\<lambda>opt. [''-o'', opt]) (ssh_options secrets proxy_command)) @
     [''-p'', ''9999'', ''-t'', ''agent@'' @ ip, remote_command ws]"

text \<open>The directory of the session log is made before the crossing is built; only a directory in its way stops it.\<close>

definition build_attach_argv ::
  "cmd_env \<Rightarrow> string \<Rightarrow> string \<Rightarrow> host_settings \<Rightarrow> cmd_world \<Rightarrow> string list cmd_result \<times> cmd_world" where
  "build_attach_argv env inst ws h w =
     (let d = rt_env (cm_runtime env); secrets = cm_home env @ [''instances'', inst, ''secrets''] in
      case resolve_fwd_state d inst of
        Inl _ \<Rightarrow> (Traceback ''DispatchError'', w)
      | Inr (project_name, core_ipc_ip) \<Rightarrow>
          (let session_log_dir = cm_home env @ [''sessions'', project_name] in
           case make_dirs (bk_gid (cm_backup env)) session_log_dir (cw_fs w) of
             None \<Rightarrow> (Traceback ''OSError'', w)
           | Some fs \<Rightarrow>
               (let session_log = session_log_dir @ [strftime SESSION_FORMAT (cm_now env) @ ''.log'']
                in (case proxy_argv d h FWD [inst] of
                      Inl _ \<Rightarrow> Traceback ''DispatchError''
                    | Inr argv \<Rightarrow> Done (handover_argv session_log secrets (shlex_join argv) core_ipc_ip ws),
                    set_fs fs w))))"

section \<open>attach\<close>

definition select_workspace :: "string \<Rightarrow> string option \<Rightarrow> string list \<Rightarrow> string cmd_result" where
  "select_workspace inst ws names =
     (case ws of
        None \<Rightarrow>
          (case names of
             [w] \<Rightarrow> Done w
           | _ \<Rightarrow> Exit1 (''Multiple workspaces in '' @ py_repr inst @ ''. Pick one: '' @ py_join '', '' names @ ''.''))
      | Some w \<Rightarrow>
          if w \<in> set names then Done w
          else Exit1 (''Workspace '' @ py_repr w @ '' not found in instance '' @ py_repr inst @ ''. Available: '' @
                 py_join '', '' names @ ''.''))"

definition attach_prepare ::
  "cmd_env \<Rightarrow> string \<Rightarrow> string option \<Rightarrow> cmd_world \<Rightarrow> (string \<times> host_settings) cmd_result" where
  "attach_prepare env inst ws w =
     bindC (refuse_root_euid env) (\<lambda>_.
     bindC (require_per_user_state_initialized env w) (\<lambda>_.
     bindC (refuse_if_backup_in_progress env inst) (\<lambda>_.
     bindC (load_instance env inst w) (\<lambda>(dir, config).
     bindC (resolve_full_host_config env) (\<lambda>h.
     bindC (daemon_owner env h) (\<lambda>host_user.
     bindC (select_workspace inst ws (sort (dict_keys (workspaces config)))) (\<lambda>name.
     bindC (warm_check env dir host_user (docker_execution_mode h) w) (\<lambda>warm.
     bindC (checkC warm (Exit1 (''Sandbox '' @ sq inst @ '' is not running. Use '' @ sq (''sandbox start '' @ inst) @ '' to launch.'')))
       (\<lambda>_. Done (name, h))))))))))"

text \<open>The argument vector that is run; the exit status of the session becomes that of the command.\<close>

definition attach :: "cmd_env \<Rightarrow> string \<Rightarrow> string option \<Rightarrow> cmd_world \<Rightarrow> string list cmd_result \<times> cmd_world" where
  "attach env inst ws w =
     (case attach_prepare env inst ws w of
        Done (name, h) \<Rightarrow> build_attach_argv env inst name h w
      | Exit1 s \<Rightarrow> (Exit1 s, w) | UsageError s \<Rightarrow> (UsageError s, w) | Traceback s \<Rightarrow> (Traceback s, w))"

section \<open>Lemmas\<close>

text \<open>The remote shell reads one directory, whatever the name holds.\<close>

lemma remote_command_words:
  "\<exists>c. remote_command ws = c @ '' && exec bash -l'' \<and> sh_words c = Some [''cd'', ''/workspaces/'' @ ws]"
proof (intro exI conjI)
  have safe: "list_all shell_safe ''cd''" "list_all shell_safe ''/workspaces/''" by code_simp+
  have "sh_words (''/workspaces/'' @ shlex_quote ws) = Some [''/workspaces/'' @ ws]"
    using sh_read_safe_start [OF _ safe(2), of "shlex_quote ws"] sh_read_quote_in_word [of "rev ''/workspaces/''" ws "[]"]
    by (simp add: sh_words_def)
  then show "sh_words (''cd'' @ CHR '' '' # ''/workspaces/'' @ shlex_quote ws) = Some [''cd'', ''/workspaces/'' @ ws]"
    using sh_words_safe_Cons [OF _ safe(1), of "''/workspaces/'' @ shlex_quote ws"] by simp
qed (simp add: remote_command_def)

lemma select_workspace_Done:
  "select_workspace inst ws names = Done name \<Longrightarrow> name \<in> set names \<and> (ws = None \<or> ws = Some name)"
  by (auto simp: select_workspace_def split: option.splits list.splits if_splits)

lemma proxy_argv_wire:
  assumes "proxy_argv d h FWD [inst] = Inr argv" and "resolve_fwd_state d inst = Inr (project, ip)"
  shows "cross_argv d h FWD (fwd_wire inst (project, ip)) = Inr argv"
  using assms by (auto simp: proxy_argv_def bindE_Inr_iff expand_fwd_wire_def)

lemma build_attach_outcome:
  assumes b: "build_attach_argv env inst name h w = (r, w')"
  shows "cw_toml w' = cw_toml w \<and> cw_registry w' = cw_registry w \<and>
    (\<forall>q. \<not> prefix q (cm_home env @ [''sessions'']) \<longrightarrow> \<not> prefix (cm_home env @ [''sessions'']) q \<longrightarrow> node_at (cw_fs w') q = node_at (cw_fs w) q)"
    and "r = Done argv \<Longrightarrow> \<exists>project ip crossing log.
      argv = handover_argv log (cm_home env @ [''instances'', inst, ''secrets'']) (shlex_join crossing) ip name \<and>
      resolve_fwd_state (rt_env (cm_runtime env)) inst = Inr (project, ip) \<and>
      cross_argv (rt_env (cm_runtime env)) h FWD (fwd_wire inst (project, ip)) = Inr crossing"
proof -
  let ?d = "rt_env (cm_runtime env)"
  have "(cw_toml w' = cw_toml w \<and> cw_registry w' = cw_registry w \<and>
      (\<forall>q. \<not> prefix q (cm_home env @ [''sessions'']) \<longrightarrow> \<not> prefix (cm_home env @ [''sessions'']) q \<longrightarrow> node_at (cw_fs w') q = node_at (cw_fs w) q)) \<and>
    (\<forall>argv. r = Done argv \<longrightarrow> (\<exists>project ip crossing log.
      argv = handover_argv log (cm_home env @ [''instances'', inst, ''secrets'']) (shlex_join crossing) ip name \<and>
      resolve_fwd_state ?d inst = Inr (project, ip) \<and> cross_argv ?d h FWD (fwd_wire inst (project, ip)) = Inr crossing))"
  proof (cases "resolve_fwd_state ?d inst")
    case (Inl e)
    with b show ?thesis by (auto simp: build_attach_argv_def Let_def)
  next
    case (Inr st)
    obtain project ip where st: "st = (project, ip)" by (cases st)
    let ?dir = "cm_home env @ [''sessions'', project]"
    show ?thesis
    proof (cases "make_dirs (bk_gid (cm_backup env)) ?dir (cw_fs w)")
      case None
      with b Inr st show ?thesis by (auto simp: build_attach_argv_def Let_def)
    next
      case (Some fs)
      have same: "node_at fs q = node_at (cw_fs w) q"
        if "\<not> prefix q (cm_home env @ [''sessions''])" "\<not> prefix (cm_home env @ [''sessions'']) q" for q
      proof -
        have "\<not> prefix q ((cm_home env @ [''sessions'']) @ [project])" using that prefix_append_cases by blast
        then show ?thesis using node_at_make_dirs [OF Some] by simp
      qed
      have w': "w' = set_fs fs w" using b Inr st Some by (auto simp: build_attach_argv_def Let_def)
      show ?thesis
      proof (cases "proxy_argv ?d h FWD [inst]")
        case pe: (Inl e)
        with b Inr st Some same show ?thesis by (auto simp: build_attach_argv_def Let_def)
      next
        case pr: (Inr crossing)
        have "r = Done (handover_argv (?dir @ [strftime SESSION_FORMAT (cm_now env) @ ''.log'']) (cm_home env @ [''instances'', inst, ''secrets''])
            (shlex_join crossing) ip name)"
          using b Inr st Some pr by (auto simp: build_attach_argv_def Let_def)
        then show ?thesis using proxy_argv_wire [OF pr] Inr st same by (auto simp: w')
      qed
    qed
  qed
  then show "cw_toml w' = cw_toml w \<and> cw_registry w' = cw_registry w \<and>
    (\<forall>q. \<not> prefix q (cm_home env @ [''sessions'']) \<longrightarrow> \<not> prefix (cm_home env @ [''sessions'']) q \<longrightarrow> node_at (cw_fs w') q = node_at (cw_fs w) q)"
    and "r = Done argv \<Longrightarrow> \<exists>project ip crossing log.
      argv = handover_argv log (cm_home env @ [''instances'', inst, ''secrets'']) (shlex_join crossing) ip name \<and>
      resolve_fwd_state ?d inst = Inr (project, ip) \<and> cross_argv ?d h FWD (fwd_wire inst (project, ip)) = Inr crossing"
    by blast+
qed

lemma attach_prepare_Done:
  assumes "attach_prepare env inst ws w = Done (name, h)"
  obtains dir config where "load_instance env inst w = Done (dir, config)" "resolve_full_host_config env = Done h"
    "\<not> cm_backup_held env inst" "name \<in> fst ` set (workspaces config)" "ws = None \<or> ws = Some name"
proof -
  obtain dir config where "load_instance env inst w = Done (dir, config)" "resolve_full_host_config env = Done h"
    "\<not> cm_backup_held env inst" and sel: "select_workspace inst ws (sort (dict_keys (workspaces config))) = Done name"
    using assms by (auto simp: attach_prepare_def bindC_Done_iff refuse_if_backup_in_progress_def checkC_def split: if_splits)
  then show thesis using that select_workspace_Done [OF sel] by (simp add: dict_keys_def)
qed

section \<open>Properties\<close>


definition attach_host :: host_env where
  "attach_host = \<lparr>getuser = ''dev'', getpwnam = (\<lambda>_. Some \<lparr>pw_uid = 1000, pw_gid = 1000, pw_dir = ''/home/dev''\<rparr>), getgrnam = (\<lambda>_. None),
     getgrall_gids = [], subuid_file = Some ''dev:100000:65536'', subgid_file = Some ''dev:100000:65536''\<rparr>"

definition attach_cmd :: cmd_env where
  "attach_cmd = sample_cmd\<lparr>
     cm_runtime := \<lparr>rt_env = \<lparr>d_host = attach_host, d_registry = cw_registry sample_world, d_toml = (\<lambda>_. Some []),
         d_validate_fields = (\<lambda>_. Some sample_config), d_ipam = \<lparr>ipam_file = Doc [(''dev'', 0)], ipam_lock = None\<rparr>\<rparr>,
       rt_spawn = (\<lambda>_ _ _. Completed 0 (Some ''{}'') None), rt_path = None, rt_token = ''0f''\<rparr>,
     cm_loads := (\<lambda>_. Inr (JObj [(''Name'', JStr ''core''), (''Service'', JStr ''core'')]))\<rparr>"

definition attach_world :: cmd_world where
  "attach_world = sample_world\<lparr>cw_backup := sample_backup_state\<lparr>bs_fs :=
     set_at [''h'', ''instances''] (Some (NDir 1000 [(''dev'', NDir 1000 [(''docker'', NDir 1000 [(''compose.yml'', NFile 1000 [])])])]))
       (bs_fs sample_backup_state)\<rparr>\<rparr>"


end
