(* ===== verification/Spec2Isabelle.thy ===== *)
theory Spec2Isabelle
  imports Ipam Host_Config Registry Compose_Name Dispatch_Correct Invoke Setup_Safety Doctor Backup_Lock Acl_Plan Walker Lifecycle Secrets Attach
begin

text \<open>
  A verification development for sandbox-ai, a command-line tool that runs coding agents in rootless Docker
  behind a privilege boundary. The Python sources are under \<open>src/src\<close>; the theories follow them file by file.

  \<^bold>\<open>The parts and how they interact.\<close> An operator runs \<open>sandbox\<close> commands. Each instance has an entry in the registry
  (\<open>core/registry.py\<close>), a slot of the IPAM ledger (\<open>core/ipam.py\<close>) that fixes its networks, a configuration
  (\<open>core/hydration.py\<close>) and a compose project name (\<open>core/compose.py\<close>). What Docker has to do is one of twelve typed
  ops (\<open>core/dispatch.py\<close>): validated, turned into a wire form, and either run locally (operator-rootless mode) or
  crossed into the account that owns the daemon (separate-user mode) as one shell word for the dispatcher binary.
  The executor (\<open>core/executor.py\<close>) runs the command in a sterile environment and recovers the inner exit code from
  nonce-bound frames in the output; the preflight op bundles several queries in one crossing; every op leaves an
  audit record (\<open>core/journal_audit.py\<close>). \<open>sandbox setup\<close> prepares a host for this: a list of phases, each with probe,
  act and reverify, ordered by dependencies (\<open>core/setup\<close>), among them the sudoers rule that admits exactly the crossings.
  Operator-rootless setup needs root only for a batch of host changes (\<open>core/setup/host_batch.py\<close>). The chosen mode is
  recorded in a marker (\<open>core/setup_state.py\<close>), from which every later command takes its settings.

  \<^bold>\<open>Shared theories.\<close> \<open>Prelude\<close>: the error monad on sums and list lemmas. \<open>Py_Strings\<close>: the string operations of Python
  that the sources use. \<open>Py_Dict\<close>: dicts as association lists, JSON values, and the keyed-store locale they interpret.
  \<open>Shell\<close>: \<open>shlex\<close> quoting and the words a shell reads back. \<open>Lowest_Free\<close>: the locale of least-free-number
  searches, interpreted by IPAM slots, subid blocks and bridge gids. \<open>Dep_Order\<close>: the loop over dependency-ordered
  items and the locale of schedulers. \<open>Effects\<close>: computations on a state that return or raise, with the notions
  used to reason about them (\<open>reads\<close>, \<open>keeps\<close>, \<open>triple\<close>).

  \<^bold>\<open>Components.\<close>
  \<^item> \<open>Ipam\<close>: ledger operations as whole-file steps, and the interleaved steps of concurrent processes with crashes;
    no reachable state gives two instances a common network.
  \<^item> \<open>Registry\<close>, \<open>Compose_Name\<close>, \<open>Instance_Config\<close>, \<open>Host_Config\<close>: names, files and account databases; id translation
    is a bijection between container and host.
  \<^item> \<open>Dispatch_Ops\<close>, \<open>Wire\<close>, \<open>Dispatch\<close>, \<open>Dispatch_Correct\<close>: validators, wire forms, argv construction; what the shell and the
    dispatcher read is the typed op.
  \<^item> \<open>Executor\<close>, \<open>Preflight\<close>, \<open>Journal\<close>, \<open>Invoke\<close>: framing, recovery, parsing and audit, up to the end-to-end verdicts of a
    preflight crossing.
  \<^item> \<open>Phase_Runner\<close>: ordering and both passes for any host state. \<open>Host_World\<close>: the host that the real phases see, and
    \<open>os_iface\<close>, the interface to programs, network, hash and JSON library.
  \<^item> \<open>Subid\<close>, \<open>Host_Phases\<close> (L1, L2, L2a), \<open>Secure_Path\<close> (L0), \<open>Sudoers\<close> (L3, L3a, L8), \<open>Binary_Install\<close> (L6a),
    \<open>Daemon_Phases\<close> (L5, L6), \<open>Dispatcher_Install\<close> (L6.5, L7): every phase with its three callbacks.
  \<^item> \<open>Setup_State\<close>, \<open>Host_Batch\<close>, \<open>Setup_Extras\<close>, \<open>Setup_Flow\<close>, \<open>Setup_Cli\<close>: the marker, the privileged batch, the opt-in phases,
    the gate and the setup commands of \<open>cli/main.py\<close>. \<open>Setup_Safety\<close>: what the whole ceremony promises; an unconfirmed
    run changes nothing.
  \<^item> \<open>Doctor\<close>: registration, topological order, skipping by status and mode, and rendering of the health checks, for any
    checks. \<open>Py_Time\<close>, \<open>Backup_Lock\<close>: UTC timestamps, and the per-instance backup lock as steps of concurrent processes.
  \<^item> \<open>Py_Path\<close>, \<open>Acl_Plan\<close>: POSIX path arithmetic, and the access grants and revocations an instance start and stop run.
  \<^item> \<open>File_Tree\<close>: the file system as a tree, for the code that copies, moves and removes. \<open>Walker\<close>
    (\<open>core/walker.py\<close>), \<open>Workspace_Copy\<close> (\<open>core/workspace_copy.py\<close>), \<open>Workspace_Backups\<close> (\<open>core/workspace_backups.py\<close>):
    the ancestors of a workspace, the refusal of escaping links, and backups that appear whole or not at all.
  \<^item> \<open>Instance_Cli\<close>, \<open>Workspace_Commands\<close>, \<open>Lifecycle\<close>: the commands of \<open>cli/main.py\<close> on workspaces and the end of an instance
    (\<open>workspace add\<close>, \<open>remove\<close>, \<open>rename\<close>, \<open>restore\<close>, \<open>stop\<close>, \<open>destroy\<close>), each as the part before its locks and the part
    under them. Nothing selected for backup is lost, and a destroy that reports success leaves nothing of the instance.
  \<^item> \<open>Secrets\<close>: the environment file of an instance (\<open>core/scaffold.py\<close>), from its creation and the sources of its
    values to the gate of \<open>start\<close> that reads it back. \<open>Attach\<close>: the hardened terminal handover of \<open>attach\<close>.

  \<^bold>\<open>What the lemmas show.\<close> Safety of the boundary (quoting, framing, fail-closed parsing, the sudoers rule and its
  exact language), isolation (networks, subordinate ids), behaviour of each operation on all branches, round trips
  (wire forms, id translation, audit records, preflight bundle, marker), termination of the unbounded searches,
  and convergence of phases: what an act leaves is what the next probe accepts. Where the code does not do what its
  documentation says, a theorem states what it does.

  \<^bold>\<open>Conventions.\<close> A Python exception is the left side of a sum, by class where code distinguishes it and by message where
  it is only shown. Texts are lists of characters, outside ASCII in UTF-8. Integers are unbounded, as in Python. Loops
  are structural recursions or terminate by a measure; the search for a free subordinate id block and the climb to
  the root of a path are \<open>partial_function\<close>s with theorems that they return. No fuel is used. Code outside the repository (Docker, systemd, sudo,
  the JSON library, the hash functions, the network) is a parameter; what a theorem needs of it is a hypothesis, and
  its witness instantiates the parameter.

  \<^bold>\<open>Not modelled.\<close> The individual doctor checks (each reads the host through programs), the commands \<open>init\<close>, \<open>start\<close>
  and \<open>status\<close> around the access plans and the gate of the secrets, the other scaffolding, key generation and template hydration; console styling, option
  parsing (typer), the field validation of pydantic, signal handling, and the Go dispatcher under
  \<open>src/src/templates\<close>.
\<close>

end
